(* ===== verification/Prelude.thy ===== *)
theory Prelude
  imports Main "HOL-Library.Word" "HOL-Library.Sublist" "HOL-Library.Monad_Syntax"
begin

text \<open>
  Shared ground of the development: the names of the machine types, the helpers of Go's
  \<^verbatim>\<open>strings\<close> and \<^verbatim>\<open>strconv\<close> packages that the sources call, and the
  lemma collections the component proofs draw on.

  A Go \<^verbatim>\<open>string\<close> and a Go \<^verbatim>\<open>[]byte\<close> are both sequences of bytes, so both
  are \<^typ>\<open>string\<close> here (a \<^typ>\<open>char\<close> is one byte). A slice whose nil-ness can be
  observed is an option of a list, \<^term>\<open>None\<close> being the nil slice.
\<close>

named_theorems wire_simps \<open>the decoders of atoms and struct fields, unfolded\<close>

type_synonym i64 = "64 word"
type_synonym 'a slice = "'a list option"

abbreviation byte :: "char \<Rightarrow> nat" where
  "byte c \<equiv> of_char c"

abbreviation chr :: "nat \<Rightarrow> char" where
  "chr n \<equiv> char_of n"

lemma byte_less_256 [simp]: "byte c < 256"
  using of_char_of [of "of_char c :: nat"] by (metis char_of_char mod_less_divisor of_char_of zero_less_numeral)

lemma chr_inject: "m < 256 \<Longrightarrow> n < 256 \<Longrightarrow> chr m = chr n \<longleftrightarrow> m = n"
  by (metis mod_less of_char_of)

lemma byte_inject [simp]: "byte c = byte d \<longleftrightarrow> c = d"
  by (metis char_of_char)

section \<open>Bytes with a role in the texts\<close>

definition DQ :: char where "DQ = CHR 0x22"
definition BSL :: char where "BSL = CHR 0x5C"
definition LF :: char where "LF = CHR 0x0A"

lemmas mark_defs = DQ_def BSL_def LF_def

section \<open>The strings package\<close>

text \<open>
  \<^verbatim>\<open>strings.CutPrefix\<close>, \<^verbatim>\<open>strings.Cut\<close> and \<^verbatim>\<open>strings.Join\<close>.
\<close>

definition cut_prefix :: "string \<Rightarrow> string \<Rightarrow> string \<times> bool" where
  "cut_prefix p s = (if prefix p s then (drop (length p) s, True) else (s, False))"

fun cut_byte :: "char \<Rightarrow> string \<Rightarrow> string \<times> string \<times> bool" where
  "cut_byte d [] = ([], [], False)"
| "cut_byte d (c # s) =
     (if c = d then ([], s, True)
      else (case cut_byte d s of (before, after, found) \<Rightarrow> (c # before, after, found)))"

fun join_with :: "'a list \<Rightarrow> 'a list list \<Rightarrow> 'a list" where
  "join_with sep [] = []"
| "join_with sep [x] = x"
| "join_with sep (x # y # xs) = x @ sep @ join_with sep (y # xs)"

lemma cut_byte_absent: "d \<notin> set s \<Longrightarrow> cut_byte d s = (s, [], False)"
  by (induction s) auto

lemma cut_byte_append: "d \<notin> set s \<Longrightarrow> cut_byte d (s @ d # t) = (s, t, True)"
  by (induction s) auto

section \<open>Decimal integers\<close>

text \<open>
  \<^verbatim>\<open>strconv.AppendInt(nil, i, 10)\<close> and \<^verbatim>\<open>strconv.ParseInt(s, 10, 64)\<close>.
  A sign other than a leading minus never reaches \<^verbatim>\<open>ParseInt\<close> here, since a JSON
  number literal has none.
\<close>

definition digit_char :: "nat \<Rightarrow> char" where
  "digit_char d = chr (48 + d)"

definition is_digit :: "char \<Rightarrow> bool" where
  "is_digit c \<longleftrightarrow> 48 \<le> byte c \<and> byte c \<le> 57"

definition digit_val :: "char \<Rightarrow> nat" where
  "digit_val c = byte c - 48"

fun show_nat :: "nat \<Rightarrow> string" where
  "show_nat n = (if n < 10 then [digit_char n] else show_nat (n div 10) @ [digit_char (n mod 10)])"

declare show_nat.simps [simp del]

definition show_int :: "int \<Rightarrow> string" where
  "show_int i = (if i < 0 then CHR ''-'' # show_nat (nat (- i)) else show_nat (nat i))"

definition read_nat :: "string \<Rightarrow> nat" where
  "read_nat ds = foldl (\<lambda>acc c. acc * 10 + digit_val c) 0 ds"

definition int64_ok :: "int \<Rightarrow> bool" where
  "int64_ok i \<longleftrightarrow> - (2 ^ 63) \<le> i \<and> i < 2 ^ 63"

definition parse_i64 :: "string \<Rightarrow> i64 option" where
  "parse_i64 s =
     (let (neg, ds) = (case s of c # t \<Rightarrow> if c = CHR ''-'' then (True, t) else (False, s) | [] \<Rightarrow> (False, []));
          i = (if neg then - int (read_nat ds) else int (read_nat ds))
      in if ds \<noteq> [] \<and> list_all is_digit ds \<and> int64_ok i then Some (word_of_int i) else None)"

lemma byte_digit_char [simp]: "d < 10 \<Longrightarrow> byte (digit_char d) = 48 + d"
  by (simp add: digit_char_def)

lemma is_digit_char [simp]: "d < 10 \<Longrightarrow> is_digit (digit_char d)"
  by (simp add: is_digit_def)

lemma digit_val_char [simp]: "d < 10 \<Longrightarrow> digit_val (digit_char d) = d"
  by (simp add: digit_val_def)

lemma show_nat_nonempty [simp]: "show_nat n \<noteq> []"
  by (subst show_nat.simps) simp

lemma show_nat_digits: "list_all is_digit (show_nat n)"
proof (induction n rule: show_nat.induct)
  case (1 n)
  show ?case
  proof (cases "n < 10")
    case True
    then show ?thesis by (subst show_nat.simps) simp
  next
    case False
    with "1.IH" have "list_all is_digit (show_nat (n div 10))" by simp
    with False show ?thesis by (subst show_nat.simps) simp
  qed
qed

lemma show_nat_digit: "c \<in> set (show_nat n) \<Longrightarrow> is_digit c"
  using show_nat_digits [of n] by (simp add: list_all_iff)

lemma read_nat_snoc: "read_nat (ds @ [c]) = read_nat ds * 10 + digit_val c"
  by (simp add: read_nat_def)

lemma read_show_nat [simp]: "read_nat (show_nat n) = n"
proof (induction n rule: show_nat.induct)
  case (1 n)
  show ?case
  proof (cases "n < 10")
    case True
    then show ?thesis by (subst show_nat.simps) (simp add: read_nat_def)
  next
    case False
    with "1.IH" have "read_nat (show_nat (n div 10)) = n div 10" by simp
    with False show ?thesis by (subst show_nat.simps) (simp add: read_nat_snoc)
  qed
qed

lemma minus_not_digit [simp]: "\<not> is_digit (CHR ''-'')"
  by (simp add: is_digit_def)

lemma zero_is_digit [simp]: "is_digit (CHR ''0'')"
  by (simp add: is_digit_def)

lemma LF_not_digit [simp]: "\<not> is_digit LF"
  by (simp add: is_digit_def LF_def)

lemma int64_ok_sint [simp]: "int64_ok (sint (w :: i64))"
proof -
  have "sint w < 2 ^ 63" and "- (2 ^ 63) \<le> sint w"
    using sint_lt [of w] sint_ge [of w] by simp_all
  then show ?thesis by (simp add: int64_ok_def)
qed

lemma show_nat_hd_not_minus: "show_nat n = c # t \<Longrightarrow> c \<noteq> CHR ''-''"
  using show_nat_digit [of c n] by auto

text \<open>Printing a 64-bit integer and parsing the text returns the integer.\<close>

lemma parse_show_i64 [simp]: "parse_i64 (show_int (sint (w :: i64))) = Some w"
proof (cases "sint w < 0")
  case True
  then show ?thesis
    using int64_ok_sint [of w] show_nat_digits by (simp add: parse_i64_def show_int_def)
next
  case False
  obtain c t where ct: "show_nat (nat (sint w)) = c # t"
    by (cases "show_nat (nat (sint w))") auto
  then have "c \<noteq> CHR ''-''" by (rule show_nat_hd_not_minus)
  then have "parse_i64 (show_nat (nat (sint w))) = Some (word_of_int (int (read_nat (c # t))))"
    using False int64_ok_sint [of w] show_nat_digits [of "nat (sint w)"] read_show_nat [of "nat (sint w)"]
    by (simp add: parse_i64_def ct del: read_show_nat)
  then show ?thesis using False read_show_nat [of "nat (sint w)"] by (simp add: show_int_def ct del: read_show_nat)
qed

lemma show_int_no_LF: "LF \<notin> set (show_int i)"
proof -
  have "LF \<notin> set (show_nat n)" for n
    using show_nat_digit [of LF n] by auto
  moreover have "LF \<noteq> CHR ''-''" by (simp add: LF_def)
  ultimately show ?thesis by (simp add: show_int_def)
qed

lemma show_int_sint_inject: "show_int (sint (v :: i64)) = show_int (sint w) \<Longrightarrow> v = w"
  by (metis option.inject parse_show_i64)

end
