(* ===== verification/Utf8.thy ===== *)
theory Utf8
  imports Prelude
begin

text \<open>
  The part of Go's \<^verbatim>\<open>unicode/utf8\<close> that \<^verbatim>\<open>encoding/json\<close> relies on: how
  many bytes the first well-formed sequence of a text takes, which texts are well formed, the
  text with every ill-formed byte replaced by U+FFFD, and the encoding of one code point.
\<close>

section \<open>Sequences\<close>

definition in_range :: "nat \<Rightarrow> nat \<Rightarrow> char \<Rightarrow> bool" where
  "in_range lo hi c \<longleftrightarrow> lo \<le> byte c \<and> byte c \<le> hi"

definition second_ok :: "nat \<Rightarrow> char \<Rightarrow> bool" where
  "second_ok x c =
     (if x = 0xE0 then in_range 0xA0 0xBF c
      else if x = 0xED then in_range 0x80 0x9F c
      else if x = 0xF0 then in_range 0x90 0xBF c
      else if x = 0xF4 then in_range 0x80 0x8F c
      else in_range 0x80 0xBF c)"

definition tail_ok :: "char \<Rightarrow> bool" where
  "tail_ok c = in_range 0x80 0xBF c"

text \<open>
  \<^verbatim>\<open>utf8.DecodeRune\<close>'s size of a well-formed leading sequence; \<^term>\<open>0::nat\<close>
  stands for the answer \<^verbatim>\<open>(RuneError, 1)\<close> that it gives for an ill-formed one.
\<close>

fun utf8_size :: "string \<Rightarrow> nat" where
  "utf8_size [] = 0"
| "utf8_size (a # s) =
     (let x = byte a in
      if x < 0x80 then 1
      else if x < 0xC2 then 0
      else if x < 0xE0 then (case s of b # _ \<Rightarrow> if tail_ok b then 2 else 0 | _ \<Rightarrow> 0)
      else if x < 0xF0 then
        (case s of b # c # _ \<Rightarrow> if second_ok x b \<and> tail_ok c then 3 else 0 | _ \<Rightarrow> 0)
      else if x < 0xF5 then
        (case s of b # c # d # _ \<Rightarrow> if second_ok x b \<and> tail_ok c \<and> tail_ok d then 4 else 0 | _ \<Rightarrow> 0)
      else 0)"

lemma utf8_size_le: "utf8_size s \<le> length s"
  by (cases s rule: utf8_size.cases) (auto simp: Let_def split: list.splits)

lemma utf8_size_take_append:
  assumes "0 < utf8_size s"
  shows "utf8_size (take (utf8_size s) s @ r) = utf8_size s"
  using assms by (cases s rule: utf8_size.cases) (auto simp: Let_def split: list.splits if_splits)

lemma utf8_size_ascii [simp]: "byte c < 0x80 \<Longrightarrow> utf8_size (c # s) = 1"
  by simp

lemma utf8_size_multi: "1 < utf8_size (c # s) \<Longrightarrow> 0x80 \<le> byte c"
  by (rule ccontr) simp

lemma second_ok_high: "second_ok x c \<Longrightarrow> 0x80 \<le> byte c"
  by (auto simp: second_ok_def in_range_def split: if_splits)

lemma tail_ok_high: "tail_ok c \<Longrightarrow> 0x80 \<le> byte c"
  by (simp add: tail_ok_def in_range_def)

text \<open>Every byte of a multi-byte sequence is outside ASCII.\<close>

lemma utf8_multi_high:
  assumes "1 < utf8_size s" and "c \<in> set (take (utf8_size s) s)"
  shows "0x80 \<le> byte c"
  using assms by (cases s rule: utf8_size.cases)
    (auto simp: Let_def dest: second_ok_high tail_ok_high split: list.splits if_splits)

declare utf8_size.simps(2) [simp del]

section \<open>Well-formed texts and the replacement of ill-formed bytes\<close>

definition rune_error :: string where
  "rune_error = [chr 0xEF, chr 0xBF, chr 0xBD]"

function valid_utf8 :: "string \<Rightarrow> bool" where
  "valid_utf8 s =
     (if s = [] then True else if utf8_size s = 0 then False
      else valid_utf8 (drop (utf8_size s) s))"
  by pat_completeness auto
termination
  by (relation "measure length") auto

function to_valid_utf8 :: "string \<Rightarrow> string" where
  "to_valid_utf8 s =
     (if s = [] then []
      else if utf8_size s = 0 then rune_error @ to_valid_utf8 (drop 1 s)
      else take (utf8_size s) s @ to_valid_utf8 (drop (utf8_size s) s))"
  by pat_completeness auto
termination
  by (relation "measure length") auto

declare valid_utf8.simps [simp del] to_valid_utf8.simps [simp del]

lemma valid_utf8_Nil [simp]: "valid_utf8 []"
  by (subst valid_utf8.simps) simp

lemma to_valid_utf8_Nil [simp]: "to_valid_utf8 [] = []"
  by (subst to_valid_utf8.simps) simp

lemma valid_utf8_step: "s \<noteq> [] \<Longrightarrow> valid_utf8 s \<longleftrightarrow> 0 < utf8_size s \<and> valid_utf8 (drop (utf8_size s) s)"
  by (simp add: valid_utf8.simps [of s])

lemma valid_utf8_Cons_ascii [simp]: "byte c < 0x80 \<Longrightarrow> valid_utf8 (c # s) \<longleftrightarrow> valid_utf8 s"
  by (simp add: valid_utf8_step)

lemma valid_utf8_seq_append:
  assumes "0 < utf8_size s"
  shows "valid_utf8 (take (utf8_size s) s @ r) \<longleftrightarrow> valid_utf8 r"
proof -
  have "take (utf8_size s) s \<noteq> []" using assms by (cases s) auto
  then have "take (utf8_size s) s @ r \<noteq> []" by simp
  from valid_utf8_step [OF this] show ?thesis
    using assms utf8_size_le [of s] by (simp add: utf8_size_take_append min_def)
qed

lemma valid_utf8_append: "valid_utf8 s \<Longrightarrow> valid_utf8 (s @ r) \<longleftrightarrow> valid_utf8 r"
proof (induction s rule: valid_utf8.induct)
  case (1 s)
  show ?case
  proof (cases "s = []")
    case False
    with "1.prems" have n: "0 < utf8_size s" and v: "valid_utf8 (drop (utf8_size s) s)"
      by (simp_all add: valid_utf8_step)
    have "s @ r = take (utf8_size s) s @ (drop (utf8_size s) s @ r)"
      by (simp only: append_assoc [symmetric] append_take_drop_id)
    then have "valid_utf8 (s @ r) \<longleftrightarrow> valid_utf8 (take (utf8_size s) s @ (drop (utf8_size s) s @ r))"
      by (rule arg_cong)
    also have "\<dots> \<longleftrightarrow> valid_utf8 (drop (utf8_size s) s @ r)"
      by (rule valid_utf8_seq_append [OF n])
    also have "\<dots> \<longleftrightarrow> valid_utf8 r" using False n v by (intro "1.IH") simp_all
    finally show ?thesis .
  qed simp
qed

lemma valid_utf8_ascii: "list_all (\<lambda>c. byte c < 0x80) s \<Longrightarrow> valid_utf8 s"
  by (induction s) auto

lemma valid_utf8_rune_error: "valid_utf8 rune_error"
  unfolding rune_error_def
  by (simp add: valid_utf8_step utf8_size.simps(2) second_ok_def tail_ok_def in_range_def Let_def)

lemma valid_to_valid_utf8 [simp]: "valid_utf8 (to_valid_utf8 s)"
proof (induction s rule: to_valid_utf8.induct)
  case (1 s)
  then show ?case
    using valid_utf8_append [OF valid_utf8_rune_error]
    by (simp add: to_valid_utf8.simps [of s] valid_utf8_seq_append)
qed

lemma to_valid_utf8_Cons_ascii [simp]:
  "byte c < 0x80 \<Longrightarrow> to_valid_utf8 (c # s) = c # to_valid_utf8 s"
  by (simp add: to_valid_utf8.simps [of "c # s"])

lemma to_valid_utf8_id: "valid_utf8 s \<Longrightarrow> to_valid_utf8 s = s"
proof (induction s rule: valid_utf8.induct)
  case (1 s)
  show ?case
  proof (cases "s = []")
    case False
    with "1.prems" have "0 < utf8_size s" and "valid_utf8 (drop (utf8_size s) s)"
      by (simp_all add: valid_utf8_step)
    with False "1.IH" show ?thesis by (simp add: to_valid_utf8.simps [of s])
  qed simp
qed

section \<open>Encoding one code point\<close>

text \<open>\<^verbatim>\<open>utf8.AppendRune\<close>; a surrogate or a value above U+10FFFF is written as U+FFFD.\<close>

definition is_surrogate :: "nat \<Rightarrow> bool" where
  "is_surrogate r \<longleftrightarrow> 0xD800 \<le> r \<and> r < 0xE000"

definition utf8_encode :: "nat \<Rightarrow> string" where
  "utf8_encode r =
     (if r < 0x80 then [chr r]
      else if r < 0x800 then [chr (0xC0 + r div 64), chr (0x80 + r mod 64)]
      else if is_surrogate r \<or> 0x10FFFF < r then rune_error
      else if r < 0x10000 then
        [chr (0xE0 + r div 4096), chr (0x80 + r div 64 mod 64), chr (0x80 + r mod 64)]
      else [chr (0xF0 + r div 262144), chr (0x80 + r div 4096 mod 64),
            chr (0x80 + r div 64 mod 64), chr (0x80 + r mod 64)])"

end
