(* ===== verification/Base64.thy ===== *)
theory Base64
  imports Prelude
begin

text \<open>
  \<^verbatim>\<open>base64.StdEncoding\<close>, the form in which \<^verbatim>\<open>encoding/json\<close> writes and
  reads a \<^verbatim>\<open>[]byte\<close>. The decoder skips carriage returns and line feeds wherever
  they stand, takes padding at the end only and ignores the spare low bits of a padded group,
  as the non-strict standard decoder does.
\<close>

section \<open>The alphabet\<close>

definition b64_char :: "nat \<Rightarrow> char" where
  "b64_char i =
     (if i < 26 then chr (65 + i) else if i < 52 then chr (71 + i)
      else if i < 62 then chr (i - 4) else if i = 62 then CHR ''+'' else CHR ''/'')"

definition b64_val :: "char \<Rightarrow> nat option" where
  "b64_val c =
     (let x = byte c in
      if 65 \<le> x \<and> x \<le> 90 then Some (x - 65)
      else if 97 \<le> x \<and> x \<le> 122 then Some (x - 71)
      else if 48 \<le> x \<and> x \<le> 57 then Some (x + 4)
      else if c = CHR ''+'' then Some 62 else if c = CHR ''/'' then Some 63 else None)"

definition PAD :: char where "PAD = CHR ''=''"

lemma byte_b64_char:
  "i < 64 \<Longrightarrow> byte (b64_char i) =
     (if i < 26 then 65 + i else if i < 52 then 71 + i else if i < 62 then i - 4 else if i = 62 then 43 else 47)"
  by (simp add: b64_char_def)

lemma b64_val_char [simp]: "i < 64 \<Longrightarrow> b64_val (b64_char i) = Some i"
proof -
  assume "i < 64"
  then consider "i < 26" | "26 \<le> i" "i < 52" | "52 \<le> i" "i < 62" | "i = 62" | "i = 63"
    by linarith
  then show ?thesis
    by cases (auto simp: b64_char_def b64_val_def Let_def)
qed

lemma b64_val_PAD [simp]: "b64_val PAD = None"
  by (simp add: b64_val_def PAD_def)

lemma b64_char_not_PAD [simp]: "i < 64 \<Longrightarrow> b64_char i \<noteq> PAD"
  using b64_val_char [of i] b64_val_PAD by (metis option.distinct(1))

section \<open>Encoding and decoding\<close>

fun b64_encode :: "string \<Rightarrow> string" where
  "b64_encode [] = []"
| "b64_encode [a] = [b64_char (byte a div 4), b64_char (byte a mod 4 * 16), PAD, PAD]"
| "b64_encode [a, b] =
     [b64_char (byte a div 4), b64_char (byte a mod 4 * 16 + byte b div 16),
      b64_char (byte b mod 16 * 4), PAD]"
| "b64_encode (a # b # c # s) =
     b64_char (byte a div 4) # b64_char (byte a mod 4 * 16 + byte b div 16) #
     b64_char (byte b mod 16 * 4 + byte c div 64) # b64_char (byte c mod 64) # b64_encode s"

fun b64_quanta :: "string \<Rightarrow> string option" where
  "b64_quanta [] = Some []"
| "b64_quanta (w # x # y # z # s) =
     (if y = PAD then
        (if z = PAD \<and> s = [] then
           do { p \<leftarrow> b64_val w; q \<leftarrow> b64_val x; Some [chr (p * 4 + q div 16)] }
         else None)
      else if z = PAD then
        (if s = [] then
           do { p \<leftarrow> b64_val w; q \<leftarrow> b64_val x; r \<leftarrow> b64_val y;
                Some [chr (p * 4 + q div 16), chr (q mod 16 * 16 + r div 4)] }
         else None)
      else
        do { p \<leftarrow> b64_val w; q \<leftarrow> b64_val x; r \<leftarrow> b64_val y; t \<leftarrow> b64_val z;
             bs \<leftarrow> b64_quanta s;
             Some (chr (p * 4 + q div 16) # chr (q mod 16 * 16 + r div 4) # chr (r mod 4 * 64 + t) # bs) })"
| "b64_quanta _ = None"

definition is_newline :: "char \<Rightarrow> bool" where
  "is_newline c \<longleftrightarrow> byte c = 10 \<or> byte c = 13"

definition b64_decode :: "string \<Rightarrow> string option" where
  "b64_decode s = b64_quanta (filter (\<lambda>c. \<not> is_newline c) s)"

section \<open>Round trip\<close>

lemma b64_byte_parts [simp]:
  "byte c div 4 < 64" "byte c div 16 < 16" "byte c div 64 < 4"
  "byte c div 16 div 16 = 0" "byte c div 16 mod 16 = byte c div 16"
  "byte c div 64 div 4 = 0" "byte c div 64 mod 4 = byte c div 64"
proof -
  show "byte c div 4 < 64" and x: "byte c div 16 < 16" and y: "byte c div 64 < 4"
    by (simp_all add: less_mult_imp_div_less)
  from x show "byte c div 16 div 16 = 0" and "byte c div 16 mod 16 = byte c div 16" by simp_all
  from y show "byte c div 64 div 4 = 0" and "byte c div 64 mod 4 = byte c div 64" by simp_all
qed

lemma b64_index_bounds [simp]:
  "byte a mod 4 * 16 < 64" "byte b mod 16 * 4 < 64" "byte c mod 64 < 64"
  "byte a mod 4 * 16 + byte b div 16 < 64" "byte b mod 16 * 4 + byte c div 64 < 64"
proof -
  have "byte a mod 4 \<le> 3" and "byte b mod 16 \<le> 15" by simp_all
  then show "byte a mod 4 * 16 < 64" and "byte b mod 16 * 4 < 64"
    and "byte a mod 4 * 16 + byte b div 16 < 64" and "byte b mod 16 * 4 + byte c div 64 < 64"
    using b64_byte_parts(2) [of b] b64_byte_parts(3) [of c] by linarith+
qed simp

lemma b64_quanta_encode: "b64_quanta (b64_encode s) = Some s"
  by (induction s rule: b64_encode.induct) simp_all

lemma b64_encode_chars: "c \<in> set (b64_encode s) \<Longrightarrow> c = PAD \<or> (\<exists>i<64. c = b64_char i)"
  by (induction s rule: b64_encode.induct) (auto intro: b64_byte_parts b64_index_bounds)

lemma b64_encode_no_newline: "c \<in> set (b64_encode s) \<Longrightarrow> \<not> is_newline c"
  by (drule b64_encode_chars) (auto simp: is_newline_def PAD_def byte_b64_char split: if_splits)

lemma b64_encode_ascii: "c \<in> set (b64_encode s) \<Longrightarrow> byte c < 0x80"
  by (drule b64_encode_chars) (auto simp: PAD_def byte_b64_char split: if_splits)

lemma b64_decode_encode [simp]: "b64_decode (b64_encode s) = Some s"
proof -
  have "filter (\<lambda>c. \<not> is_newline c) (b64_encode s) = b64_encode s"
    using b64_encode_no_newline by (simp add: filter_id_conv)
  then show ?thesis by (simp add: b64_decode_def b64_quanta_encode)
qed

lemma length_b64_encode: "length (b64_encode s) = (length s + 2) div 3 * 4"
proof (induction s rule: b64_encode.induct)
  case (4 a b c s)
  have "(5 + length s) div 3 = Suc (Suc (Suc (length s)) div 3)" by simp
  with 4 show ?case by simp
qed simp_all

end
