(* ===== verification/Json.thy ===== *)
theory Json
  imports Utf8 Base64
begin

text \<open>
  The part of Go's \<^verbatim>\<open>encoding/json\<close> the transport uses, at the level of the
  bytes on the wire: the printer (with its HTML-safe escapes and its replacement of
  ill-formed UTF-8), the scanner with its number and escape automata, and a stack machine
  over tokens that builds the value, with the nesting limit of the standard library. The
  number of a literal is kept as its text, as the scanner keeps it.
\<close>

section \<open>Values, tokens and characters\<close>

datatype json = JNull | JBool bool | JNum string | JStr string
  | JArr "json list" | JObj "(string \<times> json) list"

datatype token = TLBrace | TRBrace | TLBrack | TRBrack | TColon | TComma
  | TStr string | TNum string | TTrue | TFalse | TNull | TBad

definition is_space :: "char \<Rightarrow> bool" where
  "is_space c \<longleftrightarrow> byte c = 0x20 \<or> byte c = 0x09 \<or> byte c = 0x0A \<or> byte c = 0x0D"

definition hex_char :: "nat \<Rightarrow> char" where
  "hex_char n = (if n < 10 then chr (48 + n) else chr (87 + n))"

definition hex_val :: "char \<Rightarrow> nat option" where
  "hex_val c =
     (let x = byte c in
      if 48 \<le> x \<and> x \<le> 57 then Some (x - 48)
      else if 97 \<le> x \<and> x \<le> 102 then Some (x - 87)
      else if 65 \<le> x \<and> x \<le> 70 then Some (x - 55) else None)"

definition is_hex :: "char \<Rightarrow> bool" where
  "is_hex c \<longleftrightarrow> hex_val c \<noteq> None"

definition hex4 :: "char \<Rightarrow> char \<Rightarrow> char \<Rightarrow> char \<Rightarrow> nat" where
  "hex4 a b c d =
     ((the (hex_val a) * 16 + the (hex_val b)) * 16 + the (hex_val c)) * 16 + the (hex_val d)"

lemma hex_val_char [simp]: "n < 16 \<Longrightarrow> hex_val (hex_char n) = Some n"
  by (auto simp: hex_val_def hex_char_def Let_def)

lemma is_hex_char [simp]: "n < 16 \<Longrightarrow> is_hex (hex_char n)"
  by (simp add: is_hex_def)

lemma hex_val_0 [simp]: "hex_val (CHR ''0'') = Some 0"
  by (simp add: hex_val_def)

lemma is_hex_0 [simp]: "is_hex (CHR ''0'')"
  by (simp add: is_hex_def)

section \<open>Strings\<close>

text \<open>
  Printing: the bytes of \<^verbatim>\<open>htmlSafeSet\<close> stand for themselves, the others are
  escaped; a byte that starts no well-formed sequence becomes the escape of U+FFFD, and the
  two line separators are escaped too.
\<close>

definition html_safe :: "char \<Rightarrow> bool" where
  "html_safe c \<longleftrightarrow> 0x20 \<le> byte c \<and> byte c < 0x80 \<and> c \<noteq> DQ \<and> c \<noteq> BSL
     \<and> c \<noteq> CHR ''<'' \<and> c \<noteq> CHR ''>'' \<and> c \<noteq> CHR ''&''"

definition esc_ascii :: "char \<Rightarrow> string" where
  "esc_ascii c =
     (if html_safe c then [c]
      else if c = BSL \<or> c = DQ then [BSL, c]
      else if byte c = 8 then [BSL, CHR ''b'']
      else if byte c = 12 then [BSL, CHR ''f'']
      else if byte c = 10 then [BSL, CHR ''n'']
      else if byte c = 13 then [BSL, CHR ''r'']
      else if byte c = 9 then [BSL, CHR ''t'']
      else [BSL, CHR ''u'', CHR ''0'', CHR ''0'', hex_char (byte c div 16), hex_char (byte c mod 16)])"

definition line_sep :: "string \<Rightarrow> bool" where
  "line_sep q \<longleftrightarrow> q = [chr 0xE2, chr 0x80, chr 0xA8] \<or> q = [chr 0xE2, chr 0x80, chr 0xA9]"

definition esc_seq :: "string \<Rightarrow> string" where
  "esc_seq q =
     (if line_sep q then
        [BSL, CHR ''u'', CHR ''2'', CHR ''0'', CHR ''2'', hex_char (byte (last q) mod 16)]
      else q)"

function quote_body :: "string \<Rightarrow> string" where
  "quote_body s =
     (if s = [] then []
      else if utf8_size s = 0 then BSL # ''ufffd'' @ quote_body (drop 1 s)
      else if utf8_size s = 1 then esc_ascii (hd s) @ quote_body (drop 1 s)
      else esc_seq (take (utf8_size s) s) @ quote_body (drop (utf8_size s) s))"
  by pat_completeness auto
termination
  by (relation "measure length") auto

declare quote_body.simps [simp del]

text \<open>
  Scanning: the raw bytes up to the closing quote, refusing a control byte and an escape out
  of form; then the raw bytes are unquoted, pairs of surrogate escapes included.
\<close>

definition simple_escape :: "char \<Rightarrow> char option" where
  "simple_escape e =
     (if e = DQ \<or> e = BSL \<or> e = CHR ''/'' then Some e
      else if e = CHR ''b'' then Some (chr 8)
      else if e = CHR ''f'' then Some (chr 12)
      else if e = CHR ''n'' then Some (chr 10)
      else if e = CHR ''r'' then Some (chr 13)
      else if e = CHR ''t'' then Some (chr 9) else None)"

fun scan_str :: "string \<Rightarrow> (string \<times> string) option" where
  "scan_str [] = None"
| "scan_str (c # s) =
     (if c = DQ then Some ([], s)
      else if c = BSL then
        (case s of [] \<Rightarrow> None
         | e # t \<Rightarrow>
           if e = CHR ''u'' then
             (case t of p # q # r # v # u \<Rightarrow>
                if is_hex p \<and> is_hex q \<and> is_hex r \<and> is_hex v
                then map_option (\<lambda>(raw, rest). (c # e # p # q # r # v # raw, rest)) (scan_str u)
                else None
              | _ \<Rightarrow> None)
           else if simple_escape e \<noteq> None
             then map_option (\<lambda>(raw, rest). (c # e # raw, rest)) (scan_str t)
           else None)
      else if byte c < 0x20 then None
      else map_option (\<lambda>(raw, rest). (c # raw, rest)) (scan_str s))"

definition surrogate_pair :: "nat \<Rightarrow> nat \<Rightarrow> nat option" where
  "surrogate_pair hi lo =
     (if 0xD800 \<le> hi \<and> hi < 0xDC00 \<and> 0xDC00 \<le> lo \<and> lo < 0xE000
      then Some ((hi - 0xD800) * 1024 + (lo - 0xDC00) + 0x10000) else None)"

definition next_escape :: "string \<Rightarrow> nat option" where
  "next_escape u =
     (case u of b # e # p # q # r # v # _ \<Rightarrow>
        if b = BSL \<and> e = CHR ''u'' \<and> is_hex p \<and> is_hex q \<and> is_hex r \<and> is_hex v
        then Some (hex4 p q r v) else None
      | _ \<Rightarrow> None)"

function unquote :: "string \<Rightarrow> string" where
  "unquote s =
     (case s of [] \<Rightarrow> []
      | c # t \<Rightarrow>
        if c = BSL then
          (case t of [] \<Rightarrow> []
           | e # t' \<Rightarrow>
             if e = CHR ''u'' then
               (case t' of p # q # r # v # u \<Rightarrow>
                  (let h = hex4 p q r v in
                   case (if is_surrogate h then Option.bind (next_escape u) (surrogate_pair h) else None) of
                     Some x \<Rightarrow> utf8_encode x @ unquote (drop 6 u)
                   | None \<Rightarrow> utf8_encode h @ unquote u)
                | _ \<Rightarrow> [])
             else (case simple_escape e of Some x \<Rightarrow> x # unquote t' | None \<Rightarrow> []))
        else if utf8_size s = 0 then rune_error @ unquote t
        else take (utf8_size s) s @ unquote (drop (utf8_size s) s))"
  by pat_completeness auto
termination
  by (relation "measure length") auto

declare unquote.simps [simp del]

section \<open>Numbers\<close>

datatype num_state = NBegin | NNeg | NZero | NInt | NDot | NFrac | NE | NESign | NExp

definition num_step :: "num_state \<Rightarrow> char \<Rightarrow> num_state option" where
  "num_step st c =
     (case st of
        NBegin \<Rightarrow> if c = CHR ''-'' then Some NNeg else if c = CHR ''0'' then Some NZero
                  else if is_digit c then Some NInt else None
      | NNeg \<Rightarrow> if c = CHR ''0'' then Some NZero else if is_digit c then Some NInt else None
      | NZero \<Rightarrow> if c = CHR ''.'' then Some NDot
                  else if c = CHR ''e'' \<or> c = CHR ''E'' then Some NE else None
      | NInt \<Rightarrow> if is_digit c then Some NInt else if c = CHR ''.'' then Some NDot
                  else if c = CHR ''e'' \<or> c = CHR ''E'' then Some NE else None
      | NDot \<Rightarrow> if is_digit c then Some NFrac else None
      | NFrac \<Rightarrow> if is_digit c then Some NFrac
                  else if c = CHR ''e'' \<or> c = CHR ''E'' then Some NE else None
      | NE \<Rightarrow> if c = CHR ''+'' \<or> c = CHR ''-'' then Some NESign
                  else if is_digit c then Some NExp else None
      | NESign \<Rightarrow> if is_digit c then Some NExp else None
      | NExp \<Rightarrow> if is_digit c then Some NExp else None)"

definition num_final :: "num_state \<Rightarrow> bool" where
  "num_final st \<longleftrightarrow> st = NZero \<or> st = NInt \<or> st = NFrac \<or> st = NExp"

fun scan_num :: "num_state \<Rightarrow> string \<Rightarrow> (string \<times> string) option" where
  "scan_num st [] = (if num_final st then Some ([], []) else None)"
| "scan_num st (c # s) =
     (case num_step st c of
        Some st' \<Rightarrow> map_option (\<lambda>(lit, rest). (c # lit, rest)) (scan_num st' s)
      | None \<Rightarrow> if num_final st then Some ([], c # s) else None)"

definition num_ok :: "string \<Rightarrow> bool" where
  "num_ok lit \<longleftrightarrow> scan_num NBegin lit = Some (lit, [])"

definition num_char :: "char \<Rightarrow> bool" where
  "num_char c \<longleftrightarrow> is_digit c \<or> c \<in> set ''.eE+-''"

section \<open>The scanner\<close>

lemma scan_str_shorter: "scan_str s = Some (raw, rest) \<Longrightarrow> length rest < length s"
  by (induction s arbitrary: raw rest rule: scan_str.induct)
    (force split: if_splits list.splits simp: less_Suc_eq)+

lemma scan_num_shorter: "scan_num st s = Some (lit, rest) \<Longrightarrow> length rest \<le> length s"
  by (induction st s arbitrary: lit rest rule: scan_num.induct)
    (fastforce split: if_splits option.splits)+

lemma scan_num_begin_shorter:
  "scan_num NBegin s = Some (lit, rest) \<Longrightarrow> length rest < length s"
  by (cases s) (auto simp: num_final_def dest!: scan_num_shorter split: option.splits)

definition literal_at :: "string \<Rightarrow> (token \<times> nat) option" where
  "literal_at s =
     (if prefix ''true'' s then Some (TTrue, 4)
      else if prefix ''false'' s then Some (TFalse, 5)
      else if prefix ''null'' s then Some (TNull, 4) else None)"

definition punct :: "char \<Rightarrow> token option" where
  "punct c =
     (if c = CHR ''{'' then Some TLBrace else if c = CHR ''}'' then Some TRBrace
      else if c = CHR ''['' then Some TLBrack else if c = CHR '']'' then Some TRBrack
      else if c = CHR '':'' then Some TColon else if c = CHR '','' then Some TComma else None)"

lemma literal_at_pos: "literal_at s = Some (t, n) \<Longrightarrow> 0 < n"
  by (auto simp: literal_at_def split: if_splits)

text \<open>The tokens of a text. Text that starts no token is one \<^term>\<open>TBad\<close>, at which it ends.\<close>

function lexer :: "string \<Rightarrow> token list" where
  "lexer s =
     (case s of [] \<Rightarrow> []
      | c # t \<Rightarrow>
        if is_space c then lexer t
        else (case punct c of Some p \<Rightarrow> p # lexer t
        | None \<Rightarrow>
          if c = DQ then
            (case scan_str t of None \<Rightarrow> [TBad] | Some (raw, rest) \<Rightarrow> TStr (unquote raw) # lexer rest)
          else if c = CHR ''-'' \<or> is_digit c then
            (case scan_num NBegin s of None \<Rightarrow> [TBad] | Some (lit, rest) \<Rightarrow> TNum lit # lexer rest)
          else (case literal_at s of None \<Rightarrow> [TBad] | Some (l, n) \<Rightarrow> l # lexer (drop n s))))"
  by pat_completeness auto
termination
  by (relation "measure length")
    (auto dest: scan_str_shorter scan_num_begin_shorter literal_at_pos
      simp del: scan_str.simps scan_num.simps)

declare lexer.simps [simp del]

section \<open>The parser\<close>

datatype frame = FArr "json list" | FObj "(string \<times> json) list" | FMem "(string \<times> json) list" string

datatype pstate = PValue | PValueOrEnd | PKey | PKeyOrEnd | PColon string | PAfter json

definition max_nesting :: nat where
  "max_nesting = 10000"

definition push :: "frame \<Rightarrow> pstate \<Rightarrow> frame list \<Rightarrow> (frame list \<times> pstate) option" where
  "push f p st = (if length st < max_nesting then Some (f # st, p) else None)"

definition begin_value :: "frame list \<Rightarrow> token \<Rightarrow> (frame list \<times> pstate) option" where
  "begin_value st t =
     (case t of
        TLBrace \<Rightarrow> push (FObj []) PKeyOrEnd st
      | TLBrack \<Rightarrow> push (FArr []) PValueOrEnd st
      | TStr s \<Rightarrow> Some (st, PAfter (JStr s))
      | TNum lit \<Rightarrow> Some (st, PAfter (JNum lit))
      | TTrue \<Rightarrow> Some (st, PAfter (JBool True))
      | TFalse \<Rightarrow> Some (st, PAfter (JBool False))
      | TNull \<Rightarrow> Some (st, PAfter JNull)
      | _ \<Rightarrow> None)"

definition begin_key :: "frame list \<Rightarrow> token \<Rightarrow> (frame list \<times> pstate) option" where
  "begin_key st t = (case t of TStr k \<Rightarrow> Some (st, PColon k) | _ \<Rightarrow> None)"

definition pstep :: "frame list \<Rightarrow> pstate \<Rightarrow> token \<Rightarrow> (frame list \<times> pstate) option" where
  "pstep st p t =
     (case p of
        PValue \<Rightarrow> begin_value st t
      | PValueOrEnd \<Rightarrow>
          (case st of FArr vs # st' \<Rightarrow>
             if t = TRBrack then Some (st', PAfter (JArr (rev vs))) else begin_value st t
           | _ \<Rightarrow> None)
      | PKey \<Rightarrow> begin_key st t
      | PKeyOrEnd \<Rightarrow>
          (case st of FObj ms # st' \<Rightarrow>
             if t = TRBrace then Some (st', PAfter (JObj (rev ms))) else begin_key st t
           | _ \<Rightarrow> None)
      | PColon k \<Rightarrow>
          (case st of FObj ms # st' \<Rightarrow> if t = TColon then Some (FMem ms k # st', PValue) else None
           | _ \<Rightarrow> None)
      | PAfter v \<Rightarrow>
          (case st of
             FArr vs # st' \<Rightarrow>
               if t = TComma then Some (FArr (v # vs) # st', PValue)
               else if t = TRBrack then Some (st', PAfter (JArr (rev (v # vs)))) else None
           | FMem ms k # st' \<Rightarrow>
               if t = TComma then Some (FObj ((k, v) # ms) # st', PKey)
               else if t = TRBrace then Some (st', PAfter (JObj (rev ((k, v) # ms)))) else None
           | _ \<Rightarrow> None))"

text \<open>
  The first value of a token list, with the tokens after it.
\<close>

fun run :: "frame list \<Rightarrow> pstate \<Rightarrow> token list \<Rightarrow> (json \<times> token list) option" where
  "run st p ts =
     (case (st, p) of
        ([], PAfter v) \<Rightarrow> Some (v, ts)
      | _ \<Rightarrow>
        (case ts of [] \<Rightarrow> None
         | t # ts' \<Rightarrow> (case pstep st p t of None \<Rightarrow> None | Some (st', p') \<Rightarrow> run st' p' ts')))"

declare run.simps [simp del]

definition first_value :: "string \<Rightarrow> (json \<times> token list) option" where
  "first_value s = run [] PValue (lexer s)"

definition parse_json :: "string \<Rightarrow> json option" where
  "parse_json s = (case first_value s of Some (v, []) \<Rightarrow> Some v | _ \<Rightarrow> None)"

section \<open>The printer\<close>

definition quote_json :: "string \<Rightarrow> string" where
  "quote_json s = DQ # quote_body s @ [DQ]"

fun print_json :: "json \<Rightarrow> string" where
  "print_json JNull = ''null''"
| "print_json (JBool b) = (if b then ''true'' else ''false'')"
| "print_json (JNum lit) = lit"
| "print_json (JStr s) = quote_json s"
| "print_json (JArr vs) = ''['' @ join_with '','' (map print_json vs) @ '']''"
| "print_json (JObj ms) =
     ''{'' @ join_with '','' (map (\<lambda>(k, v). quote_json k @ '':'' @ print_json v) ms) @ ''}''"

text \<open>What a value becomes when its strings are made well-formed UTF-8.\<close>

fun norm_json :: "json \<Rightarrow> json" where
  "norm_json (JStr s) = JStr (to_valid_utf8 s)"
| "norm_json (JArr vs) = JArr (map norm_json vs)"
| "norm_json (JObj ms) = JObj (map (\<lambda>(k, v). (to_valid_utf8 k, norm_json v)) ms)"
| "norm_json j = j"

fun nesting :: "json \<Rightarrow> nat" where
  "nesting (JArr vs) = Suc (foldr max (map nesting vs) 0)"
| "nesting (JObj ms) = Suc (foldr max (map (\<lambda>(k, v). nesting v) ms) 0)"
| "nesting _ = 0"

fun nums_ok :: "json \<Rightarrow> bool" where
  "nums_ok (JNum lit) = num_ok lit"
| "nums_ok (JArr vs) = list_all nums_ok vs"
| "nums_ok (JObj ms) = list_all (\<lambda>(k, v). nums_ok v) ms"
| "nums_ok _ = True"

fun utf8_ok :: "json \<Rightarrow> bool" where
  "utf8_ok (JStr s) = valid_utf8 s"
| "utf8_ok (JArr vs) = list_all utf8_ok vs"
| "utf8_ok (JObj ms) = list_all (\<lambda>(k, v). valid_utf8 k \<and> utf8_ok v) ms"
| "utf8_ok _ = True"

end
