(* ===== verification/Json_Roundtrip.thy ===== *)
theory Json_Roundtrip
  imports Json
begin

text \<open>
  Printing a value and parsing the text gives the value back, its strings made well-formed
  UTF-8: first for strings (the scanner takes exactly the printed body, unquoting undoes the
  escapes), then for numbers, then for the token list of a value, then for the stack machine.
\<close>

section \<open>Strings\<close>

lemma quote_body_Nil [simp]: "quote_body [] = []"
  by (simp add: quote_body.simps)

lemma quote_body_bad: "s \<noteq> [] \<Longrightarrow> utf8_size s = 0 \<Longrightarrow> quote_body s = BSL # ''ufffd'' @ quote_body (drop 1 s)"
  by (simp add: quote_body.simps [of s])

lemma quote_body_ascii: "utf8_size s = 1 \<Longrightarrow> quote_body s = esc_ascii (hd s) @ quote_body (drop 1 s)"
  by (cases "s = []") (simp_all add: quote_body.simps [of s])

lemma quote_body_multi:
  "1 < utf8_size s \<Longrightarrow> quote_body s = esc_seq (take (utf8_size s) s) @ quote_body (drop (utf8_size s) s)"
  by (cases "s = []") (simp_all add: quote_body.simps [of s])

lemmas quote_body_cases = quote_body_bad quote_body_ascii quote_body_multi

lemma scan_str_plain:
  "c \<noteq> DQ \<Longrightarrow> c \<noteq> BSL \<Longrightarrow> 0x20 \<le> byte c \<Longrightarrow>
   scan_str (c # s) = map_option (\<lambda>(raw, rest). (c # raw, rest)) (scan_str s)"
  by simp

lemma scan_str_plains:
  "list_all (\<lambda>c. c \<noteq> DQ \<and> c \<noteq> BSL \<and> 0x20 \<le> byte c) q \<Longrightarrow>
   scan_str (q @ s) = map_option (\<lambda>(raw, rest). (q @ raw, rest)) (scan_str s)"
proof (induction q)
  case (Cons c q)
  then show ?case by (cases "scan_str s") (auto simp: case_prod_beta)
qed (cases "scan_str s"; simp)

lemma DQ_BSL [simp]: "DQ \<noteq> BSL" "BSL \<noteq> DQ"
  by (simp_all add: DQ_def BSL_def)

lemma high_plain: "0x80 \<le> byte c \<Longrightarrow> c \<noteq> DQ \<and> c \<noteq> BSL \<and> 0x20 \<le> byte c"
  by (auto simp: DQ_def BSL_def)

lemma simple_escape_printed [simp]:
  "simple_escape DQ = Some DQ" "simple_escape BSL = Some BSL"
  "simple_escape (CHR ''b'') = Some (chr 8)" "simple_escape (CHR ''f'') = Some (chr 12)"
  "simple_escape (CHR ''n'') = Some (chr 10)" "simple_escape (CHR ''r'') = Some (chr 13)"
  "simple_escape (CHR ''t'') = Some (chr 9)"
  by (simp_all add: simple_escape_def DQ_def BSL_def)

lemma mark_not_u [simp]: "DQ \<noteq> CHR ''u''" "BSL \<noteq> CHR ''u''"
  by (simp_all add: DQ_def BSL_def)

lemma ascii_hex_parts:
  assumes "byte c < 0x80"
  shows "byte c div 16 < 16" and "byte c mod 16 < 16"
  using assms by (simp_all add: less_mult_imp_div_less)

lemma scan_esc_ascii:
  assumes "byte c < 0x80"
  shows "scan_str (esc_ascii c @ s) = map_option (\<lambda>(raw, rest). (esc_ascii c @ raw, rest)) (scan_str s)"
  using ascii_hex_parts [OF assms]
  by (auto simp: esc_ascii_def html_safe_def)

lemma chr_digits [simp]: "chr 56 = CHR ''8''" "chr 57 = CHR ''9''"
  by (simp_all add: char_of_eq_iff)

lemma line_sep_last:
  "line_sep q \<Longrightarrow> hex_char (byte (last q) mod 16) = CHR ''8'' \<or> hex_char (byte (last q) mod 16) = CHR ''9''"
  by (auto simp: line_sep_def hex_char_def)

lemma is_hex_digits [simp]: "is_hex (CHR ''2'')" "is_hex (CHR ''8'')" "is_hex (CHR ''9'')"
  "is_hex (CHR ''f'')" "is_hex (CHR ''d'')"
  by (simp_all add: is_hex_def hex_val_def)

lemma scan_esc_seq:
  assumes "1 < utf8_size s"
  shows "scan_str (esc_seq (take (utf8_size s) s) @ r) =
    map_option (\<lambda>(raw, rest). (esc_seq (take (utf8_size s) s) @ raw, rest)) (scan_str r)"
proof (cases "line_sep (take (utf8_size s) s)")
  case True
  from line_sep_last [OF True] have "is_hex (hex_char (byte (last (take (utf8_size s) s)) mod 16))"
    by auto
  with True show ?thesis by (simp add: esc_seq_def)
next
  case False
  have "list_all (\<lambda>c. c \<noteq> DQ \<and> c \<noteq> BSL \<and> 0x20 \<le> byte c) (take (utf8_size s) s)"
    unfolding list_all_iff using high_plain [OF utf8_multi_high [OF assms]] by blast
  with False show ?thesis by (simp add: esc_seq_def scan_str_plains)
qed

lemma utf8_size_one_ascii: "utf8_size s = 1 \<Longrightarrow> byte (hd s) < 0x80"
  by (cases s rule: utf8_size.cases) (auto simp: utf8_size.simps Let_def split: list.splits if_splits)

text \<open>The scanner takes exactly the printed body of a string.\<close>

lemma scan_quote_body: "scan_str (quote_body s @ DQ # r) = Some (quote_body s, r)"
proof (induction s rule: quote_body.induct)
  case (1 s)
  consider "s = []" | "s \<noteq> []" "utf8_size s = 0" | "utf8_size s = 1" | "1 < utf8_size s"
    by linarith
  then show ?case
  proof cases
    case 2
    then show ?thesis using "1.IH"(1) by (simp add: quote_body_bad)
  next
    case 3
    then have "s \<noteq> []" by auto
    with 3 show ?thesis using "1.IH"(2)
      by (simp add: quote_body_ascii scan_esc_ascii utf8_size_one_ascii)
  next
    case 4
    then have "s \<noteq> []" by auto
    with 4 show ?thesis using "1.IH"(3) by (simp add: quote_body_multi scan_esc_seq)
  qed simp
qed

lemma unquote_Nil [simp]: "unquote [] = []"
  by (simp add: unquote.simps)

lemma unquote_simple: "e \<noteq> CHR ''u'' \<Longrightarrow> simple_escape e = Some x \<Longrightarrow> unquote (BSL # e # t) = x # unquote t"
  by (simp add: unquote.simps [of "BSL # e # t"])

lemma unquote_u:
  "\<not> is_surrogate (hex4 p q r v) \<Longrightarrow>
   unquote (BSL # CHR ''u'' # p # q # r # v # u) = utf8_encode (hex4 p q r v) @ unquote u"
  by (simp add: unquote.simps [of "BSL # CHR ''u'' # p # q # r # v # u"])

lemma unquote_seq:
  assumes "0 < utf8_size s" and "hd s \<noteq> BSL"
  shows "unquote (take (utf8_size s) s @ u) = take (utf8_size s) s @ unquote u"
proof -
  define q where "q = take (utf8_size s) s"
  have n: "utf8_size (q @ u) = length q"
    using utf8_size_take_append [OF assms(1), of u] utf8_size_le [of s] by (simp add: q_def)
  moreover obtain c t where ct: "q = c # t" and "c \<noteq> BSL"
    using assms by (cases s; cases "utf8_size s") (auto simp: q_def)
  ultimately have "unquote (q @ u) = q @ unquote u"
    by (simp add: unquote.simps [of "c # t @ u"])
  then show ?thesis by (simp add: q_def)
qed

lemma esc_ascii_unquote:
  assumes "byte c < 0x80"
  shows "unquote (esc_ascii c @ u) = c # unquote u"
proof -
  have seq: "unquote (c # u) = c # unquote u" if "c \<noteq> BSL"
    using unquote_seq [of "[c]" u] that assms by simp
  have hex: "hex4 (CHR ''0'') (CHR ''0'') (hex_char (byte c div 16)) (hex_char (byte c mod 16)) = byte c"
    using ascii_hex_parts [OF assms] by (simp add: hex4_def)
  have code: "c = chr n" if "byte c = n" for n using that by (metis char_of_char)
  show ?thesis
    using assms seq hex
    by (auto simp: esc_ascii_def html_safe_def unquote_simple unquote_u is_surrogate_def utf8_encode_def
        char_of_eq_iff [of _ "CHR ''<''"] char_of_eq_iff [of _ "CHR ''>''"] char_of_eq_iff [of _ "CHR ''&''"]
        dest: code)
qed

lemma rune_error_unquote: "unquote (BSL # ''ufffd'' @ u) = rune_error @ unquote u"
proof -
  have "hex4 (CHR ''f'') (CHR ''f'') (CHR ''f'') (CHR ''d'') = 0xFFFD"
    by (simp add: hex4_def hex_val_def)
  then show ?thesis
    by (simp add: unquote_u is_surrogate_def utf8_encode_def rune_error_def)
qed

lemma esc_seq_unquote:
  assumes "1 < utf8_size s"
  shows "unquote (esc_seq (take (utf8_size s) s) @ u) = take (utf8_size s) s @ unquote u"
proof (cases "line_sep (take (utf8_size s) s)")
  case True
  have "hex4 (CHR ''2'') (CHR ''0'') (CHR ''2'') (CHR ''8'') = 0x2028"
    and "hex4 (CHR ''2'') (CHR ''0'') (CHR ''2'') (CHR ''9'') = 0x2029"
    by (simp_all add: hex4_def hex_val_def)
  with True show ?thesis
    by (auto simp: esc_seq_def line_sep_def hex_char_def unquote_u is_surrogate_def utf8_encode_def)
next
  case False
  have "hd s \<noteq> BSL"
    using assms high_plain utf8_size_multi by (metis hd_Cons_tl list.size(3) not_less_zero utf8_size.simps(1))
  with False assms show ?thesis by (simp add: esc_seq_def unquote_seq)
qed

text \<open>Unquoting the printed body gives the string with its ill-formed bytes replaced.\<close>

lemma unquote_quote_body: "unquote (quote_body s) = to_valid_utf8 s"
proof (induction s rule: quote_body.induct)
  case (1 s)
  consider "s = []" | "s \<noteq> []" "utf8_size s = 0" | "utf8_size s = 1" | "1 < utf8_size s"
    by linarith
  then show ?case
  proof cases
    case 2
    then show ?thesis using "1.IH"(1)
      by (simp add: quote_body_bad to_valid_utf8.simps [of s] rune_error_unquote [simplified])
  next
    case 3
    then obtain c t where s: "s = c # t" by (cases s) auto
    with 3 show ?thesis using "1.IH"(2) utf8_size_one_ascii [OF 3]
      by (simp add: quote_body_ascii esc_ascii_unquote)
  next
    case 4
    then have "s \<noteq> []" by auto
    with 4 show ?thesis using "1.IH"(3)
      by (simp add: quote_body_multi to_valid_utf8.simps [of s] esc_seq_unquote)
  qed simp
qed

section \<open>Numbers\<close>

definition stops :: "string \<Rightarrow> bool" where
  "stops r \<longleftrightarrow> (case r of [] \<Rightarrow> True | c # _ \<Rightarrow> \<not> num_char c)"

lemma stops_simps [simp]:
  "stops []" "stops (CHR '','' # r)" "stops (CHR '']'' # r)" "stops (CHR ''}'' # r)"
  by (simp_all add: stops_def num_char_def is_digit_def)

lemma num_step_stops: "\<not> num_char c \<Longrightarrow> num_step st c = None"
proof -
  assume "\<not> num_char c"
  then have "\<not> is_digit c" "c \<noteq> CHR ''.''" "c \<noteq> CHR ''e''" "c \<noteq> CHR ''E''" "c \<noteq> CHR ''+''" "c \<noteq> CHR ''-''"
    by (simp_all add: num_char_def)
  moreover from this(1) have "c \<noteq> CHR ''0''" by (metis zero_is_digit)
  ultimately show ?thesis by (cases st) (simp_all add: num_step_def)
qed

lemma scan_num_append:
  "scan_num st lit = Some (lit, []) \<Longrightarrow> stops r \<Longrightarrow> scan_num st (lit @ r) = Some (lit, r)"
proof (induction lit arbitrary: st)
  case Nil
  then show ?case by (cases r) (auto simp: stops_def num_step_stops split: if_splits)
next
  case (Cons c lit)
  then show ?case by (auto split: option.splits if_splits)
qed

lemma scan_num_digits:
  "list_all is_digit ds \<Longrightarrow> scan_num NInt ds = Some (ds, [])"
  by (induction ds) (simp_all add: num_final_def num_step_def)

lemma show_nat_leading: "show_nat n = CHR ''0'' # ds \<Longrightarrow> ds = []"
proof (induction n arbitrary: ds rule: show_nat.induct)
  case (1 n)
  show ?case
  proof (cases "n < 10")
    case True
    with "1.prems" show ?thesis by (simp add: show_nat.simps [of n])
  next
    case False
    obtain c t where ct: "show_nat (n div 10) = c # t" by (cases "show_nat (n div 10)") auto
    with "1.prems" False have c: "c = CHR ''0''" by (simp add: show_nat.simps [of n])
    with ct "1.IH" False have "t = []" by simp
    with ct c read_show_nat [of "n div 10"] have "n div 10 = 0"
      by (simp add: read_nat_def digit_val_def del: read_show_nat)
    with False show ?thesis by simp
  qed
qed

lemma scan_num_show_nat: "st = NBegin \<or> st = NNeg \<Longrightarrow> scan_num st (show_nat n) = Some (show_nat n, [])"
proof -
  assume st: "st = NBegin \<or> st = NNeg"
  obtain c t where ct: "show_nat n = c # t" by (cases "show_nat n") auto
  then have "is_digit c" and t: "list_all is_digit t"
    using show_nat_digits [of n] by simp_all
  moreover from this(1) have "c \<noteq> CHR ''-''" by (metis minus_not_digit)
  moreover have "t = []" if "c = CHR ''0''" using that ct show_nat_leading by simp
  ultimately have "num_step st c = Some (if c = CHR ''0'' then NZero else NInt)"
    and "c = CHR ''0'' \<Longrightarrow> t = []"
    using st by (elim disjE; simp add: num_step_def)+
  then show ?thesis
    using scan_num_digits [OF t] by (cases "c = CHR ''0''") (simp_all add: ct num_final_def)
qed

lemma num_ok_show_int [simp]: "num_ok (show_int i)"
  using scan_num_show_nat [of NNeg] scan_num_show_nat [of NBegin]
  by (auto simp: num_ok_def show_int_def num_step_def)

lemma num_ok_nonempty: "num_ok lit \<Longrightarrow> lit \<noteq> []"
  by (auto simp: num_ok_def num_final_def)

lemma num_ok_hd: "num_ok (c # lit) \<Longrightarrow> c = CHR ''-'' \<or> is_digit c"
  by (auto simp: num_ok_def num_step_def num_final_def split: if_splits option.splits)

section \<open>Tokens\<close>

fun toks :: "json \<Rightarrow> token list" where
  "toks JNull = [TNull]"
| "toks (JBool b) = [if b then TTrue else TFalse]"
| "toks (JNum lit) = [TNum lit]"
| "toks (JStr s) = [TStr s]"
| "toks (JArr vs) = TLBrack # join_with [TComma] (map toks vs) @ [TRBrack]"
| "toks (JObj ms) =
     TLBrace # join_with [TComma] (map (\<lambda>(k, v). TStr k # TColon # toks v) ms) @ [TRBrace]"

lemma lex_Nil [simp]: "lexer [] = []"
  by (simp add: lexer.simps)

lemma lex_punct: "punct c = Some p \<Longrightarrow> \<not> is_space c \<Longrightarrow> lexer (c # s) = p # lexer s"
  by (simp add: lexer.simps [of "c # s"])

lemma punct_chars [simp]:
  "lexer (CHR ''{'' # s) = TLBrace # lexer s" "lexer (CHR ''}'' # s) = TRBrace # lexer s"
  "lexer (CHR ''['' # s) = TLBrack # lexer s" "lexer (CHR '']'' # s) = TRBrack # lexer s"
  "lexer (CHR '':'' # s) = TColon # lexer s" "lexer (CHR '','' # s) = TComma # lexer s"
  by (simp_all add: lex_punct punct_def is_space_def)

lemma lex_quote: "lexer (quote_json s @ r) = TStr (to_valid_utf8 s) # lexer r"
proof -
  have "\<not> is_space DQ" and "punct DQ = None" by (simp_all add: is_space_def punct_def DQ_def)
  then show ?thesis
    using scan_quote_body [of s r]
    by (simp add: quote_json_def lexer.simps [of "DQ # quote_body s @ DQ # r"] unquote_quote_body)
qed

lemma mark_not_digit [simp]:
  "\<not> is_digit (CHR ''{'')" "\<not> is_digit (CHR ''}'')" "\<not> is_digit (CHR ''['')"
  "\<not> is_digit (CHR '']'')" "\<not> is_digit (CHR '':'')" "\<not> is_digit (CHR '','')" "\<not> is_digit DQ"
  by (simp_all add: is_digit_def DQ_def)

lemma digit_not_space: "is_digit c \<Longrightarrow> \<not> is_space c"
  by (auto simp: is_digit_def is_space_def)

lemma digit_not_mark:
  "c = CHR ''-'' \<or> is_digit c \<Longrightarrow> \<not> is_space c \<and> punct c = None \<and> c \<noteq> DQ"
proof (elim disjE)
  assume "c = CHR ''-''"
  then show ?thesis by (simp add: is_space_def punct_def DQ_def)
next
  assume d: "is_digit c"
  then have "c \<noteq> CHR ''{''" "c \<noteq> CHR ''}''" "c \<noteq> CHR ''[''" "c \<noteq> CHR '']''"
    "c \<noteq> CHR '':''" "c \<noteq> CHR '',''" "c \<noteq> DQ" by auto
  with d show ?thesis by (simp add: punct_def digit_not_space)
qed

lemma lex_num: "num_ok lit \<Longrightarrow> stops r \<Longrightarrow> lexer (lit @ r) = TNum lit # lexer r"
proof -
  assume ok: "num_ok lit" and r: "stops r"
  obtain c t where ct: "lit = c # t" using num_ok_nonempty [OF ok] by (cases lit) auto
  have "scan_num NBegin (lit @ r) = Some (lit, r)"
    using ok r by (auto simp: num_ok_def intro: scan_num_append)
  then show ?thesis
    using num_ok_hd [of c t] ok digit_not_mark [of c] by (simp add: ct lexer.simps [of "c # t @ r"])
qed

lemma lex_literals:
  "lexer (''null'' @ r) = TNull # lexer r" "lexer (''true'' @ r) = TTrue # lexer r"
  "lexer (''false'' @ r) = TFalse # lexer r"
  by (simp_all add: lexer.simps [of "CHR ''n'' # s" for s] lexer.simps [of "CHR ''t'' # s" for s]
      lexer.simps [of "CHR ''f'' # s" for s] is_space_def punct_def DQ_def is_digit_def literal_at_def)

lemma lex_join:
  assumes "\<And>x r. x \<in> set xs \<Longrightarrow> stops r \<Longrightarrow> lexer (f x @ r) = g x @ lexer r" and "stops r"
  shows "lexer (join_with '','' (map f xs) @ r) = join_with [TComma] (map g xs) @ lexer r"
  using assms
proof (induction xs)
  case (Cons x xs)
  then show ?case by (cases xs) auto
qed simp

text \<open>The tokens of a printed value are the tokens of the value with its strings made well-formed.\<close>

lemma lex_print: "nums_ok v \<Longrightarrow> stops r \<Longrightarrow> lexer (print_json v @ r) = toks (norm_json v) @ lexer r"
proof (induction v arbitrary: r rule: print_json.induct)
  case (5 vs)
  have "lexer (join_with '','' (map print_json vs) @ CHR '']'' # r) =
      join_with [TComma] (map (\<lambda>v. toks (norm_json v)) vs) @ lexer (CHR '']'' # r)"
    using 5 by (intro lex_join) (auto simp: list_all_iff)
  then show ?case by (simp add: comp_def)
next
  case (6 ms)
  have "lexer (join_with '','' (map (\<lambda>(k, v). quote_json k @ '':'' @ print_json v) ms) @ CHR ''}'' # r) =
      join_with [TComma] (map (\<lambda>(k, v). TStr (to_valid_utf8 k) # TColon # toks (norm_json v)) ms)
      @ lexer (CHR ''}'' # r)"
    using 6 by (intro lex_join) (auto simp: list_all_iff lex_quote)
  moreover have "toks (norm_json (JObj ms)) =
      TLBrace # join_with [TComma] (map (\<lambda>(k, v). TStr (to_valid_utf8 k) # TColon # toks (norm_json v)) ms)
      @ [TRBrace]"
    by (simp add: comp_def case_prod_unfold)
  ultimately show ?case by simp
qed (simp_all add: lex_num lex_quote lex_literals [simplified])

section \<open>The stack machine\<close>

lemma run_done [simp]: "run [] (PAfter v) ts = Some (v, ts)"
  by (simp add: run.simps)

lemma run_step [simp]:
  "run (f # st) p (t # ts) = (case pstep (f # st) p t of None \<Rightarrow> None | Some (st', p') \<Rightarrow> run st' p' ts)"
  "run st PValue (t # ts) = (case pstep st PValue t of None \<Rightarrow> None | Some (st', p') \<Rightarrow> run st' p' ts)"
  by (simp_all add: run.simps [of _ _ "t # ts"] split: list.split)

lemma toks_hd: "\<exists>t ts. toks v = t # ts \<and> t \<noteq> TRBrack"
  by (cases v) auto

lemma run_value_or_end:
  "run (FArr acc # st) PValueOrEnd (toks v @ ts) = run (FArr acc # st) PValue (toks v @ ts)"
  using toks_hd [of v] by (auto simp: pstep_def)

lemma join_with_Cons: "join_with sep (x # xs) = x @ (if xs = [] then [] else sep @ join_with sep xs)"
  by (cases xs) auto

lemma foldr_max_le: "foldr max (map f xs) 0 \<le> (n::nat) \<longleftrightarrow> (\<forall>x\<in>set xs. f x \<le> n)"
  by (induction xs) auto

lemma foldr_max_le_pairs:
  "foldr max (map (\<lambda>(k, v). f v) ms) 0 \<le> (n::nat) \<longleftrightarrow> (\<forall>(k, v)\<in>set ms. f v \<le> n)"
  using foldr_max_le [of "\<lambda>(k, v). f v" ms n] by (simp add: case_prod_beta)

lemma run_elements:
  assumes "\<And>v acc ts. v \<in> set vs \<Longrightarrow>
      run (FArr acc # st) PValue (toks v @ ts) = run (FArr acc # st) (PAfter v) ts"
    and "vs \<noteq> []"
  shows "run (FArr acc # st) PValue (join_with [TComma] (map toks vs) @ TRBrack # ts) =
    run st (PAfter (JArr (rev acc @ vs))) ts"
  using assms
proof (induction vs arbitrary: acc)
  case (Cons v vs)
  have hd: "run (FArr acc # st) PValue (toks v @ us) = run (FArr acc # st) (PAfter v) us" for us
    using Cons.prems(1) by simp
  show ?case
  proof (cases vs)
    case Nil
    then show ?thesis by (simp add: hd pstep_def)
  next
    case (Cons w ws)
    have "run (FArr (v # acc) # st) PValue (join_with [TComma] (map toks vs) @ TRBrack # ts) =
        run st (PAfter (JArr (rev (v # acc) @ vs))) ts"
      using Cons.prems(1) Cons by (intro Cons.IH) auto
    then show ?thesis by (simp add: Cons hd pstep_def)
  qed
qed simp

lemma run_members:
  assumes "\<And>k v acc ts. (k, v) \<in> set ms \<Longrightarrow>
      run (FMem acc k # st) PValue (toks v @ ts) = run (FMem acc k # st) (PAfter v) ts"
    and "ms \<noteq> []" and "p = PKey \<or> p = PKeyOrEnd"
  shows "run (FObj acc # st) p
      (join_with [TComma] (map (\<lambda>(k, v). TStr k # TColon # toks v) ms) @ TRBrace # ts) =
    run st (PAfter (JObj (rev acc @ ms))) ts"
  using assms
proof (induction ms arbitrary: acc p)
  case (Cons m ms)
  obtain k v where m: "m = (k, v)" by (cases m)
  have hd: "run (FMem acc k # st) PValue (toks v @ us) = run (FMem acc k # st) (PAfter v) us" for us
    using Cons.prems(1) m by simp
  show ?case
  proof (cases ms)
    case Nil
    with Cons.prems(3) show ?thesis by (elim disjE) (simp_all add: m hd pstep_def begin_key_def)
  next
    case (Cons w ws)
    have "run (FObj ((k, v) # acc) # st) PKey
        (join_with [TComma] (map (\<lambda>(k, v). TStr k # TColon # toks v) ms) @ TRBrace # ts) =
        run st (PAfter (JObj (rev ((k, v) # acc) @ ms))) ts"
      using Cons.prems(1) Cons by (intro Cons.IH) auto
    with Cons.prems(3) show ?thesis by (elim disjE) (simp_all add: m Cons hd pstep_def begin_key_def)
  qed
qed simp

text \<open>The machine reads the tokens of a value, within the nesting limit, as that value.\<close>

lemma run_toks:
  "length st + nesting v \<le> max_nesting \<Longrightarrow> run st PValue (toks v @ ts) = run st (PAfter v) ts"
proof (induction v arbitrary: st ts rule: toks.induct)
  case (5 vs)
  then have push: "length st < max_nesting" by simp
  have fits: "length (FArr acc # st) + nesting v \<le> max_nesting" if "v \<in> set vs" for v acc
    using "5.prems" that foldr_max_le [of nesting vs "max_nesting - Suc (length st)"] by fastforce
  have el: "run (FArr acc # st) PValue (toks v @ us) = run (FArr acc # st) (PAfter v) us"
    if "v \<in> set vs" for v acc us
    using "5.IH" [OF that fits [OF that]] .
  have "run st PValue (toks (JArr vs) @ ts) =
      run (FArr [] # st) PValueOrEnd (join_with [TComma] (map toks vs) @ TRBrack # ts)"
    using push by (simp add: pstep_def begin_value_def push_def)
  also have "\<dots> = run st (PAfter (JArr vs)) ts"
  proof (cases vs)
    case Nil
    then show ?thesis by (simp add: pstep_def)
  next
    case (Cons w ws)
    then have "run (FArr [] # st) PValueOrEnd (join_with [TComma] (map toks vs) @ TRBrack # ts) =
        run (FArr [] # st) PValue (join_with [TComma] (map toks vs) @ TRBrack # ts)"
      by (simp only: list.map join_with_Cons append_assoc run_value_or_end)
    with Cons run_elements [of vs st "[]" ts] el show ?thesis by simp
  qed
  finally show ?case .
next
  case (6 ms)
  then have push: "length st < max_nesting" by simp
  have fits: "length (FMem acc k # st) + nesting v \<le> max_nesting" if "(k, v) \<in> set ms" for k v acc
    using "6.prems" that foldr_max_le_pairs [of nesting ms "max_nesting - Suc (length st)"] by fastforce
  have mem: "run (FMem acc k # st) PValue (toks v @ us) = run (FMem acc k # st) (PAfter v) us"
    if "(k, v) \<in> set ms" for k v acc us
    using "6.IH" [OF that refl fits [OF that]] .
  show ?case
  proof (cases "ms = []")
    case True
    with push show ?thesis by (simp add: pstep_def begin_value_def push_def)
  next
    case False
    with push show ?thesis
      using run_members [of ms st PKeyOrEnd "[]" ts] mem by (simp add: pstep_def begin_value_def push_def)
  qed
qed (simp_all add: pstep_def begin_value_def)

section \<open>Round trip\<close>

lemma nesting_norm [simp]: "nesting (norm_json v) = nesting v"
proof (induction v rule: norm_json.induct)
  case (3 ms)
  then have "map (\<lambda>m. nesting (norm_json (snd m))) ms = map (\<lambda>m. nesting (snd m)) ms" by auto
  then show ?case by (simp add: comp_def case_prod_unfold del: map_eq_conv)
qed (simp_all add: comp_def cong: map_cong)

lemma norm_utf8_ok: "utf8_ok v \<Longrightarrow> norm_json v = v"
proof (induction v rule: norm_json.induct)
  case (3 ms)
  then have "map (\<lambda>(k, v). (to_valid_utf8 k, norm_json v)) ms = ms"
    by (intro map_idI) (auto simp: list_all_iff to_valid_utf8_id)
  then show ?case by simp
qed (auto simp: to_valid_utf8_id list_all_iff intro!: map_idI)

definition printable :: "json \<Rightarrow> bool" where
  "printable v \<longleftrightarrow> nums_ok v \<and> nesting v \<le> max_nesting"

lemma first_value_print: "printable v \<Longrightarrow> first_value (print_json v) = Some (norm_json v, [])"
  using lex_print [of v "[]"] run_toks [of "[]" "norm_json v" "[]"]
  by (simp add: first_value_def printable_def)

text \<open>Parsing the printed text of a value returns the value, with ill-formed bytes replaced.\<close>

lemma parse_print: "printable v \<Longrightarrow> parse_json (print_json v) = Some (norm_json v)"
  by (simp add: parse_json_def first_value_print)

lemma parse_print_id: "printable v \<Longrightarrow> utf8_ok v \<Longrightarrow> parse_json (print_json v) = Some v"
  by (simp add: parse_print norm_utf8_ok)

end
