(* ===== verification/Json_Values.thy ===== *)
theory Json_Values
  imports Json_Roundtrip
begin

text \<open>
  The reflection half of \<^verbatim>\<open>encoding/json\<close>: how a JSON value is stored into a Go
  variable. A codec says how a Go type is marshalled, what its zero value is, and what
  decoding a value \<^emph>\<open>into\<close> a variable that already holds something does (a JSON null
  leaves a string, an integer, a boolean or a struct as it was, and clears a slice or a
  pointer). The flag is \<^verbatim>\<open>DisallowUnknownFields\<close>. Types of the
  \<^verbatim>\<open>contracts\<close> module come as codecs too, as parameters of the model.
\<close>

section \<open>Codecs\<close>

record 'a codec =
  enc :: "'a \<Rightarrow> json option"
  zero_val :: "'a"
  dec_into :: "bool \<Rightarrow> 'a \<Rightarrow> json \<Rightarrow> 'a option"

abbreviation dec :: "'a codec \<Rightarrow> json \<Rightarrow> 'a option" where
  "dec c \<equiv> dec_into c False (zero_val c)"

definition string_codec :: "string codec" where
  "string_codec = \<lparr> enc = (\<lambda>s. Some (JStr s)), zero_val = [],
     dec_into = (\<lambda>_ old j. case j of JNull \<Rightarrow> Some old | JStr s \<Rightarrow> Some s | _ \<Rightarrow> None) \<rparr>"

definition int_codec :: "i64 codec" where
  "int_codec = \<lparr> enc = (\<lambda>w. Some (JNum (show_int (sint w)))), zero_val = 0,
     dec_into = (\<lambda>_ old j. case j of JNull \<Rightarrow> Some old | JNum lit \<Rightarrow> parse_i64 lit | _ \<Rightarrow> None) \<rparr>"

definition bool_codec :: "bool codec" where
  "bool_codec = \<lparr> enc = (\<lambda>b. Some (JBool b)), zero_val = False,
     dec_into = (\<lambda>_ old j. case j of JNull \<Rightarrow> Some old | JBool b \<Rightarrow> Some b | _ \<Rightarrow> None) \<rparr>"

text \<open>
  A \<^verbatim>\<open>[]byte\<close> is written in base64, null when nil; it is read from base64 or from an
  array of numbers below 256, a null element keeping the byte the slice held there.
\<close>

fun dec_byte_elems :: "string \<Rightarrow> json list \<Rightarrow> string option" where
  "dec_byte_elems old [] = Some []"
| "dec_byte_elems old (j # js) =
     (let keep = (case old of [] \<Rightarrow> chr 0 | c # _ \<Rightarrow> c) in
      case (case j of JNull \<Rightarrow> Some keep
            | JNum lit \<Rightarrow> (if lit \<noteq> [] \<and> list_all is_digit lit \<and> read_nat lit < 256
                           then Some (chr (read_nat lit)) else None)
            | _ \<Rightarrow> None) of
        None \<Rightarrow> None
      | Some b \<Rightarrow> map_option (\<lambda>bs. b # bs) (dec_byte_elems (tl old) js))"

definition bytes_codec :: "string option codec" where
  "bytes_codec = \<lparr>
     enc = (\<lambda>b. Some (case b of None \<Rightarrow> JNull | Some bs \<Rightarrow> JStr (b64_encode bs))),
     zero_val = None,
     dec_into = (\<lambda>_ old j. case j of
        JNull \<Rightarrow> Some None
      | JStr s \<Rightarrow> map_option Some (b64_decode s)
      | JArr js \<Rightarrow> map_option Some (dec_byte_elems (case old of None \<Rightarrow> [] | Some bs \<Rightarrow> bs) js)
      | _ \<Rightarrow> None) \<rparr>"

text \<open>Slices and pointers of a type with a codec.\<close>

fun dec_elems :: "'a codec \<Rightarrow> bool \<Rightarrow> 'a list \<Rightarrow> json list \<Rightarrow> 'a list option" where
  "dec_elems c strict old [] = Some []"
| "dec_elems c strict old (j # js) =
     (case dec_into c strict (case old of [] \<Rightarrow> zero_val c | x # _ \<Rightarrow> x) j of
        None \<Rightarrow> None
      | Some v \<Rightarrow> map_option (\<lambda>vs. v # vs) (dec_elems c strict (tl old) js))"

definition slice_codec :: "'a codec \<Rightarrow> 'a slice codec" where
  "slice_codec c = \<lparr>
     enc = (\<lambda>s. case s of None \<Rightarrow> Some JNull | Some vs \<Rightarrow> map_option JArr (those (map (enc c) vs))),
     zero_val = None,
     dec_into = (\<lambda>strict old j. case j of
        JNull \<Rightarrow> Some None
      | JArr js \<Rightarrow> map_option Some (dec_elems c strict (case old of None \<Rightarrow> [] | Some vs \<Rightarrow> vs) js)
      | _ \<Rightarrow> None) \<rparr>"

definition ptr_codec :: "'a codec \<Rightarrow> 'a option codec" where
  "ptr_codec c = \<lparr>
     enc = (\<lambda>p. case p of None \<Rightarrow> Some JNull | Some v \<Rightarrow> enc c v),
     zero_val = None,
     dec_into = (\<lambda>strict old j. case j of
        JNull \<Rightarrow> Some None
      | _ \<Rightarrow> map_option Some (dec_into c strict (case old of None \<Rightarrow> zero_val c | Some v \<Rightarrow> v) j)) \<rparr>"

text \<open>
  A \<^verbatim>\<open>json.RawMessage\<close> is represented by the value its text denotes, None when it
  is nil: the decoder has validated the text, and the sources only ever unmarshal it again.
\<close>

definition raw_codec :: "json option codec" where
  "raw_codec = \<lparr> enc = (\<lambda>r. Some (case r of None \<Rightarrow> JNull | Some j \<Rightarrow> j)), zero_val = None,
     dec_into = (\<lambda>_ _ j. Some (Some j)) \<rparr>"

lemma enc_atoms [simp]:
  "enc string_codec s = Some (JStr s)" "enc int_codec w = Some (JNum (show_int (sint w)))"
  "enc bool_codec b = Some (JBool b)"
  by (simp_all add: string_codec_def int_codec_def bool_codec_def)

section \<open>Structs\<close>

text \<open>
  A key names the field with exactly that name, else the first field whose folded name is the
  folded key. Folding takes ASCII letters to upper case and the two non-ASCII letters that
  fold to ASCII ones, U+017F and U+212A, to S and K.
\<close>

definition upper_ascii :: "char \<Rightarrow> char" where
  "upper_ascii c = (if 97 \<le> byte c \<and> byte c \<le> 122 then chr (byte c - 32) else c)"

fun fold_name :: "string \<Rightarrow> string" where
  "fold_name [] = []"
| "fold_name (c # s) =
     (case s of
        d # t \<Rightarrow>
          if byte c = 0xC5 \<and> byte d = 0xBF then CHR ''S'' # fold_name t
          else (case t of
              e # u \<Rightarrow> if byte c = 0xE2 \<and> byte d = 0x84 \<and> byte e = 0xAA then CHR ''K'' # fold_name u
                       else upper_ascii c # fold_name s
            | [] \<Rightarrow> upper_ascii c # fold_name s)
      | [] \<Rightarrow> [upper_ascii c])"

type_synonym 'r setter = "bool \<Rightarrow> 'r \<Rightarrow> json \<Rightarrow> 'r option"

definition find_field :: "(string \<times> 'r setter) list \<Rightarrow> string \<Rightarrow> 'r setter option" where
  "find_field fds key =
     (case map_of fds key of
        Some f \<Rightarrow> Some f
      | None \<Rightarrow> map_of (map (\<lambda>(n, f). (fold_name n, f)) fds) (fold_name key))"

definition field :: "'a codec \<Rightarrow> ('r \<Rightarrow> 'a) \<Rightarrow> ('a \<Rightarrow> 'r \<Rightarrow> 'r) \<Rightarrow> 'r setter" where
  "field c get put strict r j = map_option (\<lambda>v. put v r) (dec_into c strict (get r) j)"

fun set_members :: "(string \<times> 'r setter) list \<Rightarrow> bool \<Rightarrow> 'r \<Rightarrow> (string \<times> json) list \<Rightarrow> 'r option" where
  "set_members fds strict r [] = Some r"
| "set_members fds strict r ((k, j) # ms) =
     (case find_field fds k of
        None \<Rightarrow> if strict then None else set_members fds strict r ms
      | Some f \<Rightarrow> (case f strict r j of None \<Rightarrow> None | Some r' \<Rightarrow> set_members fds strict r' ms))"

definition dec_struct :: "(string \<times> 'r setter) list \<Rightarrow> 'r setter" where
  "dec_struct fds strict old j =
     (case j of JNull \<Rightarrow> Some old | JObj ms \<Rightarrow> set_members fds strict old ms | _ \<Rightarrow> None)"

declare dec_struct_def [wire_simps] field_def [wire_simps] string_codec_def [wire_simps] int_codec_def [wire_simps]
  bool_codec_def [wire_simps]

section \<open>The law of a codec\<close>

text \<open>
  What the transport relies on: a value that is fit for the wire marshals to a value whose
  strings are well formed, whose numbers are JSON numbers and whose nesting is at most
  \<^term>\<open>d\<close>, and decoding that value into a zero variable, strictly or not, gives it back.
\<close>

definition wire_json :: "nat \<Rightarrow> json \<Rightarrow> bool" where
  "wire_json d j \<longleftrightarrow> nums_ok j \<and> utf8_ok j \<and> nesting j \<le> d"

lemma wire_json_printable: "wire_json d j \<Longrightarrow> d \<le> max_nesting \<Longrightarrow> printable j"
  by (simp add: wire_json_def printable_def)

lemma parse_print_wire: "wire_json d j \<Longrightarrow> d \<le> max_nesting \<Longrightarrow> parse_json (print_json j) = Some j"
  by (intro parse_print_id) (auto simp: wire_json_printable wire_json_def)

lemma first_value_wire: "wire_json d j \<Longrightarrow> d \<le> max_nesting \<Longrightarrow> first_value (print_json j) = Some (j, [])"
  using first_value_print [of j] norm_utf8_ok [of j] by (auto simp: wire_json_printable wire_json_def)

lemma wire_json_mono: "wire_json d j \<Longrightarrow> d \<le> e \<Longrightarrow> wire_json e j"
  by (auto simp: wire_json_def)

lemma wire_json_JArr: "list_all (wire_json d) js \<Longrightarrow> wire_json (Suc d) (JArr js)"
  by (auto simp: wire_json_def list_all_iff foldr_max_le)

lemma wire_json_JObj:
  "list_all (\<lambda>(k, j). valid_utf8 k \<and> wire_json d j) ms \<Longrightarrow> wire_json (Suc d) (JObj ms)"
  by (auto simp: wire_json_def list_all_iff foldr_max_le_pairs)

lemma wire_json_atoms [simp]:
  "wire_json d JNull" "wire_json d (JBool b)"
  "wire_json d (JStr s) \<longleftrightarrow> valid_utf8 s" "wire_json d (JNum lit) \<longleftrightarrow> num_ok lit"
  by (simp_all add: wire_json_def)

locale codec_law =
  fixes c :: "'a codec" and fit :: "'a \<Rightarrow> bool" and d :: nat
  assumes enc_fit: "fit v \<Longrightarrow> \<exists>j. enc c v = Some j \<and> wire_json d j"
    and dec_enc: "fit v \<Longrightarrow> enc c v = Some j \<Longrightarrow> dec_into c strict (zero_val c) j = Some v"
begin

lemma enc_obtain:
  assumes "fit v"
  obtains j where "enc c v = Some j" and "wire_json d j"
    and "\<And>strict. dec_into c strict (zero_val c) j = Some v"
  using enc_fit [OF assms] dec_enc [OF assms] by blast

lemma encs_obtain:
  assumes "list_all fit vs"
  shows "\<exists>js. those (map (enc c) vs) = Some js \<and> list_all (wire_json d) js
    \<and> (\<forall>strict. dec_elems c strict [] js = Some vs)"
  using assms
proof (induction vs)
  case (Cons v vs)
  then obtain js where "those (map (enc c) vs) = Some js" and "list_all (wire_json d) js"
    and "\<And>strict. dec_elems c strict [] js = Some vs" by auto
  moreover obtain j where "enc c v = Some j" and "wire_json d j"
    and "\<And>strict. dec_into c strict (zero_val c) j = Some v"
    using Cons.prems enc_obtain [of v] by auto
  ultimately show ?case by auto
qed simp

text \<open>A slice of such values obeys the law one level deeper, the nil slice included.\<close>

lemma slice_law: "codec_law (slice_codec c) (\<lambda>s. case s of None \<Rightarrow> True | Some vs \<Rightarrow> list_all fit vs) (Suc d)"
proof
  fix v :: "'a slice" and j strict
  assume "case v of None \<Rightarrow> True | Some vs \<Rightarrow> list_all fit vs"
  then consider "v = None" | vs js where "v = Some vs" "those (map (enc c) vs) = Some js"
      "list_all (wire_json d) js" "\<And>strict. dec_elems c strict [] js = Some vs"
    by (cases v) (auto dest: encs_obtain)
  note cases = this
  from cases show "\<exists>j. enc (slice_codec c) v = Some j \<and> wire_json (Suc d) j"
    by cases (auto simp: slice_codec_def wire_json_JArr)
  from cases show "dec_into (slice_codec c) strict (zero_val (slice_codec c)) j = Some v"
    if "enc (slice_codec c) v = Some j"
    using that by cases (auto simp: slice_codec_def)
qed

end

interpretation string_law: codec_law string_codec valid_utf8 0
  by unfold_locales (auto simp: string_codec_def)

interpretation int_law: codec_law int_codec "\<lambda>_. True" 0
  by unfold_locales (auto simp: int_codec_def)

interpretation bool_law: codec_law bool_codec "\<lambda>_. True" 0
  by unfold_locales (auto simp: bool_codec_def)

interpretation bytes_law: codec_law bytes_codec "\<lambda>_. True" 0
proof unfold_locales
  fix v :: "string option" and j strict
  have "valid_utf8 (b64_encode bs)" for bs
    using b64_encode_ascii by (intro valid_utf8_ascii) (auto simp: list_all_iff)
  then show "\<exists>j. enc bytes_codec v = Some j \<and> wire_json 0 j"
    by (auto simp: bytes_codec_def split: option.splits)
  show "dec_into bytes_codec strict (zero_val bytes_codec) j = Some v" if "enc bytes_codec v = Some j"
    using that by (auto simp: bytes_codec_def split: option.splits)
qed

end
