(* ===== verification/Errors.thy ===== *)
theory Errors
  imports Json_Values
begin

text \<open>
  The errors of \<^verbatim>\<open>errors.go\<close> as values. \<^verbatim>\<open>fmt.Errorf\<close> with
  \<^verbatim>\<open>%w\<close> verbs is \<^verbatim>\<open>Errorf\<close>: the formatted text together with the wrapped
  errors, which is all that \<^verbatim>\<open>errors.Is\<close> and \<^verbatim>\<open>errors.As\<close> look at.
  \<^verbatim>\<open>contracts.BudgetError\<close> is a type parameter; an error of any other origin is
  \<^verbatim>\<open>OpaqueError\<close> with its text. The wording of the messages of
  \<^verbatim>\<open>encoding/json\<close> is not modelled: one text stands for each class of them.
\<close>

section \<open>Error values\<close>

datatype sentinel =
    ErrInvalidFrame | ErrTLSNotConfigured | ErrPortRegistered | ErrPluginServiceRegistered
  | ErrNilHook | ErrNoAnnounceKey | ErrWeakAnnounceKey | ErrUnauthenticatedAnnouncement
  | ErrStaleAnnouncement | ErrOversizedAnnouncement | ErrMalformedAnnouncement
  | ErrUnusableAnnouncement | ErrAddrRefused | ErrBackendStreamNotResponder
  | IoEOF | IoUnexpectedEOF

datatype json_error = SyntaxError | DecodeError | MarshalError

datatype 'b go_error =
    Sentinel sentinel
  | UnknownPortError string
  | UnknownMethodError string string
  | ArgCountError nat nat
  | PlaintextDialError string
  | TLSHalfConfiguredError "string list"
  | CAFileError string
  | RemoteError string
  | BudgetError 'b
  | JsonError json_error
  | Errorf string "'b go_error list"
  | OpaqueError string

type_synonym ('b, 'a) result = "'b go_error + 'a"

text \<open>
  What the error texts need from outside the repository: the text and the JSON form of a
  budget error (the \<^verbatim>\<open>contracts\<close> module), and the tables of
  \<^verbatim>\<open>unicode.IsPrint\<close> beyond ASCII, which \<^verbatim>\<open>%q\<close> consults.
\<close>

record 'b runtime =
  budget_text :: "'b \<Rightarrow> string"
  budget_codec :: "'b codec"
  is_print :: "nat \<Rightarrow> bool"

section \<open>Quoted strings\<close>

text \<open>\<^verbatim>\<open>strconv.Quote\<close>, the form of the verb \<^verbatim>\<open>%q\<close>.\<close>

definition utf8_rune :: "string \<Rightarrow> nat" where
  "utf8_rune q =
     (case map byte q of
        [a] \<Rightarrow> a
      | [a, b] \<Rightarrow> (a mod 32) * 64 + b mod 64
      | [a, b, c] \<Rightarrow> (a mod 16) * 4096 + (b mod 64) * 64 + c mod 64
      | [a, b, c, d] \<Rightarrow> (a mod 8) * 262144 + (b mod 64) * 4096 + (c mod 64) * 64 + d mod 64
      | _ \<Rightarrow> 0xFFFD)"

fun hex_digits :: "nat \<Rightarrow> nat \<Rightarrow> string" where
  "hex_digits 0 r = []"
| "hex_digits (Suc n) r = hex_digits n (r div 16) @ [hex_char (r mod 16)]"

definition quote_ascii :: "char \<Rightarrow> string" where
  "quote_ascii c =
     (if c = DQ \<or> c = BSL then [BSL, c]
      else if 0x20 \<le> byte c \<and> byte c < 0x7F then [c]
      else if byte c = 7 then [BSL, CHR ''a'']
      else if byte c = 8 then [BSL, CHR ''b'']
      else if byte c = 12 then [BSL, CHR ''f'']
      else if byte c = 10 then [BSL, CHR ''n'']
      else if byte c = 13 then [BSL, CHR ''r'']
      else if byte c = 9 then [BSL, CHR ''t'']
      else if byte c = 11 then [BSL, CHR ''v'']
      else [BSL, CHR ''x''] @ hex_digits 2 (byte c))"

definition quote_rune :: "(nat \<Rightarrow> bool) \<Rightarrow> string \<Rightarrow> string" where
  "quote_rune printable_rune q =
     (let r = utf8_rune q in
      if printable_rune r then q
      else if r < 0x10000 then [BSL, CHR ''u''] @ hex_digits 4 r
      else [BSL, CHR ''U''] @ hex_digits 8 r)"

function quote_runes :: "(nat \<Rightarrow> bool) \<Rightarrow> string \<Rightarrow> string" where
  "quote_runes p s =
     (if s = [] then []
      else if utf8_size s = 0 then [BSL, CHR ''x''] @ hex_digits 2 (byte (hd s)) @ quote_runes p (drop 1 s)
      else if utf8_size s = 1 then quote_ascii (hd s) @ quote_runes p (drop 1 s)
      else quote_rune p (take (utf8_size s) s) @ quote_runes p (drop (utf8_size s) s))"
  by pat_completeness auto
termination
  by (relation "measure (\<lambda>(p, s). length s)") auto

declare quote_runes.simps [simp del]

definition go_quote :: "'b runtime \<Rightarrow> string \<Rightarrow> string" where
  "go_quote rt s = DQ # quote_runes (is_print rt) s @ [DQ]"

section \<open>Texts\<close>

definition EnvTLSCA :: string where "EnvTLSCA = ''HERRSCHER_TLS_CA''"
definition EnvTLSCert :: string where "EnvTLSCert = ''HERRSCHER_TLS_CERT''"
definition EnvTLSKey :: string where "EnvTLSKey = ''HERRSCHER_TLS_KEY''"

fun sentinel_text :: "sentinel \<Rightarrow> string" where
  "sentinel_text ErrInvalidFrame = ''transport: invalid frame (neither event nor done)''"
| "sentinel_text ErrTLSNotConfigured = ''transport: TLS not configured''"
| "sentinel_text ErrPortRegistered = ''transport: port already registered''"
| "sentinel_text ErrPluginServiceRegistered = ''transport: Plugin service already registered on this server''"
| "sentinel_text ErrNilHook = ''transport: nil announcement hook''"
| "sentinel_text ErrNoAnnounceKey = ''transport: no announce key''"
| "sentinel_text ErrWeakAnnounceKey = ''transport: announce key shorter than 32 bytes or all zero''"
| "sentinel_text ErrUnauthenticatedAnnouncement = ''transport: announcement failed authentication''"
| "sentinel_text ErrStaleAnnouncement = ''transport: announcement outside the freshness window''"
| "sentinel_text ErrOversizedAnnouncement = ''transport: announcement exceeds the size bound''"
| "sentinel_text ErrMalformedAnnouncement = ''transport: malformed announcement''"
| "sentinel_text ErrUnusableAnnouncement = ''transport: announcement lacks an instance id, a category or a host:port address''"
| "sentinel_text ErrAddrRefused = ''transport: announced address refused by the allowlist''"
| "sentinel_text ErrBackendStreamNotResponder = ''backend stream: server does not respond''"
| "sentinel_text IoEOF = ''EOF''"
| "sentinel_text IoUnexpectedEOF = ''unexpected EOF''"

fun json_error_text :: "json_error \<Rightarrow> string" where
  "json_error_text SyntaxError = ''json: invalid text''"
| "json_error_text DecodeError = ''json: cannot unmarshal value''"
| "json_error_text MarshalError = ''json: cannot marshal value''"

fun error_text :: "'b runtime \<Rightarrow> 'b go_error \<Rightarrow> string" where
  "error_text rt (Sentinel x) = sentinel_text x"
| "error_text rt (UnknownPortError port) = ''transport: unknown port '' @ go_quote rt port"
| "error_text rt (UnknownMethodError service method) =
     ''transport: unknown method '' @ service @ ''.'' @ method"
| "error_text rt (ArgCountError want got) =
     ''transport: expected '' @ show_nat want @ '' args, got '' @ show_nat got"
| "error_text rt (PlaintextDialError addr) =
     ''transport: refusing plaintext dial to non-loopback address '' @ go_quote rt addr
     @ ''; configure TLS for remote plugins''"
| "error_text rt (TLSHalfConfiguredError missing) =
     ''transport: TLS half-configured: '' @ join_with '', '' missing @ '' missing (set '' @ EnvTLSCA
     @ '', '' @ EnvTLSCert @ '' and '' @ EnvTLSKey @ '' together, or none for loopback plaintext)''"
| "error_text rt (CAFileError file) = ''transport: CA '' @ go_quote rt file @ '' held no usable certificate''"
| "error_text rt (RemoteError message) = message"
| "error_text rt (BudgetError b) = budget_text rt b"
| "error_text rt (JsonError e) = json_error_text e"
| "error_text rt (Errorf msg causes) = msg"
| "error_text rt (OpaqueError msg) = msg"

text \<open>\<^verbatim>\<open>fmt.Errorf("prefix: %w", err)\<close>.\<close>

definition wrap :: "'b runtime \<Rightarrow> string \<Rightarrow> 'b go_error \<Rightarrow> 'b go_error" where
  "wrap rt msg e = Errorf (msg @ '': '' @ error_text rt e) [e]"

section \<open>The error tree\<close>

text \<open>\<^verbatim>\<open>errors.Is\<close> and \<^verbatim>\<open>errors.As\<close> walk the tree in pre-order.\<close>

fun errors_is :: "sentinel \<Rightarrow> 'b go_error \<Rightarrow> bool" where
  "errors_is t (Sentinel x) = (x = t)"
| "errors_is t (Errorf msg causes) = list_ex (errors_is t) causes"
| "errors_is t _ = False"

fun first_some :: "'a option list \<Rightarrow> 'a option" where
  "first_some [] = None"
| "first_some (Some x # xs) = Some x"
| "first_some (None # xs) = first_some xs"

fun as_budget :: "'b go_error \<Rightarrow> 'b option" where
  "as_budget (BudgetError b) = Some b"
| "as_budget (Errorf msg causes) = first_some (map as_budget causes)"
| "as_budget _ = None"

lemma errors_is_wrap [simp]: "errors_is t (wrap rt msg e) = errors_is t e"
  by (simp add: wrap_def)

lemma as_budget_wrap [simp]: "as_budget (wrap rt msg e) = as_budget e"
  by (cases "as_budget e") (simp_all add: wrap_def)

section \<open>Notices\<close>

text \<open>
  The \<^verbatim>\<open>Notice\<close> methods build a message code of the \<^verbatim>\<open>contracts\<close> module
  with named text arguments.
\<close>

datatype notice_code = CodeAddressPlaintextRefused | CodeUnexpected | CodeSettingMissing | CodeSettingInvalid

record notice =
  code :: notice_code
  args :: "(string \<times> string) list"

definition plaintext_notice :: "string \<Rightarrow> notice" where
  "plaintext_notice addr = \<lparr> code = CodeAddressPlaintextRefused, args = [(''Address'', addr)] \<rparr>"

definition half_configured_notice :: "'b runtime \<Rightarrow> string list \<Rightarrow> notice" where
  "half_configured_notice rt missing =
     (if missing = []
      then \<lparr> code = CodeUnexpected,
             args = [(''Detail'', error_text rt (TLSHalfConfiguredError missing :: 'b go_error))] \<rparr>
      else \<lparr> code = CodeSettingMissing, args = [(''Settings'', join_with '', '' missing)] \<rparr>)"

definition ca_file_notice :: "string \<Rightarrow> notice" where
  "ca_file_notice file = \<lparr> code = CodeSettingInvalid, args = [(''Setting'', EnvTLSCA), (''Value'', file)] \<rparr>"

end
