(* ===== verification/Codec.thy ===== *)
theory Codec
  imports Errors
begin

text \<open>
  \<^verbatim>\<open>codec.go\<close>: marshalling, and the argument tuples that ride inside an envelope.
  The destinations of \<^verbatim>\<open>decodeArgs\<close> are pointers into one variable of the caller,
  so each is a function that decodes a value into that variable.
\<close>

section \<open>Marshalling\<close>

definition Marshal :: "'a codec \<Rightarrow> 'a \<Rightarrow> ('b, string) result" where
  "Marshal c v = (case enc c v of None \<Rightarrow> Inl (JsonError MarshalError) | Some j \<Rightarrow> Inr (print_json j))"

definition Unmarshal :: "string \<Rightarrow> 'a codec \<Rightarrow> 'a \<Rightarrow> ('b, 'a) result" where
  "Unmarshal data c old =
     (case parse_json data of
        None \<Rightarrow> Inl (JsonError SyntaxError)
      | Some j \<Rightarrow> (case dec_into c False old j of None \<Rightarrow> Inl (JsonError DecodeError) | Some v \<Rightarrow> Inr v))"

section \<open>Argument tuples\<close>

text \<open>A variadic call with no argument passes a nil slice, which marshals to null.\<close>

definition encodeArgs :: "json option list \<Rightarrow> ('b, string) result" where
  "encodeArgs vals =
     (case (if vals = [] then Some JNull else map_option JArr (those vals)) of
        None \<Rightarrow> Inl (JsonError MarshalError)
      | Some j \<Rightarrow> Inr (print_json j))"

type_synonym 'r dest = "'r \<Rightarrow> json \<Rightarrow> 'r option"

definition dest :: "'a codec \<Rightarrow> ('r \<Rightarrow> 'a) \<Rightarrow> ('a \<Rightarrow> 'r \<Rightarrow> 'r) \<Rightarrow> 'r dest" where
  "dest c get put = field c get put False"

abbreviation whole :: "'a codec \<Rightarrow> 'a dest" where
  "whole c \<equiv> dest c (\<lambda>r. r) (\<lambda>v r. v)"

definition decode_raws :: "string \<Rightarrow> ('b, json list) result" where
  "decode_raws data =
     (case parse_json data of
        None \<Rightarrow> Inl (JsonError SyntaxError)
      | Some JNull \<Rightarrow> Inr []
      | Some (JArr raw) \<Rightarrow> Inr raw
      | Some _ \<Rightarrow> Inl (JsonError DecodeError))"

fun decode_each :: "'b runtime \<Rightarrow> nat \<Rightarrow> 'r dest list \<Rightarrow> json list \<Rightarrow> 'r \<Rightarrow> ('b, 'r) result" where
  "decode_each rt index (d # ds) (raw # raws) r =
     (case d r raw of
        None \<Rightarrow> Inl (wrap rt (''transport: decode arg '' @ show_nat index) (JsonError DecodeError))
      | Some r' \<Rightarrow> decode_each rt (Suc index) ds raws r')"
| "decode_each rt index _ _ r = Inr r"

definition decodeArgs :: "'b runtime \<Rightarrow> string \<Rightarrow> 'r dest list \<Rightarrow> 'r \<Rightarrow> ('b, 'r) result" where
  "decodeArgs rt data dst r =
     (case decode_raws data of
        Inl e \<Rightarrow> Inl (wrap rt ''transport: decode args'' e)
      | Inr raw \<Rightarrow>
          if length raw \<noteq> length dst then Inl (ArgCountError (length dst) (length raw))
          else decode_each rt 0 dst raw r)"

section \<open>Lemmas\<close>

lemma those_Cons_Some [simp]: "those (Some x # xs) = map_option (\<lambda>ys. x # ys) (those xs)"
  by (simp split: option.split)

lemma encodeArgs_JArr:
  "vals \<noteq> [] \<Longrightarrow> those vals = Some js \<Longrightarrow> encodeArgs vals = Inr (print_json (JArr js))"
  by (simp add: encodeArgs_def)

text \<open>On the text of an encoded tuple, decoding starts from the values that were encoded.\<close>

lemma decodeArgs_JArr:
  assumes "list_all (wire_json d) js" and "d < max_nesting"
  shows "decodeArgs rt (print_json (JArr js)) dst r =
    (if length js \<noteq> length dst then Inl (ArgCountError (length dst) (length js))
     else decode_each rt 0 dst js r)"
proof -
  have "parse_json (print_json (JArr js)) = Some (JArr js)"
    using wire_json_JArr [OF assms(1)] assms(2) by (intro parse_print_wire [of "Suc d"]) simp_all
  then show ?thesis by (simp add: decodeArgs_def decode_raws_def)
qed

lemma parse_json_Nil [simp]: "parse_json [] = None"
  by (simp add: parse_json_def first_value_def run.simps)

lemma decodeArgs_Nil: "\<exists>e. decodeArgs rt [] dst r = Inl e"
  by (simp add: decodeArgs_def decode_raws_def)

text \<open>
  A codec whose values can sit in a tuple, and in a slice inside a tuple, without meeting the
  nesting limit. This is what the transport asks of the types of the \<^verbatim>\<open>contracts\<close>
  module.
\<close>

definition wire_codec :: "'a codec \<Rightarrow> ('a \<Rightarrow> bool) \<Rightarrow> bool" where
  "wire_codec c fit \<longleftrightarrow> (\<exists>d. Suc d < max_nesting \<and> codec_law c fit d)"

context codec_law
begin

lemma unmarshal_marshal:
  assumes "fit v" and "d \<le> max_nesting" and "Marshal c v = Inr p"
  shows "Unmarshal p c (zero_val c) = Inr v"
proof -
  obtain j where j: "enc c v = Some j" "wire_json d j" "\<And>strict. dec_into c strict (zero_val c) j = Some v"
    using enc_obtain [OF assms(1)] by blast
  then have "p = print_json j" using assms(3) by (simp add: Marshal_def)
  then show ?thesis using j parse_print_wire [OF j(2) assms(2)] by (simp add: Unmarshal_def)
qed

lemma args_single:
  fixes rt :: "'e runtime"
  assumes "fit v" and "d < max_nesting"
  shows "\<exists>p. encodeArgs [enc c v] = (Inr p :: ('e, string) result)
    \<and> decodeArgs rt p [whole c] (zero_val c) = Inr v"
proof -
  obtain j where j: "enc c v = Some j" "wire_json d j" "\<And>strict. dec_into c strict (zero_val c) j = Some v"
    using enc_obtain [OF assms(1)] by blast
  then show ?thesis
    using decodeArgs_JArr [of d "[j]" rt "[whole c]"] assms(2)
    by (simp add: encodeArgs_def dest_def field_def)
qed

end

lemma wire_codec_obtain:
  assumes "wire_codec c fit" and "fit v"
  obtains j d where "enc c v = Some j" and "wire_json d j" and "Suc d < max_nesting"
    and "\<And>strict. dec_into c strict (zero_val c) j = Some v"
proof -
  obtain d where d: "Suc d < max_nesting" and law: "codec_law c fit d"
    using assms(1) by (auto simp: wire_codec_def)
  show ?thesis
    by (rule codec_law.enc_obtain [OF law assms(2)]) (rule that [OF _ _ d])
qed

text \<open>One value, encoded as a tuple and decoded from it.\<close>

lemma wire_args_single:
  fixes rt :: "'e runtime"
  assumes "wire_codec c fit" and "fit v"
  obtains p where "encodeArgs [enc c v] = (Inr p :: ('e, string) result)"
    and "decodeArgs rt p [whole c] (zero_val c) = Inr v"
proof -
  obtain d where d: "Suc d < max_nesting" and law: "codec_law c fit d"
    using assms(1) by (auto simp: wire_codec_def)
  from codec_law.args_single [OF law assms(2) Suc_lessD [OF d], of rt] show ?thesis using that by auto
qed

lemma wire_args_slice:
  fixes rt :: "'e runtime"
  assumes "wire_codec c fit" and "\<And>vs. s = Some vs \<Longrightarrow> list_all fit vs"
  obtains p where "encodeArgs [enc (slice_codec c) s] = (Inr p :: ('e, string) result)"
    and "decodeArgs rt p [whole (slice_codec c)] None = Inr s"
proof -
  obtain d where d: "Suc d < max_nesting" and law: "codec_law c fit d"
    using assms(1) by (auto simp: wire_codec_def)
  have zero: "zero_val (slice_codec c) = None" by (simp add: slice_codec_def)
  have "case s of None \<Rightarrow> True | Some vs \<Rightarrow> list_all fit vs"
    using assms(2) by (simp split: option.split)
  from codec_law.args_single [OF codec_law.slice_law [OF law] this d, of rt] show ?thesis
    using that by (auto simp: zero)
qed

text \<open>Atoms (strings and integers), encoded as a tuple and decoded field by field.\<close>

lemma those_map_Some [simp]: "those (map Some xs) = Some xs"
  by (induction xs) simp_all

lemma wire_args_atoms:
  fixes rt :: "'e runtime"
  assumes "js \<noteq> []" and "list_all (wire_json 0) js" and "length dst = length js"
  shows "\<exists>p. encodeArgs (map Some js) = (Inr p :: ('e, string) result) \<and> decodeArgs rt p dst r = decode_each rt 0 dst js r"
  using assms decodeArgs_JArr [of 0 js rt dst r]
  by (simp add: encodeArgs_def max_nesting_def)

lemma string_dest [simp]: "dest string_codec get put r (JStr s) = Some (put s r)"
  by (simp add: dest_def field_def string_codec_def)

lemma int_dest [simp]: "dest int_codec get put r (JNum (show_int (sint w))) = Some (put w r)"
  by (simp add: dest_def field_def int_codec_def)

lemma wire_codec_string: "wire_codec string_codec valid_utf8"
  unfolding wire_codec_def using string_law.codec_law_axioms by (intro exI [of _ 0]) (simp add: max_nesting_def)

section \<open>A concrete runtime\<close>

text \<open>A runtime whose budget errors are strings, for evaluating the model on examples.\<close>

definition sample_runtime :: "string runtime" where
  "sample_runtime = \<lparr> budget_text = (\<lambda>b. ''budget exceeded: '' @ b), budget_codec = string_codec,
     is_print = (\<lambda>_. False) \<rparr>"

lemma sample_runtime_simps [simp]:
  "budget_codec sample_runtime = string_codec" "budget_text sample_runtime b = ''budget exceeded: '' @ b"
  by (simp_all add: sample_runtime_def)

section \<open>Properties\<close>



end
