(* ===== verification/Wire_Error.thy ===== *)
theory Wire_Error
  imports Codec
begin

text \<open>
  \<^verbatim>\<open>wire_error.go\<close>: how an error crosses the wire. A budget error anywhere in the
  error tree is carried in typed form beside the text; every other error arrives as its text.
\<close>

definition wireErrorKindBudget :: string where
  "wireErrorKindBudget = ''budget''"

record wireError =
  Kind :: string
  Data :: "json option"

definition wireError_codec :: "wireError codec" where
  "wireError_codec = \<lparr>
     enc = (\<lambda>w. Some (JObj ((''kind'', JStr (Kind w)) #
              (case Data w of None \<Rightarrow> [] | Some j \<Rightarrow> [(''data'', j)])))),
     zero_val = \<lparr> Kind = [], Data = None \<rparr>,
     dec_into = dec_struct
       [(''kind'', field string_codec Kind (\<lambda>v w. w\<lparr>Kind := v\<rparr>)),
        (''data'', field raw_codec Data (\<lambda>v w. w\<lparr>Data := v\<rparr>))] \<rparr>"

definition encodeWireError :: "'b runtime \<Rightarrow> 'b go_error \<Rightarrow> string" where
  "encodeWireError rt err =
     (case as_budget err of
        None \<Rightarrow> []
      | Some budget \<Rightarrow>
        (case enc (budget_codec rt) budget of
           None \<Rightarrow> []
         | Some data \<Rightarrow>
           (case Marshal wireError_codec \<lparr> Kind = wireErrorKindBudget, Data = Some data \<rparr> :: ('b, string) result of
              Inl e \<Rightarrow> []
            | Inr payload \<Rightarrow> payload)))"

definition decodeWireError :: "'b runtime \<Rightarrow> string \<Rightarrow> string \<Rightarrow> 'b go_error" where
  "decodeWireError rt payload message =
     (if payload = [] then RemoteError message
      else
        (case Unmarshal payload wireError_codec (zero_val wireError_codec) :: ('b, wireError) result of
           Inl e \<Rightarrow> RemoteError message
         | Inr wire \<Rightarrow>
             if Kind wire = wireErrorKindBudget then
               (case Data wire of
                  None \<Rightarrow> RemoteError message
                | Some data \<Rightarrow>
                  (case dec (budget_codec rt) data of
                     Some budget \<Rightarrow> BudgetError budget
                   | None \<Rightarrow> RemoteError message))
             else RemoteError message))"

text \<open>The error that the far side of the wire sees for an error of this side.\<close>

definition over_wire :: "'b runtime \<Rightarrow> 'b go_error \<Rightarrow> 'b go_error" where
  "over_wire rt err = (case as_budget err of Some b \<Rightarrow> BudgetError b | None \<Rightarrow> RemoteError (error_text rt err))"

section \<open>Lemmas\<close>

lemma wire_fields [simp]:
  "find_field [(''kind'', f), (''data'', g)] ''kind'' = Some f"
  "find_field [(''kind'', f), (''data'', g)] ''data'' = Some g"
  by (simp_all add: find_field_def)

lemma wireError_roundtrip:
  assumes "valid_utf8 k" and "wire_json d j" and "d < max_nesting"
  shows "Unmarshal (print_json (JObj [(''kind'', JStr k), (''data'', j)])) wireError_codec (zero_val wireError_codec)
    = Inr \<lparr> Kind = k, Data = Some j \<rparr>"
proof -
  have "wire_json (Suc d) (JObj [(''kind'', JStr k), (''data'', j)])"
    using assms by (intro wire_json_JObj) (simp add: valid_utf8_ascii)
  then have "parse_json (print_json (JObj [(''kind'', JStr k), (''data'', j)])) =
      Some (JObj [(''kind'', JStr k), (''data'', j)])"
    using assms(3) by (intro parse_print_wire [of "Suc d"]) simp_all
  then show ?thesis
    by (simp add: Unmarshal_def wireError_codec_def wire_simps raw_codec_def)
qed

lemma print_json_nonempty: "printable j \<Longrightarrow> print_json j \<noteq> []"
  using parse_print [of j] by auto

text \<open>
  The contract of the error wire: what the far side decodes is \<^term>\<open>over_wire rt err\<close>.
\<close>

lemma decode_encode_wire_error:
  fixes rt :: "'b runtime"
  assumes "wire_codec (budget_codec rt) fit" and "\<And>b. as_budget err = Some b \<Longrightarrow> fit b"
  shows "decodeWireError rt (encodeWireError rt err) (error_text rt err) = over_wire rt err"
proof (cases "as_budget err")
  case None
  then show ?thesis by (simp add: encodeWireError_def decodeWireError_def over_wire_def)
next
  case (Some b)
  obtain j d where j: "enc (budget_codec rt) b = Some j" "wire_json d j" "Suc d < max_nesting"
    and dec: "dec (budget_codec rt) j = Some b"
    using wire_codec_obtain [OF assms(1) assms(2) [OF Some]] by metis
  define p where "p = print_json (JObj [(''kind'', JStr wireErrorKindBudget), (''data'', j)])"
  have enc: "encodeWireError rt err = p"
    by (simp add: encodeWireError_def Some j(1) Marshal_def wireError_codec_def p_def)
  have "valid_utf8 wireErrorKindBudget" by (simp add: wireErrorKindBudget_def valid_utf8_ascii)
  then have "Unmarshal p wireError_codec (zero_val wireError_codec) =
      (Inr \<lparr> Kind = wireErrorKindBudget, Data = Some j \<rparr> :: ('b, wireError) result)"
    unfolding p_def using j(2) Suc_lessD [OF j(3)] by (rule wireError_roundtrip)
  moreover from this have "p \<noteq> []" by (auto simp: Unmarshal_def)
  ultimately show ?thesis
    by (simp add: enc decodeWireError_def dec over_wire_def Some)
qed

lemma as_budget_over_wire [simp]: "as_budget (over_wire rt err) = as_budget err"
  by (simp add: over_wire_def split: option.split)

section \<open>Properties\<close>

text \<open>
  C13: an error that crosses the wire keeps what the host reads from it: when a budget error is
  anywhere in the tree of wrapped errors, the first one arrives as a typed budget error with its
  data, so the host's test for it succeeds on both sides alike; any other error arrives as an
  error with the same text.
\<close>

theorem wire_error_keeps_budget:
  fixes rt :: "'b runtime"
  assumes "wire_codec (budget_codec rt) fit" and "\<And>b. as_budget err = Some b \<Longrightarrow> fit b"
  shows "decodeWireError rt (encodeWireError rt err) (error_text rt err) =
      (case as_budget err of Some b \<Rightarrow> BudgetError b | None \<Rightarrow> RemoteError (error_text rt err))
    \<and> as_budget (decodeWireError rt (encodeWireError rt err) (error_text rt err)) = as_budget err"
  using decode_encode_wire_error [OF assms] as_budget_over_wire [of rt err] by (simp add: over_wire_def)

theorem wire_error_keeps_budget_witness:
  "decodeWireError sample_runtime
      (encodeWireError sample_runtime (wrap sample_runtime ''turn'' (Errorf ''two'' [OpaqueError ''x'', BudgetError ''tokens''])))
      ''turn: two'' = BudgetError ''tokens''"
proof -
  let ?err = "wrap sample_runtime ''turn'' (Errorf ''two'' [OpaqueError ''x'', BudgetError ''tokens''])"
  have "wire_codec (budget_codec sample_runtime) valid_utf8" by (simp add: wire_codec_string)
  moreover have "valid_utf8 b" if "as_budget ?err = Some b" for b
    using that by (auto simp: valid_utf8_ascii)
  ultimately show ?thesis
    using wire_error_keeps_budget [of sample_runtime valid_utf8 ?err] by (simp add: wrap_def)
qed

text \<open>
  Whatever bytes a peer sends beside an error text, decoding returns: either the remote error
  with exactly that text, or a budget error that the payload holds under the budget kind.
\<close>

theorem wire_error_decoding_total:
  fixes rt :: "'b runtime"
  shows "decodeWireError rt payload message = RemoteError message
   \<or> (\<exists>b w j. decodeWireError rt payload message = BudgetError b
        \<and> Unmarshal payload wireError_codec (zero_val wireError_codec) = (Inr w :: ('b, wireError) result)
        \<and> Kind w = ''budget'' \<and> Data w = Some j \<and> dec (budget_codec rt) j = Some b)"
  by (auto simp: decodeWireError_def wireErrorKindBudget_def split: sum.splits option.splits)

end
