(* ===== verification/Proto.thy ===== *)
theory Proto
  imports Wire_Error
begin

text \<open>
  The generated wire types of \<^verbatim>\<open>proto/\<close>: the two envelopes with their nil-safe
  getters, the generic \<^verbatim>\<open>Plugin\<close> service (client stub, server handler, the
  default server), and \<^verbatim>\<open>fail\<close> of \<^verbatim>\<open>memory_skeleton.go\<close>, the
  in-band failure every skeleton answers with.

  The state type \<^typ>\<open>'s\<close> is whatever the objects behind the service keep; a server
  method takes it and returns it. What gRPC does between the two ends is a parameter.
\<close>

section \<open>Envelopes\<close>

record method_envelope =
  Port :: string
  Method :: string
  JsonPayload :: string

record result_envelope =
  ResPayload :: string
  ResError :: string

definition GetPort :: "method_envelope option \<Rightarrow> string" where
  "GetPort x = (case x of Some e \<Rightarrow> Port e | None \<Rightarrow> [])"

definition GetMethod :: "method_envelope option \<Rightarrow> string" where
  "GetMethod x = (case x of Some e \<Rightarrow> Method e | None \<Rightarrow> [])"

definition GetJsonPayload :: "method_envelope option \<Rightarrow> string" where
  "GetJsonPayload x = (case x of Some e \<Rightarrow> JsonPayload e | None \<Rightarrow> [])"

definition GetResPayload :: "result_envelope option \<Rightarrow> string" where
  "GetResPayload x = (case x of Some e \<Rightarrow> ResPayload e | None \<Rightarrow> [])"

definition GetResError :: "result_envelope option \<Rightarrow> string" where
  "GetResError x = (case x of Some e \<Rightarrow> ResError e | None \<Rightarrow> [])"

section \<open>The Plugin service\<close>

type_synonym ('s, 'b) plugin_server = "'s \<Rightarrow> method_envelope \<Rightarrow> 's \<times> ('b, result_envelope) result"

definition Plugin_Call_FullMethodName :: string where
  "Plugin_Call_FullMethodName = ''/herrscher.transport.v1.Plugin/Call''"

text \<open>The client stub over \<^verbatim>\<open>ClientConnInterface.Invoke\<close>, a parameter.\<close>

definition pluginClient_Call ::
  "('s \<Rightarrow> string \<Rightarrow> method_envelope \<Rightarrow> 's \<times> ('b, result_envelope) result) \<Rightarrow> ('s, 'b) plugin_server" where
  "pluginClient_Call invoke s envelope =
     (case invoke s Plugin_Call_FullMethodName envelope of
        (s', Inl err) \<Rightarrow> (s', Inl err)
      | (s', Inr out) \<Rightarrow> (s', Inr out))"

definition UnimplementedPluginServer_Call :: "('s, 'b) plugin_server" where
  "UnimplementedPluginServer_Call s envelope =
     (s, Inl (OpaqueError ''rpc error: code = Unimplemented desc = method Call not implemented''))"

text \<open>
  The server-side handler: decode the request, then call the server, through the interceptor
  when there is one.
\<close>

definition Plugin_Call_Handler ::
  "('s, 'b) plugin_server \<Rightarrow> ('b, method_envelope) result
   \<Rightarrow> (string \<Rightarrow> ('s, 'b) plugin_server \<Rightarrow> ('s, 'b) plugin_server) option \<Rightarrow> 's
   \<Rightarrow> 's \<times> ('b, result_envelope) result" where
  "Plugin_Call_Handler srv decoded interceptor s =
     (case decoded of
        Inl err \<Rightarrow> (s, Inl err)
      | Inr request \<Rightarrow>
        (case interceptor of
           None \<Rightarrow> srv s request
         | Some f \<Rightarrow> f Plugin_Call_FullMethodName srv s request))"

section \<open>Service descriptors\<close>

text \<open>
  A \<^verbatim>\<open>grpc.ServiceDesc\<close>: the handlers of a service under the names of its methods and
  streams. A call names a method by the service and the method, each after a slash; gRPC finds the
  handler of the registered service by that name and answers that it is unimplemented otherwise.
\<close>

record ('u, 'st) service_desc =
  ServiceName :: string
  Methods :: "(string \<times> 'u) list"
  Streams :: "(string \<times> 'st) list"

definition full_method :: "('u, 'st) service_desc \<Rightarrow> string \<Rightarrow> string" where
  "full_method desc nm = ''/'' @ ServiceName desc @ ''/'' @ nm"

type_synonym ('s, 'b) unary_handler =
  "('s, 'b) plugin_server \<Rightarrow> ('b, method_envelope) result
   \<Rightarrow> (string \<Rightarrow> ('s, 'b) plugin_server \<Rightarrow> ('s, 'b) plugin_server) option \<Rightarrow> 's
   \<Rightarrow> 's \<times> ('b, result_envelope) result"

type_synonym ('s, 'b) services = "((('s, 'b) unary_handler, unit) service_desc \<times> ('s, 'b) plugin_server) list"

definition Plugin_ServiceDesc :: "(('s, 'b) unary_handler, unit) service_desc" where
  "Plugin_ServiceDesc =
     \<lparr> ServiceName = ''herrscher.transport.v1.Plugin'', Methods = [(''Call'', Plugin_Call_Handler)], Streams = [] \<rparr>"

definition RegisterPluginServer :: "('s, 'b) services \<Rightarrow> ('s, 'b) plugin_server \<Rightarrow> ('s, 'b) services" where
  "RegisterPluginServer services srv = (Plugin_ServiceDesc, srv) # services"

fun serve_unary :: "('s, 'b) services \<Rightarrow> string \<Rightarrow> ('b, method_envelope) result \<Rightarrow> 's \<Rightarrow> 's \<times> ('b, result_envelope) result" where
  "serve_unary [] nm decoded s = (s, Inl (OpaqueError ''rpc error: code = Unimplemented''))"
| "serve_unary ((desc, srv) # services) nm decoded s =
     (case map_of (map (\<lambda>(mth, h). (full_method desc mth, h)) (Methods desc)) nm of
        Some h \<Rightarrow> h srv decoded None s
      | None \<Rightarrow> serve_unary services nm decoded s)"

lemma serve_plugin_call:
  "serve_unary (RegisterPluginServer services srv) Plugin_Call_FullMethodName decoded s =
     Plugin_Call_Handler srv decoded None s"
  by (simp add: RegisterPluginServer_def Plugin_ServiceDesc_def Plugin_Call_FullMethodName_def full_method_def)

text \<open>The client over a connection.\<close>

definition NewPluginClient ::
  "('s \<Rightarrow> string \<Rightarrow> method_envelope \<Rightarrow> 's \<times> ('b, result_envelope) result) \<Rightarrow> ('s, 'b) plugin_server" where
  "NewPluginClient cc = pluginClient_Call cc"

section \<open>In-band failure\<close>

definition fail :: "'b runtime \<Rightarrow> 'b go_error \<Rightarrow> ('b, result_envelope) result" where
  "fail rt err = Inr \<lparr> ResPayload = encodeWireError rt err, ResError = error_text rt err \<rparr>"

text \<open>
  What a proto3 message can carry: its string fields have to be well-formed UTF-8, while the
  payloads are bytes. So the text of an error has to be well formed to arrive.
\<close>

definition carriable_request :: "method_envelope \<Rightarrow> bool" where
  "carriable_request env \<longleftrightarrow> valid_utf8 (Port env) \<and> valid_utf8 (Method env)"

definition carriable :: "('b, result_envelope) result \<Rightarrow> bool" where
  "carriable r = (case r of Inl err \<Rightarrow> True | Inr res \<Rightarrow> valid_utf8 (ResError res))"

text \<open>
  An error is fit for the wire when its text is well formed and not empty (an empty text in the
  envelope says that the call succeeded) and the budget error it may hold is fit to be marshalled.
\<close>

definition wire_err :: "'b runtime \<Rightarrow> ('b \<Rightarrow> bool) \<Rightarrow> 'b go_error \<Rightarrow> bool" where
  "wire_err rt fit err \<longleftrightarrow>
     error_text rt err \<noteq> [] \<and> valid_utf8 (error_text rt err) \<and> (\<forall>b. as_budget err = Some b \<longrightarrow> fit b)"

section \<open>The client half of a call\<close>

text \<open>
  The unexported method \<^verbatim>\<open>call\<close> of the memory proxy and of the orchestrator proxy:
  the same lines but for the port they name.
\<close>

definition proxy_call ::
  "'b runtime \<Rightarrow> string \<Rightarrow> ('s, 'b) plugin_server \<Rightarrow> 's \<Rightarrow> string \<Rightarrow> json option list
   \<Rightarrow> 's \<times> ('b, result_envelope) result" where
  "proxy_call rt port client s method vals =
     (case encodeArgs vals of
        Inl err \<Rightarrow> (s, Inl err)
      | Inr payload \<Rightarrow>
        (case client s \<lparr> Port = port, Method = method, JsonPayload = payload \<rparr> of
           (s', Inl err) \<Rightarrow> (s', Inl err)
         | (s', Inr res) \<Rightarrow>
             if ResError res \<noteq> [] then (s', Inl (decodeWireError rt (ResPayload res) (ResError res)))
             else (s', Inr res)))"

text \<open>A call that the server fails in band arrives as the error over the wire.\<close>

lemma proxy_call_fail:
  fixes rt :: "'b runtime"
  assumes "wire_codec (budget_codec rt) fit"
    and "encodeArgs vals = (Inr p :: ('b, string) result)"
    and "client s \<lparr> Port = port, Method = mth, JsonPayload = p \<rparr> = (s', fail rt err)"
    and "wire_err rt fit err"
  shows "proxy_call rt port client s mth vals = (s', Inl (over_wire rt err))"
proof -
  have "decodeWireError rt (encodeWireError rt err) (error_text rt err) = over_wire rt err"
    using assms(4) by (intro decode_encode_wire_error [OF assms(1)]) (simp add: wire_err_def)
  then show ?thesis using assms(2-4) by (simp add: proxy_call_def fail_def wire_err_def)
qed

lemma proxy_call_ok:
  fixes rt :: "'b runtime"
  assumes "encodeArgs vals = (Inr p :: ('b, string) result)"
    and "client s \<lparr> Port = port, Method = mth, JsonPayload = p \<rparr> = (s', Inr \<lparr> ResPayload = q, ResError = [] \<rparr>)"
  shows "proxy_call rt port client s mth vals = (s', Inr \<lparr> ResPayload = q, ResError = [] \<rparr>)"
  using assms by (simp add: proxy_call_def)

text \<open>An error with an empty text is not told from success.\<close>

lemma proxy_call_fail_empty:
  fixes rt :: "'b runtime"
  assumes "encodeArgs vals = (Inr p :: ('b, string) result)"
    and "client s \<lparr> Port = port, Method = mth, JsonPayload = p \<rparr> = (s', fail rt err)"
    and "error_text rt err = []"
  shows "proxy_call rt port client s mth vals =
    (s', Inr \<lparr> ResPayload = encodeWireError rt err, ResError = [] \<rparr>)"
  using assms by (simp add: proxy_call_def fail_def)

section \<open>Replies and outcomes\<close>

definition ok_envelope :: "string \<Rightarrow> ('b, result_envelope) result" where
  "ok_envelope payload = Inr \<lparr> ResPayload = payload, ResError = [] \<rparr>"

text \<open>The answer to a method that returns only an error.\<close>

definition error_reply :: "'b runtime \<Rightarrow> 's \<times> 'b go_error option \<Rightarrow> 's \<times> ('b, result_envelope) result" where
  "error_reply rt outcome =
     (case outcome of (s, Some err) \<Rightarrow> (s, fail rt err) | (s, None) \<Rightarrow> (s, ok_envelope []))"

text \<open>The error of a call whose result is dropped.\<close>

definition call_error :: "'s \<times> ('b, 'a) result \<Rightarrow> 's \<times> 'b go_error option" where
  "call_error outcome = (case outcome of (s, Inl err) \<Rightarrow> (s, Some err) | (s, Inr _) \<Rightarrow> (s, None))"

text \<open>
  The contract the pair keeps: a call through the proxy does to the state behind the skeleton
  what the direct call does and gives its result, an error being changed as
  \<^term>\<open>over_wire\<close> says.
\<close>

definition remote_result :: "'b runtime \<Rightarrow> 's \<times> ('b, 'a) result \<Rightarrow> 's \<times> ('b, 'a) result" where
  "remote_result rt outcome = (fst outcome, map_sum (over_wire rt) (\<lambda>v. v) (snd outcome))"

definition remote_error :: "'b runtime \<Rightarrow> 's \<times> 'b go_error option \<Rightarrow> 's \<times> 'b go_error option" where
  "remote_error rt outcome = (fst outcome, map_option (over_wire rt) (snd outcome))"

definition result_fit :: "'b runtime \<Rightarrow> ('b \<Rightarrow> bool) \<Rightarrow> ('a \<Rightarrow> bool) \<Rightarrow> ('b, 'a) result \<Rightarrow> bool" where
  "result_fit rt fitb fit r = (case r of Inl err \<Rightarrow> wire_err rt fitb err | Inr v \<Rightarrow> fit v)"

definition error_fit :: "'b runtime \<Rightarrow> ('b \<Rightarrow> bool) \<Rightarrow> 'b go_error option \<Rightarrow> bool" where
  "error_fit rt fitb e = (case e of Some err \<Rightarrow> wire_err rt fitb err | None \<Rightarrow> True)"

section \<open>Outcomes across the wire\<close>

text \<open>The shape every method that returns only an error shares.\<close>

lemma call_error_reply:
  fixes rt :: "'b runtime"
  assumes "wire_codec (budget_codec rt) fitb"
    and "encodeArgs vals = (Inr p :: ('b, string) result)"
    and "client s \<lparr> Port = port, Method = mth, JsonPayload = p \<rparr> = error_reply rt outcome"
    and "error_fit rt fitb (snd outcome)"
  shows "call_error (proxy_call rt port client s mth vals) = remote_error rt outcome"
proof (cases outcome)
  case (Pair s' e)
  show ?thesis
  proof (cases e)
    case None
    with Pair assms(3) have "client s \<lparr> Port = port, Method = mth, JsonPayload = p \<rparr> =
        (s', Inr \<lparr> ResPayload = [], ResError = [] \<rparr>)"
      by (simp add: error_reply_def ok_envelope_def)
    from proxy_call_ok [where client = client and s = s, OF assms(2) this] show ?thesis
      by (simp add: Pair None remote_error_def call_error_def)
  next
    case (Some err)
    with Pair assms(3) have "client s \<lparr> Port = port, Method = mth, JsonPayload = p \<rparr> = (s', fail rt err)"
      by (simp add: error_reply_def)
    from proxy_call_fail [where client = client and s = s, OF assms(1,2) this] assms(4) show ?thesis
      by (simp add: Pair Some error_fit_def remote_error_def call_error_def)
  qed
qed

lemma in_band_replies [simp]:
  "\<not> isl (fail rt err)" "\<not> isl (ok_envelope q)" "\<not> isl (snd (error_reply rt outcome))"
  by (simp_all add: fail_def ok_envelope_def error_reply_def split: prod.split option.split)

lemma carriable_replies [simp]:
  "carriable (fail rt err) \<longleftrightarrow> valid_utf8 (error_text rt err)" "carriable (ok_envelope q)"
  "carriable (Inr \<lparr> ResPayload = q, ResError = [] \<rparr>)"
  by (simp_all add: carriable_def fail_def ok_envelope_def)

lemma carriable_error_reply: "error_fit rt fitb (snd outcome) \<Longrightarrow> carriable (snd (error_reply rt outcome))"
  by (cases outcome; cases "snd outcome") (simp_all add: error_reply_def error_fit_def wire_err_def)

lemma wire_err_text: "wire_err rt fitb err \<Longrightarrow> valid_utf8 (error_text rt err)"
  by (simp add: wire_err_def)

end
