(* ===== verification/Memory.thy ===== *)
theory Memory
  imports Proto
begin

text \<open>
  \<^verbatim>\<open>memory_skeleton.go\<close> and \<^verbatim>\<open>memory_proxy.go\<close>. The
  \<^verbatim>\<open>contracts.Memory\<close> behind the skeleton is a parameter: a record of its methods
  over a state of its own, with the JSON codecs of the types they exchange.
\<close>

section \<open>The contract's types\<close>

record ('s, 'b, 'n, 'q, 'g) memory =
  mem_Recall :: "'s \<Rightarrow> string \<Rightarrow> i64 \<Rightarrow> 's \<times> ('b, 'g) result"
  mem_Record :: "'s \<Rightarrow> 'n \<Rightarrow> 's \<times> 'b go_error option"
  mem_Search :: "'s \<Rightarrow> 'q \<Rightarrow> 's \<times> ('b, 'n slice) result"
  mem_Links :: "'s \<Rightarrow> string \<Rightarrow> string \<Rightarrow> string \<Rightarrow> 's \<times> 'b go_error option"
  mem_Unlink :: "'s \<Rightarrow> string \<Rightarrow> string \<Rightarrow> 's \<times> 'b go_error option"

record ('n, 'q, 'g) memory_codecs =
  node_codec :: "'n codec"
  query_codec :: "'q codec"
  subgraph_codec :: "'g codec"

definition PortMemory :: string where "PortMemory = ''memory''"
definition methodRecall :: string where "methodRecall = ''Recall''"
definition methodRecord :: string where "methodRecord = ''Record''"
definition methodSearch :: string where "methodSearch = ''Search''"
definition methodLinks :: string where "methodLinks = ''Links''"
definition methodUnlink :: string where "methodUnlink = ''Unlink''"

lemmas memory_method_defs = methodRecall_def methodRecord_def methodSearch_def methodLinks_def methodUnlink_def

section \<open>The skeleton\<close>

record recall_args =
  Key :: string
  Depth :: i64

record link_args =
  From :: string
  To :: string
  Rel :: string

abbreviation string_dest :: "('r \<Rightarrow> string) \<Rightarrow> (string \<Rightarrow> 'r \<Rightarrow> 'r) \<Rightarrow> 'r dest" where
  "string_dest \<equiv> dest string_codec"

definition memoryServer_recall ::
  "'b runtime \<Rightarrow> ('n, 'q, 'g) memory_codecs \<Rightarrow> ('s, 'b, 'n, 'q, 'g) memory \<Rightarrow> ('s, 'b) plugin_server" where
  "memoryServer_recall rt mt m s env =
     (case decodeArgs rt (JsonPayload env)
            [string_dest Key (\<lambda>v r. r\<lparr>Key := v\<rparr>), dest int_codec Depth (\<lambda>v r. r\<lparr>Depth := v\<rparr>)]
            \<lparr> Key = [], Depth = 0 \<rparr> of
        Inl err \<Rightarrow> (s, fail rt err)
      | Inr a \<Rightarrow>
        (case mem_Recall m s (Key a) (Depth a) of
           (s', Inl err) \<Rightarrow> (s', fail rt err)
         | (s', Inr sub) \<Rightarrow>
           (case encodeArgs [enc (subgraph_codec mt) sub] of
              Inl err \<Rightarrow> (s', fail rt err)
            | Inr out \<Rightarrow> (s', ok_envelope out))))"

definition memoryServer_record ::
  "'b runtime \<Rightarrow> ('n, 'q, 'g) memory_codecs \<Rightarrow> ('s, 'b, 'n, 'q, 'g) memory \<Rightarrow> ('s, 'b) plugin_server" where
  "memoryServer_record rt mt m s env =
     (case decodeArgs rt (JsonPayload env) [whole (node_codec mt)] (zero_val (node_codec mt)) of
        Inl err \<Rightarrow> (s, fail rt err)
      | Inr node \<Rightarrow> error_reply rt (mem_Record m s node))"

definition memoryServer_search ::
  "'b runtime \<Rightarrow> ('n, 'q, 'g) memory_codecs \<Rightarrow> ('s, 'b, 'n, 'q, 'g) memory \<Rightarrow> ('s, 'b) plugin_server" where
  "memoryServer_search rt mt m s env =
     (case decodeArgs rt (JsonPayload env) [whole (query_codec mt)] (zero_val (query_codec mt)) of
        Inl err \<Rightarrow> (s, fail rt err)
      | Inr query \<Rightarrow>
        (case mem_Search m s query of
           (s', Inl err) \<Rightarrow> (s', fail rt err)
         | (s', Inr nodes) \<Rightarrow>
           (case encodeArgs [enc (slice_codec (node_codec mt)) nodes] of
              Inl err \<Rightarrow> (s', fail rt err)
            | Inr out \<Rightarrow> (s', ok_envelope out))))"

definition memoryServer_links ::
  "'b runtime \<Rightarrow> ('s, 'b, 'n, 'q, 'g) memory \<Rightarrow> ('s, 'b) plugin_server" where
  "memoryServer_links rt m s env =
     (case decodeArgs rt (JsonPayload env)
            [string_dest From (\<lambda>v r. r\<lparr>From := v\<rparr>), string_dest To (\<lambda>v r. r\<lparr>To := v\<rparr>),
             string_dest Rel (\<lambda>v r. r\<lparr>Rel := v\<rparr>)]
            \<lparr> From = [], To = [], Rel = [] \<rparr> of
        Inl err \<Rightarrow> (s, fail rt err)
      | Inr a \<Rightarrow> error_reply rt (mem_Links m s (From a) (To a) (Rel a)))"

definition memoryServer_unlink ::
  "'b runtime \<Rightarrow> ('s, 'b, 'n, 'q, 'g) memory \<Rightarrow> ('s, 'b) plugin_server" where
  "memoryServer_unlink rt m s env =
     (case decodeArgs rt (JsonPayload env)
            [string_dest From (\<lambda>v r. r\<lparr>From := v\<rparr>), string_dest To (\<lambda>v r. r\<lparr>To := v\<rparr>)]
            \<lparr> From = [], To = [], Rel = [] \<rparr> of
        Inl err \<Rightarrow> (s, fail rt err)
      | Inr a \<Rightarrow> error_reply rt (mem_Unlink m s (From a) (To a)))"

definition memoryServer_Call ::
  "'b runtime \<Rightarrow> ('n, 'q, 'g) memory_codecs \<Rightarrow> ('s, 'b, 'n, 'q, 'g) memory \<Rightarrow> ('s, 'b) plugin_server" where
  "memoryServer_Call rt mt m s env =
     (if Port env \<noteq> PortMemory then (s, fail rt (UnknownPortError (Port env)))
      else if Method env = methodRecall then memoryServer_recall rt mt m s env
      else if Method env = methodRecord then memoryServer_record rt mt m s env
      else if Method env = methodSearch then memoryServer_search rt mt m s env
      else if Method env = methodLinks then memoryServer_links rt m s env
      else if Method env = methodUnlink then memoryServer_unlink rt m s env
      else (s, fail rt (UnknownMethodError PortMemory (Method env))))"

section \<open>The proxy\<close>

record ('s, 'b) MemoryProxy =
  mp_client :: "('s, 'b) plugin_server"
  mp_dialed :: "('s \<Rightarrow> 's \<times> 'b go_error option) option"

definition NewMemoryProxy :: "('s, 'b) plugin_server \<Rightarrow> ('s, 'b) MemoryProxy" where
  "NewMemoryProxy c = \<lparr> mp_client = c, mp_dialed = None \<rparr>"

abbreviation MemoryProxy_call ::
  "'b runtime \<Rightarrow> ('s, 'b) MemoryProxy \<Rightarrow> 's \<Rightarrow> string \<Rightarrow> json option list \<Rightarrow> 's \<times> ('b, result_envelope) result" where
  "MemoryProxy_call rt p \<equiv> proxy_call rt PortMemory (mp_client p)"

definition MemoryProxy_Recall ::
  "'b runtime \<Rightarrow> ('n, 'q, 'g) memory_codecs \<Rightarrow> ('s, 'b) MemoryProxy \<Rightarrow> 's \<Rightarrow> string \<Rightarrow> i64
   \<Rightarrow> 's \<times> ('b, 'g) result" where
  "MemoryProxy_Recall rt mt p s key depth =
     (case MemoryProxy_call rt p s methodRecall [enc string_codec key, enc int_codec depth] of
        (s', Inl err) \<Rightarrow> (s', Inl err)
      | (s', Inr res) \<Rightarrow>
          (s', decodeArgs rt (ResPayload res) [whole (subgraph_codec mt)] (zero_val (subgraph_codec mt))))"

definition MemoryProxy_Record ::
  "'b runtime \<Rightarrow> ('n, 'q, 'g) memory_codecs \<Rightarrow> ('s, 'b) MemoryProxy \<Rightarrow> 's \<Rightarrow> 'n \<Rightarrow> 's \<times> 'b go_error option" where
  "MemoryProxy_Record rt mt p s n = call_error (MemoryProxy_call rt p s methodRecord [enc (node_codec mt) n])"

definition MemoryProxy_Search ::
  "'b runtime \<Rightarrow> ('n, 'q, 'g) memory_codecs \<Rightarrow> ('s, 'b) MemoryProxy \<Rightarrow> 's \<Rightarrow> 'q \<Rightarrow> 's \<times> ('b, 'n slice) result" where
  "MemoryProxy_Search rt mt p s q =
     (case MemoryProxy_call rt p s methodSearch [enc (query_codec mt) q] of
        (s', Inl err) \<Rightarrow> (s', Inl err)
      | (s', Inr res) \<Rightarrow>
          (s', decodeArgs rt (ResPayload res) [whole (slice_codec (node_codec mt))] None))"

definition MemoryProxy_Links ::
  "'b runtime \<Rightarrow> ('s, 'b) MemoryProxy \<Rightarrow> 's \<Rightarrow> string \<Rightarrow> string \<Rightarrow> string \<Rightarrow> 's \<times> 'b go_error option" where
  "MemoryProxy_Links rt p s from to rel =
     call_error (MemoryProxy_call rt p s methodLinks
       [enc string_codec from, enc string_codec to, enc string_codec rel])"

definition MemoryProxy_Unlink ::
  "'b runtime \<Rightarrow> ('s, 'b) MemoryProxy \<Rightarrow> 's \<Rightarrow> string \<Rightarrow> string \<Rightarrow> 's \<times> 'b go_error option" where
  "MemoryProxy_Unlink rt p s from to =
     call_error (MemoryProxy_call rt p s methodUnlink [enc string_codec from, enc string_codec to])"

definition MemoryProxy_Close :: "('s, 'b) MemoryProxy \<Rightarrow> 's \<Rightarrow> 's \<times> 'b go_error option" where
  "MemoryProxy_Close p s = (case mp_dialed p of Some close \<Rightarrow> close s | None \<Rightarrow> (s, None))"

section \<open>What a remote caller sees\<close>

definition slice_fit :: "('a \<Rightarrow> bool) \<Rightarrow> 'a slice \<Rightarrow> bool" where
  "slice_fit fit s = (case s of None \<Rightarrow> True | Some vs \<Rightarrow> list_all fit vs)"

definition serves_memory ::
  "'b runtime \<Rightarrow> ('n, 'q, 'g) memory_codecs \<Rightarrow> ('s, 'b, 'n, 'q, 'g) memory \<Rightarrow> ('s, 'b) plugin_server \<Rightarrow> bool" where
  "serves_memory rt mt m client \<longleftrightarrow>
     (\<forall>s env. Port env = PortMemory \<and> valid_utf8 (Method env) \<and> carriable (snd (memoryServer_Call rt mt m s env)) \<longrightarrow>
        client s env = memoryServer_Call rt mt m s env)"

text \<open>A method whose reply can be carried is answered as the skeleton answers it.\<close>

lemma serves_memory_methods:
  assumes "serves_memory rt mt m client"
  shows "carriable (snd (memoryServer_recall rt mt m s \<lparr> Port = PortMemory, Method = methodRecall, JsonPayload = p \<rparr>)) \<Longrightarrow>
      client s \<lparr> Port = PortMemory, Method = methodRecall, JsonPayload = p \<rparr> =
      memoryServer_recall rt mt m s \<lparr> Port = PortMemory, Method = methodRecall, JsonPayload = p \<rparr>"
    and "carriable (snd (memoryServer_record rt mt m s \<lparr> Port = PortMemory, Method = methodRecord, JsonPayload = p \<rparr>)) \<Longrightarrow>
      client s \<lparr> Port = PortMemory, Method = methodRecord, JsonPayload = p \<rparr> =
      memoryServer_record rt mt m s \<lparr> Port = PortMemory, Method = methodRecord, JsonPayload = p \<rparr>"
    and "carriable (snd (memoryServer_search rt mt m s \<lparr> Port = PortMemory, Method = methodSearch, JsonPayload = p \<rparr>)) \<Longrightarrow>
      client s \<lparr> Port = PortMemory, Method = methodSearch, JsonPayload = p \<rparr> =
      memoryServer_search rt mt m s \<lparr> Port = PortMemory, Method = methodSearch, JsonPayload = p \<rparr>"
    and "carriable (snd (memoryServer_links rt m s \<lparr> Port = PortMemory, Method = methodLinks, JsonPayload = p \<rparr>)) \<Longrightarrow>
      client s \<lparr> Port = PortMemory, Method = methodLinks, JsonPayload = p \<rparr> =
      memoryServer_links rt m s \<lparr> Port = PortMemory, Method = methodLinks, JsonPayload = p \<rparr>"
    and "carriable (snd (memoryServer_unlink rt m s \<lparr> Port = PortMemory, Method = methodUnlink, JsonPayload = p \<rparr>)) \<Longrightarrow>
      client s \<lparr> Port = PortMemory, Method = methodUnlink, JsonPayload = p \<rparr> =
      memoryServer_unlink rt m s \<lparr> Port = PortMemory, Method = methodUnlink, JsonPayload = p \<rparr>"
  using assms by (simp_all add: serves_memory_def memoryServer_Call_def memory_method_defs valid_utf8_ascii)

lemma recall_remote:
  fixes rt :: "'b runtime"
  assumes "wire_codec (budget_codec rt) fitb" and "wire_codec (subgraph_codec mt) fitg"
    and "serves_memory rt mt m (mp_client p)" and "valid_utf8 key"
    and "result_fit rt fitb fitg (snd (mem_Recall m s key depth))"
  shows "MemoryProxy_Recall rt mt p s key depth = remote_result rt (mem_Recall m s key depth)"
proof -
  let ?vals = "[enc string_codec key, enc int_codec depth]"
  let ?js = "[JStr key, JNum (show_int (sint depth))]"
  obtain q where q: "encodeArgs ?vals = (Inr q :: ('b, string) result)"
    and dec: "decodeArgs rt q
        [string_dest Key (\<lambda>v r. r\<lparr>Key := v\<rparr>), dest int_codec Depth (\<lambda>v r. r\<lparr>Depth := v\<rparr>)]
        \<lparr> Key = [], Depth = 0 \<rparr> = Inr \<lparr> Key = key, Depth = depth \<rparr>"
    using wire_args_atoms [of ?js "[string_dest Key (\<lambda>v r. r\<lparr>Key := v\<rparr>), dest int_codec Depth (\<lambda>v r. r\<lparr>Depth := v\<rparr>)]" rt
        "\<lparr> Key = [], Depth = 0 \<rparr>"] assms(4)
    by auto
  note served = serves_memory_methods(1) [OF assms(3), of s q, unfolded memoryServer_recall_def, simplified, unfolded dec]
  obtain s' r where out: "mem_Recall m s key depth = (s', r)" by fastforce
  show ?thesis
  proof (cases r)
    case (Inl err)
    with out assms(5) have fit: "wire_err rt fitb err" by (simp add: result_fit_def)
    with out served Inl show ?thesis
      using wire_err_text [OF fit] proxy_call_fail [where client = "mp_client p" and s = s and port = PortMemory and mth = methodRecall
          and s' = s' and err = err, OF assms(1) q]
      by (simp add: MemoryProxy_Recall_def result_fit_def remote_result_def)
  next
    case (Inr g)
    then obtain w where w: "encodeArgs [enc (subgraph_codec mt) g] = (Inr w :: ('b, string) result)"
      and dec_back: "decodeArgs rt w [whole (subgraph_codec mt)] (zero_val (subgraph_codec mt)) = Inr g"
      using wire_args_single [OF assms(2), of g rt] assms(5) by (auto simp: out result_fit_def)
    with out served Inr show ?thesis
      using proxy_call_ok [where client = "mp_client p" and s = s and port = PortMemory and mth = methodRecall
          and s' = s' and q = w, OF q]
      by (simp add: MemoryProxy_Recall_def remote_result_def ok_envelope_def)
  qed
qed

lemma record_remote:
  fixes rt :: "'b runtime"
  assumes "wire_codec (budget_codec rt) fitb" and "wire_codec (node_codec mt) fitn"
    and "serves_memory rt mt m (mp_client p)" and "fitn n"
    and "error_fit rt fitb (snd (mem_Record m s n))"
  shows "MemoryProxy_Record rt mt p s n = remote_error rt (mem_Record m s n)"
proof -
  obtain q where q: "encodeArgs [enc (node_codec mt) n] = (Inr q :: ('b, string) result)"
    and dec: "decodeArgs rt q [whole (node_codec mt)] (zero_val (node_codec mt)) = Inr n"
    using wire_args_single [OF assms(2,4), of rt] by blast
  have "mp_client p s \<lparr> Port = PortMemory, Method = methodRecord, JsonPayload = q \<rparr> =
      error_reply rt (mem_Record m s n)"
    using carriable_error_reply [OF assms(5)] by (simp add: serves_memory_methods(2) [OF assms(3)] memoryServer_record_def dec)
  from call_error_reply [where client = "mp_client p" and s = s, OF assms(1) q this assms(5)] show ?thesis by (simp add: MemoryProxy_Record_def)
qed

lemma search_remote:
  fixes rt :: "'b runtime"
  assumes "wire_codec (budget_codec rt) fitb" and "wire_codec (query_codec mt) fitq"
    and "wire_codec (node_codec mt) fitn"
    and "serves_memory rt mt m (mp_client p)" and "fitq query"
    and "result_fit rt fitb (slice_fit fitn) (snd (mem_Search m s query))"
  shows "MemoryProxy_Search rt mt p s query = remote_result rt (mem_Search m s query)"
proof -
  obtain q where q: "encodeArgs [enc (query_codec mt) query] = (Inr q :: ('b, string) result)"
    and dec: "decodeArgs rt q [whole (query_codec mt)] (zero_val (query_codec mt)) = Inr query"
    using wire_args_single [OF assms(2,5), of rt] by blast
  note served = serves_memory_methods(3) [OF assms(4), of s q, unfolded memoryServer_search_def, simplified, unfolded dec]
  obtain s' r where out: "mem_Search m s query = (s', r)" by fastforce
  show ?thesis
  proof (cases r)
    case (Inl err)
    with out assms(6) have fit: "wire_err rt fitb err" by (simp add: result_fit_def)
    with out served Inl show ?thesis
      using wire_err_text [OF fit] proxy_call_fail [where client = "mp_client p" and s = s and port = PortMemory and mth = methodSearch
          and s' = s' and err = err, OF assms(1) q]
      by (simp add: MemoryProxy_Search_def result_fit_def remote_result_def)
  next
    case (Inr ns)
    with assms(6) have "\<And>vs. ns = Some vs \<Longrightarrow> list_all fitn vs"
      by (simp add: out result_fit_def slice_fit_def)
    then obtain w where w: "encodeArgs [enc (slice_codec (node_codec mt)) ns] = (Inr w :: ('b, string) result)"
      and dec_back: "decodeArgs rt w [whole (slice_codec (node_codec mt))] None = Inr ns"
      using wire_args_slice [OF assms(3), of ns rt] by metis
    with out served Inr show ?thesis
      using proxy_call_ok [where client = "mp_client p" and s = s and port = PortMemory and mth = methodSearch
          and s' = s' and q = w, OF q]
      by (simp add: MemoryProxy_Search_def remote_result_def ok_envelope_def)
  qed
qed

lemma links_remote:
  fixes rt :: "'b runtime"
  assumes "wire_codec (budget_codec rt) fitb" and "serves_memory rt mt m (mp_client p)"
    and "valid_utf8 from" and "valid_utf8 to" and "valid_utf8 rel"
    and "error_fit rt fitb (snd (mem_Links m s from to rel))"
  shows "MemoryProxy_Links rt p s from to rel = remote_error rt (mem_Links m s from to rel)"
proof -
  let ?dst = "[string_dest From (\<lambda>v r. r\<lparr>From := v\<rparr>), string_dest To (\<lambda>v r. r\<lparr>To := v\<rparr>),
    string_dest Rel (\<lambda>v r. r\<lparr>Rel := v\<rparr>)]"
  let ?zero = "\<lparr> From = [], To = [], Rel = [] \<rparr>"
  obtain q where q: "encodeArgs [enc string_codec from, enc string_codec to, enc string_codec rel] =
      (Inr q :: ('b, string) result)"
    and dec: "decodeArgs rt q ?dst ?zero = Inr \<lparr> From = from, To = to, Rel = rel \<rparr>"
    using wire_args_atoms [of "[JStr from, JStr to, JStr rel]" ?dst rt ?zero] assms(3-5) by auto
  have "mp_client p s \<lparr> Port = PortMemory, Method = methodLinks, JsonPayload = q \<rparr> =
      error_reply rt (mem_Links m s from to rel)"
    using carriable_error_reply [OF assms(6)] by (simp add: serves_memory_methods(4) [OF assms(2)] memoryServer_links_def dec)
  from call_error_reply [where client = "mp_client p" and s = s, OF assms(1) q this assms(6)]
  show ?thesis by (simp add: MemoryProxy_Links_def)
qed

lemma unlink_remote:
  fixes rt :: "'b runtime"
  assumes "wire_codec (budget_codec rt) fitb" and "serves_memory rt mt m (mp_client p)"
    and "valid_utf8 from" and "valid_utf8 to"
    and "error_fit rt fitb (snd (mem_Unlink m s from to))"
  shows "MemoryProxy_Unlink rt p s from to = remote_error rt (mem_Unlink m s from to)"
proof -
  let ?dst = "[string_dest From (\<lambda>v r. r\<lparr>From := v\<rparr>), string_dest To (\<lambda>v r. r\<lparr>To := v\<rparr>)]"
  let ?zero = "\<lparr> From = [], To = [], Rel = [] \<rparr>"
  obtain q where q: "encodeArgs [enc string_codec from, enc string_codec to] = (Inr q :: ('b, string) result)"
    and dec: "decodeArgs rt q ?dst ?zero = Inr \<lparr> From = from, To = to, Rel = [] \<rparr>"
    using wire_args_atoms [of "[JStr from, JStr to]" ?dst rt ?zero] assms(3,4) by auto
  have "mp_client p s \<lparr> Port = PortMemory, Method = methodUnlink, JsonPayload = q \<rparr> =
      error_reply rt (mem_Unlink m s from to)"
    using carriable_error_reply [OF assms(5)] by (simp add: serves_memory_methods(5) [OF assms(2)] memoryServer_unlink_def dec)
  from call_error_reply [where client = "mp_client p" and s = s, OF assms(1) q this assms(5)]
  show ?thesis by (simp add: MemoryProxy_Unlink_def)
qed

text \<open>
  An error whose text is empty: the envelope says success, and a method that returns only an
  error reports none.
\<close>

lemma record_empty_error:
  fixes rt :: "'b runtime"
  assumes "wire_codec (node_codec mt) fitn" and "serves_memory rt mt m (mp_client p)" and "fitn n"
    and "mem_Record m s n = (s', Some err)" and "error_text rt err = []"
  shows "MemoryProxy_Record rt mt p s n = (s', None)"
proof -
  obtain q where q: "encodeArgs [enc (node_codec mt) n] = (Inr q :: ('b, string) result)"
    and dec: "decodeArgs rt q [whole (node_codec mt)] (zero_val (node_codec mt)) = Inr n"
    using wire_args_single [OF assms(1,3), of rt] by blast
  have "mp_client p s \<lparr> Port = PortMemory, Method = methodRecord, JsonPayload = q \<rparr> = (s', fail rt err)"
    by (simp add: serves_memory_methods(2) [OF assms(2)] memoryServer_record_def dec assms(4,5) error_reply_def)
  from proxy_call_fail_empty [where client = "mp_client p" and s = s, OF q this assms(5)]
  show ?thesis by (simp add: MemoryProxy_Record_def call_error_def)
qed

text \<open>Every envelope gets an answer in band, and the state changes only through the contract's methods.\<close>

lemma memory_methods_in_band:
  "\<not> isl (snd (memoryServer_recall rt mt m s env))" "\<not> isl (snd (memoryServer_record rt mt m s env))"
  "\<not> isl (snd (memoryServer_search rt mt m s env))" "\<not> isl (snd (memoryServer_links rt m s env))"
  "\<not> isl (snd (memoryServer_unlink rt m s env))"
  by (simp_all add: memoryServer_recall_def memoryServer_record_def memoryServer_search_def
      memoryServer_links_def memoryServer_unlink_def split: sum.split prod.split)

lemma memoryServer_in_band: "\<not> isl (snd (memoryServer_Call rt mt m s env))"
  by (simp add: memoryServer_Call_def memory_methods_in_band)

section \<open>A memory of strings\<close>

text \<open>A small memory whose nodes, queries and subgraphs are strings, to evaluate examples on.\<close>

definition sample_codecs :: "(string, string, string) memory_codecs" where
  "sample_codecs = \<lparr> node_codec = string_codec, query_codec = string_codec, subgraph_codec = string_codec \<rparr>"

definition sample_memory :: "(string list, string, string, string, string) memory" where
  "sample_memory = \<lparr>
     mem_Recall = (\<lambda>s key depth. (s, if key \<in> set s then Inr key else Inl (OpaqueError ''no such node''))),
     mem_Record = (\<lambda>s n. if n = [] then (s, Some (OpaqueError [])) else if length s = 2
                     then (s, Some (wrap sample_runtime ''full'' (BudgetError ''nodes''))) else (n # s, None)),
     mem_Search = (\<lambda>s q. (s, Inr (Some (filter (\<lambda>n. n = q) s)))),
     mem_Links = (\<lambda>s from to rel. (s, None)),
     mem_Unlink = (\<lambda>s from to. (s, Some (OpaqueError ''no link''))) \<rparr>"

lemma sample_codecs_simps [simp]:
  "node_codec sample_codecs = string_codec" "query_codec sample_codecs = string_codec"
  "subgraph_codec sample_codecs = string_codec"
  by (simp_all add: sample_codecs_def)

end
