(* ===== verification/Orchestrator.thy ===== *)
theory Orchestrator
  imports Proto
begin

text \<open>
  \<^verbatim>\<open>orchestrator_skeleton.go\<close> and \<^verbatim>\<open>orchestrator_proxy.go\<close>. The
  \<^verbatim>\<open>contracts.Orchestrator\<close> behind the skeleton and the codec of its prompt type
  are parameters, as for the memory port.
\<close>

section \<open>The skeleton\<close>

record ('s, 'b, 'p) orchestrator =
  orc_Context :: "'s \<Rightarrow> 's \<times> string"
  orc_Observe :: "'s \<Rightarrow> 'p \<Rightarrow> string \<Rightarrow> 's \<times> 'b go_error option"
  orc_Consolidate :: "'s \<Rightarrow> 's \<times> 'b go_error option"

definition PortOrchestrator :: string where "PortOrchestrator = ''orchestrator''"
definition methodContext :: string where "methodContext = ''Context''"
definition methodObserve :: string where "methodObserve = ''Observe''"
definition methodConsolidate :: string where "methodConsolidate = ''Consolidate''"

lemmas orchestrator_method_defs = methodContext_def methodObserve_def methodConsolidate_def

record 'p observe_args =
  ObPrompt :: 'p
  ObReply :: string

abbreviation observe_dests :: "'p codec \<Rightarrow> 'p observe_args dest list" where
  "observe_dests pc \<equiv>
     [dest pc ObPrompt (\<lambda>v r. r\<lparr>ObPrompt := v\<rparr>), dest string_codec ObReply (\<lambda>v r. r\<lparr>ObReply := v\<rparr>)]"

definition orchestratorServer_Call ::
  "'b runtime \<Rightarrow> 'p codec \<Rightarrow> ('s, 'b, 'p) orchestrator \<Rightarrow> ('s, 'b) plugin_server" where
  "orchestratorServer_Call rt pc o_impl s env =
     (if Port env \<noteq> PortOrchestrator then (s, fail rt (UnknownPortError (Port env)))
      else if Method env = methodContext then
        (case orc_Context o_impl s of (s', text) \<Rightarrow>
           (case encodeArgs [enc string_codec text] of
              Inl err \<Rightarrow> (s', fail rt err)
            | Inr out \<Rightarrow> (s', ok_envelope out)))
      else if Method env = methodObserve then
        (case decodeArgs rt (JsonPayload env) (observe_dests pc) \<lparr> ObPrompt = zero_val pc, ObReply = [] \<rparr> of
           Inl err \<Rightarrow> (s, fail rt err)
         | Inr a \<Rightarrow> error_reply rt (orc_Observe o_impl s (ObPrompt a) (ObReply a)))
      else if Method env = methodConsolidate then error_reply rt (orc_Consolidate o_impl s)
      else (s, fail rt (UnknownMethodError PortOrchestrator (Method env))))"

section \<open>The proxy\<close>

record ('s, 'b) OrchestratorProxy =
  op_client :: "('s, 'b) plugin_server"
  op_dialed :: "('s \<Rightarrow> 's \<times> 'b go_error option) option"

definition NewOrchestratorProxy :: "('s, 'b) plugin_server \<Rightarrow> ('s, 'b) OrchestratorProxy" where
  "NewOrchestratorProxy c = \<lparr> op_client = c, op_dialed = None \<rparr>"

definition OrchestratorProxy_call ::
  "'b runtime \<Rightarrow> ('s, 'b) OrchestratorProxy \<Rightarrow> 's \<Rightarrow> string \<Rightarrow> json option list \<Rightarrow> 's \<times> ('b, result_envelope) result" where
  "OrchestratorProxy_call rt p = proxy_call rt PortOrchestrator (op_client p)"

definition OrchestratorProxy_Context :: "'b runtime \<Rightarrow> ('s, 'b) OrchestratorProxy \<Rightarrow> 's \<Rightarrow> 's \<times> string" where
  "OrchestratorProxy_Context rt p s =
     (case OrchestratorProxy_call rt p s methodContext [] of
        (s', Inl err) \<Rightarrow> (s', [])
      | (s', Inr res) \<Rightarrow>
        (case decodeArgs rt (ResPayload res) [whole string_codec] [] of
           Inl err \<Rightarrow> (s', [])
         | Inr out \<Rightarrow> (s', out)))"

definition OrchestratorProxy_Observe ::
  "'b runtime \<Rightarrow> 'p codec \<Rightarrow> ('s, 'b) OrchestratorProxy \<Rightarrow> 's \<Rightarrow> 'p \<Rightarrow> string \<Rightarrow> 's \<times> 'b go_error option" where
  "OrchestratorProxy_Observe rt pc p s pr reply =
     call_error (OrchestratorProxy_call rt p s methodObserve [enc pc pr, enc string_codec reply])"

definition OrchestratorProxy_Consolidate ::
  "'b runtime \<Rightarrow> ('s, 'b) OrchestratorProxy \<Rightarrow> 's \<Rightarrow> 's \<times> 'b go_error option" where
  "OrchestratorProxy_Consolidate rt p s = call_error (OrchestratorProxy_call rt p s methodConsolidate [])"

definition OrchestratorProxy_Close :: "('s, 'b) OrchestratorProxy \<Rightarrow> 's \<Rightarrow> 's \<times> 'b go_error option" where
  "OrchestratorProxy_Close p s = (case op_dialed p of Some close \<Rightarrow> close s | None \<Rightarrow> (s, None))"

section \<open>What a remote caller sees\<close>

definition serves_orchestrator ::
  "'b runtime \<Rightarrow> 'p codec \<Rightarrow> ('s, 'b, 'p) orchestrator \<Rightarrow> ('s, 'b) plugin_server \<Rightarrow> bool" where
  "serves_orchestrator rt pc o_impl client \<longleftrightarrow>
     (\<forall>s env. Port env = PortOrchestrator \<and> valid_utf8 (Method env) \<and>
        carriable (snd (orchestratorServer_Call rt pc o_impl s env)) \<longrightarrow>
        client s env = orchestratorServer_Call rt pc o_impl s env)"

lemma encodeArgs_none: "encodeArgs [] = Inr (print_json JNull)"
  by (simp add: encodeArgs_def)

lemma parse_string_tuple: "parse_json (print_json (JArr [JStr s])) = Some (JArr [JStr (to_valid_utf8 s)])"
  using parse_print [of "JArr [JStr s]"] by (simp add: printable_def max_nesting_def)

lemma context_remote:
  fixes rt :: "'b runtime"
  assumes "serves_orchestrator rt pc o_impl (op_client p)"
  shows "OrchestratorProxy_Context rt p s =
    (fst (orc_Context o_impl s), to_valid_utf8 (snd (orc_Context o_impl s)))"
proof -
  obtain s' ctx where out: "orc_Context o_impl s = (s', ctx)" by fastforce
  let ?q = "print_json (JArr [JStr ctx])"
  have served: "op_client p s
      \<lparr> Port = PortOrchestrator, Method = methodContext, JsonPayload = print_json JNull \<rparr> =
      (s', Inr \<lparr> ResPayload = ?q, ResError = [] \<rparr>)"
    using assms
    by (simp add: serves_orchestrator_def orchestratorServer_Call_def out encodeArgs_def ok_envelope_def
        methodContext_def valid_utf8_ascii)
  have "OrchestratorProxy_call rt p s methodContext [] = (s', Inr \<lparr> ResPayload = ?q, ResError = [] \<rparr>)"
    unfolding OrchestratorProxy_call_def
    by (rule proxy_call_ok [where client = "op_client p" and s = s, OF encodeArgs_none served])
  then show ?thesis
    using parse_string_tuple [of ctx]
    by (simp add: OrchestratorProxy_Context_def decodeArgs_def decode_raws_def out)
qed

lemma observe_remote:
  fixes rt :: "'b runtime"
  assumes "wire_codec (budget_codec rt) fitb" and "wire_codec pc fitp"
    and "serves_orchestrator rt pc o_impl (op_client p)" and "fitp pr" and "valid_utf8 reply"
    and "error_fit rt fitb (snd (orc_Observe o_impl s pr reply))"
  shows "OrchestratorProxy_Observe rt pc p s pr reply = remote_error rt (orc_Observe o_impl s pr reply)"
proof -
  obtain j d where j: "enc pc pr = Some j" "wire_json d j" "Suc d < max_nesting"
    and dec: "\<And>strict. dec_into pc strict (zero_val pc) j = Some pr"
    using wire_codec_obtain [OF assms(2,4)] by metis
  let ?q = "print_json (JArr [j, JStr reply])"
  have q: "encodeArgs [enc pc pr, enc string_codec reply] = (Inr ?q :: ('b, string) result)"
    by (simp add: encodeArgs_def j(1))
  have args: "decodeArgs rt ?q (observe_dests pc) \<lparr> ObPrompt = zero_val pc, ObReply = [] \<rparr> =
      Inr \<lparr> ObPrompt = pr, ObReply = reply \<rparr>"
    using decodeArgs_JArr [of d "[j, JStr reply]" rt "observe_dests pc"] j assms(5) dec
    by (simp add: dest_def [of pc] field_def)
  have "op_client p s \<lparr> Port = PortOrchestrator, Method = methodObserve, JsonPayload = ?q \<rparr> =
      error_reply rt (orc_Observe o_impl s pr reply)"
    using assms(3) args carriable_error_reply [OF assms(6)]
    by (simp add: serves_orchestrator_def orchestratorServer_Call_def orchestrator_method_defs valid_utf8_ascii)
  from call_error_reply [where client = "op_client p" and s = s, OF assms(1) q this assms(6)]
  show ?thesis by (simp add: OrchestratorProxy_Observe_def OrchestratorProxy_call_def)
qed

lemma consolidate_remote:
  fixes rt :: "'b runtime"
  assumes "wire_codec (budget_codec rt) fitb" and "serves_orchestrator rt pc o_impl (op_client p)"
    and "error_fit rt fitb (snd (orc_Consolidate o_impl s))"
  shows "OrchestratorProxy_Consolidate rt p s = remote_error rt (orc_Consolidate o_impl s)"
proof -
  have "op_client p s \<lparr> Port = PortOrchestrator, Method = methodConsolidate, JsonPayload = print_json JNull \<rparr> =
      error_reply rt (orc_Consolidate o_impl s)"
    using assms(2) carriable_error_reply [OF assms(3)]
    by (simp add: serves_orchestrator_def orchestratorServer_Call_def orchestrator_method_defs valid_utf8_ascii)
  from call_error_reply [where client = "op_client p" and s = s, OF assms(1) encodeArgs_none this assms(3)]
  show ?thesis by (simp add: OrchestratorProxy_Consolidate_def OrchestratorProxy_call_def)
qed

lemma orchestratorServer_in_band: "\<not> isl (snd (orchestratorServer_Call rt pc o_impl s env))"
  by (simp add: orchestratorServer_Call_def encodeArgs_def split: prod.split sum.split)

text \<open>Whatever the connection does, the context degrades to the empty text.\<close>

lemma context_degrades:
  assumes "snd (OrchestratorProxy_call rt p s methodContext []) = Inl err"
  shows "OrchestratorProxy_Context rt p s = (fst (OrchestratorProxy_call rt p s methodContext []), [])"
  using assms by (cases "OrchestratorProxy_call rt p s methodContext []") (auto simp: OrchestratorProxy_Context_def)

end
