(* ===== verification/Router.thy ===== *)
theory Router
  imports Memory Orchestrator
begin

text \<open>
  \<^verbatim>\<open>plugin_router.go\<close>: the process-wide claims that give each gRPC server one
  router, and the router that dispatches the Plugin service by port.

  A server is named by a number, the identity behind its weak pointer; a weak pointer of a
  collected server never equals one of a later server, so names are not reused. Each locked
  section is one step, as \<^verbatim>\<open>Router_Threads\<close> justifies, and a run is an arbitrary
  sequence of steps of any callers.
\<close>

section \<open>Claims\<close>

type_synonym server = nat

record pluginClaims =
  servers :: "server list"
  cleanups :: "server list"

definition claim :: "pluginClaims \<Rightarrow> server \<Rightarrow> pluginClaims \<times> 'b go_error option" where
  "claim c server =
     (if server \<in> set (servers c) then (c, Some (Sentinel ErrPluginServiceRegistered))
      else (c\<lparr>servers := server # servers c, cleanups := server # cleanups c\<rparr>, None))"

definition release :: "pluginClaims \<Rightarrow> server \<Rightarrow> pluginClaims" where
  "release c key = c\<lparr>servers := removeAll key (servers c)\<rparr>"

section \<open>The router\<close>

record ('s, 'b) PluginRouter =
  ports :: "string \<rightharpoonup> ('s, 'b) plugin_server"

definition new_router :: "('s, 'b) PluginRouter" where
  "new_router = \<lparr> ports = Map.empty \<rparr>"

definition add ::
  "'b runtime \<Rightarrow> ('s, 'b) PluginRouter \<Rightarrow> string \<Rightarrow> ('s, 'b) plugin_server
   \<Rightarrow> ('s, 'b) PluginRouter \<times> 'b go_error option" where
  "add rt r port skeleton =
     (case ports r port of
        Some _ \<Rightarrow> (r, Some (Errorf (sentinel_text ErrPortRegistered @ '': '' @ port) [Sentinel ErrPortRegistered]))
      | None \<Rightarrow> (r\<lparr>ports := (ports r)(port \<mapsto> skeleton)\<rparr>, None))"

definition router_Call :: "'b runtime \<Rightarrow> ('s, 'b) PluginRouter \<Rightarrow> ('s, 'b) plugin_server" where
  "router_Call rt r s env =
     (case ports r (Port env) of
        None \<Rightarrow> (s, fail rt (UnknownPortError (Port env)))
      | Some skeleton \<Rightarrow> skeleton s env)"

definition RegisterMemorySkeleton ::
  "'b runtime \<Rightarrow> ('n, 'q, 'g) memory_codecs \<Rightarrow> ('s, 'b) PluginRouter \<Rightarrow> ('s, 'b, 'n, 'q, 'g) memory
   \<Rightarrow> ('s, 'b) PluginRouter \<times> 'b go_error option" where
  "RegisterMemorySkeleton rt mt r impl = add rt r PortMemory (memoryServer_Call rt mt impl)"

definition RegisterOrchestratorSkeleton ::
  "'b runtime \<Rightarrow> 'p codec \<Rightarrow> ('s, 'b) PluginRouter \<Rightarrow> ('s, 'b, 'p) orchestrator
   \<Rightarrow> ('s, 'b) PluginRouter \<times> 'b go_error option" where
  "RegisterOrchestratorSkeleton rt pc r impl = add rt r PortOrchestrator (orchestratorServer_Call rt pc impl)"

section \<open>Routers on servers\<close>

text \<open>
  The world of \<^verbatim>\<open>NewPluginRouter\<close>: the claims, the servers ever created and
  those still reachable, the calls that hold a claim and have not registered yet, how often each
  server's claim was granted and how often the Plugin service was registered on it. gRPC exits
  the process on a second registration.
\<close>

record world =
  claims :: pluginClaims
  created :: "server list"
  live :: "server list"
  pending :: "server list"
  granted :: "server \<Rightarrow> nat"
  registrations :: "server \<Rightarrow> nat"

definition init_world :: world where
  "init_world = \<lparr> claims = \<lparr> servers = [], cleanups = [] \<rparr>, created = [], live = [], pending = [],
     granted = (\<lambda>_. 0), registrations = (\<lambda>_. 0) \<rparr>"

text \<open>
  A call of \<^verbatim>\<open>NewPluginRouter\<close> takes the claim under the lock of the claims and
  then registers the new router on the server, outside of it; other calls may come in between.
\<close>

definition take_claim :: "world \<Rightarrow> server \<Rightarrow> world \<times> 'b go_error option" where
  "take_claim w srv =
     (case claim (claims w) srv of
        (c, Some err) \<Rightarrow> (w\<lparr>claims := c\<rparr>, Some err)
      | (c, None) \<Rightarrow> (w\<lparr>claims := c, pending := srv # pending w,
                        granted := (granted w)(srv := Suc (granted w srv))\<rparr>, None))"

definition register_router :: "world \<Rightarrow> server \<Rightarrow> world \<times> ('s, 'b) PluginRouter" where
  "register_router w srv =
     (w\<lparr>pending := remove1 srv (pending w),
        registrations := (registrations w)(srv := Suc (registrations w srv))\<rparr>, new_router)"

definition NewPluginRouter :: "world \<Rightarrow> server \<Rightarrow> world \<times> ('b, ('s, 'b) PluginRouter) result" where
  "NewPluginRouter w srv =
     (case take_claim w srv of
        (w', Some err) \<Rightarrow> (w', Inl err)
      | (w', None) \<Rightarrow> (case register_router w' srv of (w'', router) \<Rightarrow> (w'', Inr router)))"

inductive world_step :: "world \<Rightarrow> world \<Rightarrow> bool" where
  create: "srv \<notin> set (created w) \<Longrightarrow>
     world_step w (w\<lparr>created := srv # created w, live := srv # live w\<rparr>)"
| claiming: "srv \<in> set (live w) \<Longrightarrow> take_claim w srv = (w', err :: unit go_error option) \<Longrightarrow> world_step w w'"
| registering: "srv \<in> set (pending w) \<Longrightarrow> register_router w srv = (w', r :: (unit, unit) PluginRouter) \<Longrightarrow>
     world_step w w'"
| collecting: "srv \<notin> set (pending w) \<Longrightarrow> world_step w (w\<lparr>live := removeAll srv (live w)\<rparr>)"
| cleaning: "srv \<notin> set (live w) \<Longrightarrow> srv \<in> set (cleanups (claims w)) \<Longrightarrow>
     world_step w (w\<lparr>claims := (release (claims w) srv)\<lparr>cleanups := removeAll srv (cleanups (claims w))\<rparr>\<rparr>)"

inductive_cases world_stepE: "world_step w w'"

abbreviation reachable :: "world \<Rightarrow> bool" where
  "reachable \<equiv> world_step\<^sup>*\<^sup>* init_world"

section \<open>Lemmas on claims\<close>

text \<open>
  The invariant: a claim that was granted stays until its server is gone, and every grant is
  either waiting for its registration or registered.
\<close>

definition world_ok :: "world \<Rightarrow> bool" where
  "world_ok w \<longleftrightarrow>
     set (live w) \<subseteq> set (created w)
     \<and> set (pending w) \<subseteq> set (live w)
     \<and> set (servers (claims w)) = set (cleanups (claims w))
     \<and> set (servers (claims w)) \<subseteq> set (created w)
     \<and> (\<forall>srv. granted w srv = registrations w srv + count_list (pending w) srv)
     \<and> (\<forall>srv. granted w srv \<le> 1)
     \<and> (\<forall>srv. granted w srv = 1 \<longrightarrow> srv \<in> set (created w))
     \<and> (\<forall>srv. granted w srv = 1 \<and> srv \<in> set (live w) \<longrightarrow> srv \<in> set (servers (claims w)))
     \<and> (\<forall>srv. srv \<in> set (servers (claims w)) \<longrightarrow> granted w srv = 1)"

lemma world_ok_init: "world_ok init_world"
  by (simp add: world_ok_def init_world_def)

lemma world_ok_claim:
  assumes "world_ok w" and "srv \<in> set (live w)" and "take_claim w srv = (w', err)"
  shows "world_ok w'"
proof (cases "srv \<in> set (servers (claims w))")
  case True
  with assms show ?thesis by (simp add: take_claim_def claim_def)
next
  case False
  then have "granted w srv = 0"
    using assms(1,2) le_eq_less_or_eq [of "granted w srv" 1] by (auto simp: world_ok_def)
  with False assms show ?thesis by (auto simp: take_claim_def claim_def world_ok_def split: if_splits)
qed

lemma world_ok_register:
  assumes "world_ok w" and "srv \<in> set (pending w)" and "register_router w srv = (w', r)"
  shows "world_ok w'"
proof -
  have "0 < count_list (pending w) srv" using assms(2) count_list_0_iff [of "pending w" srv] by blast
  moreover have "set (remove1 srv (pending w)) \<subseteq> set (live w)"
    using assms(1) set_remove1_subset [of srv "pending w"] unfolding world_ok_def by blast
  ultimately show ?thesis using assms by (auto simp: register_router_def world_ok_def)
qed

lemma world_ok_step: "world_step w w' \<Longrightarrow> world_ok w \<Longrightarrow> world_ok w'"
proof (induction rule: world_step.induct)
  case (claiming srv w w' err)
  then show ?case by (blast intro: world_ok_claim)
next
  case (registering srv w w' r)
  then show ?case by (blast intro: world_ok_register)
qed (auto simp: world_ok_def release_def)

lemma world_ok_reachable: "reachable w \<Longrightarrow> world_ok w"
  by (induction rule: rtranclp_induct) (auto intro: world_ok_init world_ok_step)

lemma claimed_iff:
  assumes "world_ok w" and "srv \<in> set (live w)"
  shows "srv \<in> set (servers (claims w)) \<longleftrightarrow> granted w srv = 1"
  using assms unfolding world_ok_def by blast

section \<open>Dispatch\<close>

lemma router_Call_new [simp]: "router_Call rt new_router s env = (s, fail rt (UnknownPortError (Port env)))"
  by (simp add: router_Call_def new_router_def)

lemma add_taken:
  "ports r port \<noteq> None \<Longrightarrow> \<exists>err. add rt r port call = (r, Some err) \<and> errors_is ErrPortRegistered err"
  by (auto simp: add_def)

lemma add_free: "ports r port = None \<Longrightarrow> add rt r port call = (r\<lparr>ports := (ports r)(port \<mapsto> call)\<rparr>, None)"
  by (simp add: add_def)

text \<open>
  What a router may rely on in a skeleton of a port: it answers every envelope in band, and
  turns away an envelope for another port without touching the state behind it.
\<close>

locale skeleton =
  fixes rt :: "'b runtime" and port :: string and call :: "('s, 'b) plugin_server"
  assumes in_band: "\<not> isl (snd (call s env))"
    and foreign: "Port env \<noteq> port \<Longrightarrow> call s env = (s, fail rt (UnknownPortError (Port env)))"
begin

lemma dispatched:
  assumes "add rt r port call = (r', None)"
  shows "router_Call rt r' s env = (if Port env = port then call s env else router_Call rt r s env)"
  using assms by (auto simp: add_def router_Call_def split: option.splits)

lemma alone: "router_Call rt (fst (add rt new_router port call)) = call"
proof (intro ext)
  fix s env
  have "add rt new_router port call = (fst (add rt new_router port call), None)"
    by (simp add: add_def new_router_def)
  from dispatched [OF this] show "router_Call rt (fst (add rt new_router port call)) s env = call s env"
    by (simp add: foreign)
qed

lemma added_in_band:
  assumes "\<And>s env. \<not> isl (snd (router_Call rt r s env))"
  shows "\<not> isl (snd (router_Call rt (fst (add rt r port call)) s env))"
proof (cases "ports r port")
  case None
  from dispatched [OF add_free [OF None]] show ?thesis by (simp add: add_free [OF None] assms in_band)
qed (simp add: add_def assms)

end

interpretation memory_skeleton: skeleton rt PortMemory "memoryServer_Call rt mt m" for rt mt m
  by unfold_locales (rule memoryServer_in_band, simp add: memoryServer_Call_def)

interpretation orchestrator_skeleton: skeleton rt PortOrchestrator "orchestratorServer_Call rt pc o_impl" for rt pc o_impl
  by unfold_locales (rule orchestratorServer_in_band, simp add: orchestratorServer_Call_def)

text \<open>The routers that the \<^verbatim>\<open>Register*Skeleton\<close> functions build.\<close>

inductive built ::
  "'b runtime \<Rightarrow> ('n, 'q, 'g) memory_codecs \<Rightarrow> 'p codec \<Rightarrow> ('s, 'b) PluginRouter \<Rightarrow> bool" for rt mt pc where
  fresh: "built rt mt pc new_router"
| memory: "built rt mt pc r \<Longrightarrow> built rt mt pc (fst (RegisterMemorySkeleton rt mt r m))"
| orchestrator: "built rt mt pc r \<Longrightarrow> built rt mt pc (fst (RegisterOrchestratorSkeleton rt pc r o_impl))"

lemma built_in_band: "built rt mt pc r \<Longrightarrow> \<not> isl (snd (router_Call rt r s env))"
proof (induction arbitrary: s env rule: built.induct)
  case (memory r m)
  show ?case
    unfolding RegisterMemorySkeleton_def by (rule memory_skeleton.added_in_band) (rule memory.IH)
next
  case (orchestrator r o_impl)
  show ?case
    unfolding RegisterOrchestratorSkeleton_def
    by (rule orchestrator_skeleton.added_in_band) (rule orchestrator.IH)
qed simp

lemma ports_differ [simp]: "PortMemory \<noteq> PortOrchestrator" "PortOrchestrator \<noteq> PortMemory"
  by (simp_all add: PortMemory_def PortOrchestrator_def)

lemma memory_registered:
  assumes "RegisterMemorySkeleton rt mt r m = (r', None)"
  shows "serves_memory rt mt m (router_Call rt r')"
  using memory_skeleton.dispatched [OF assms [unfolded RegisterMemorySkeleton_def]]
  by (simp add: serves_memory_def)

lemma orchestrator_registered:
  assumes "RegisterOrchestratorSkeleton rt pc r o_impl = (r', None)"
  shows "serves_orchestrator rt pc o_impl (router_Call rt r')"
  using orchestrator_skeleton.dispatched [OF assms [unfolded RegisterOrchestratorSkeleton_def]]
  by (simp add: serves_orchestrator_def)

lemma memory_kept:
  assumes "serves_memory rt mt m (router_Call rt r)" and "RegisterOrchestratorSkeleton rt pc r o_impl = (r', None)"
  shows "serves_memory rt mt m (router_Call rt r')"
  using assms(1) orchestrator_skeleton.dispatched [OF assms(2) [unfolded RegisterOrchestratorSkeleton_def]]
  by (simp add: serves_memory_def)

lemma orchestrator_kept:
  assumes "serves_orchestrator rt pc o_impl (router_Call rt r)" and "RegisterMemorySkeleton rt mt r m = (r', None)"
  shows "serves_orchestrator rt pc o_impl (router_Call rt r')"
  using assms(1) memory_skeleton.dispatched [OF assms(2) [unfolded RegisterMemorySkeleton_def]]
  by (simp add: serves_orchestrator_def)

section \<open>Properties\<close>

text \<open>
  C10: in every run of callers that create servers, make routers on them and drop them, with the
  garbage collector and its cleanups running at any point, the Plugin service is registered at
  most once on each server, so gRPC never exits the process over a second registration; a router
  is granted to a live server that has none, and refused, with nothing changed, to one whose
  claim is taken.
\<close>

theorem one_router_per_server:
  assumes "reachable w"
  shows "registrations w srv \<le> 1
    \<and> (srv \<in> set (live w) \<longrightarrow>
        (case NewPluginRouter w srv :: world \<times> ('b, ('s, 'b) PluginRouter) result of
           (w', Inl err) \<Rightarrow> w' = w \<and> granted w srv = 1 \<and> err = Sentinel ErrPluginServiceRegistered
         | (w', Inr router) \<Rightarrow> granted w srv = 0 \<and> router = new_router \<and> registrations w' srv = 1))"
proof -
  note ok = world_ok_reachable [OF assms]
  then have le: "granted w srv \<le> 1" and sum: "granted w srv = registrations w srv + count_list (pending w) srv"
    unfolding world_ok_def by blast+
  show ?thesis
    using le sum claimed_iff [OF ok, of srv]
    by (auto simp: NewPluginRouter_def take_claim_def claim_def register_router_def)
qed

definition one_server :: world where
  "one_server = init_world\<lparr>created := [0], live := [0]\<rparr>"

theorem one_router_per_server_witness:
  "registrations (fst (NewPluginRouter one_server 0 :: world \<times> (string, (nat, string) PluginRouter) result)) 0 = 1"
proof -
  have "world_step init_world (init_world\<lparr>created := 0 # created init_world, live := 0 # live init_world\<rparr>)"
    by (rule world_step.create) (simp add: init_world_def)
  moreover have "init_world\<lparr>created := 0 # created init_world, live := 0 # live init_world\<rparr> = one_server"
    by (simp add: one_server_def init_world_def)
  ultimately have "reachable one_server" by simp
  from one_router_per_server [OF this, of 0, where 'b = string and 's = nat] show ?thesis
    by (simp add: one_server_def init_world_def split: prod.splits sum.splits)
qed

text \<open>
  A port is served by the first skeleton registered on it: a second registration is refused
  with the port error and leaves the router as it was; a registration on a free port succeeds,
  from then on envelopes for the port reach that skeleton, and every other envelope is answered
  as before.
\<close>

theorem first_registration_serves:
  "case ports r port of
     Some _ \<Rightarrow> (\<exists>err. add rt r port call = (r, Some err) \<and> errors_is ErrPortRegistered err)
   | None \<Rightarrow> (\<exists>r'. add rt r port call = (r', None)
       \<and> (\<forall>s env. router_Call rt r' s env = (if Port env = port then call s env else router_Call rt r s env)))"
  by (auto simp: add_def router_Call_def split: option.split)

text \<open>
  A router with a single skeleton is that skeleton: on every envelope, for its port or
  another, known method or not, it gives the same answer and does the same to the state.
\<close>

theorem single_skeleton_router:
  "router_Call rt (fst (RegisterMemorySkeleton rt mt new_router m)) = memoryServer_Call rt mt m
   \<and> router_Call rt (fst (RegisterOrchestratorSkeleton rt pc new_router o_impl)) = orchestratorServer_Call rt pc o_impl"
  by (simp add: RegisterMemorySkeleton_def RegisterOrchestratorSkeleton_def
      memory_skeleton.alone orchestrator_skeleton.alone)

text \<open>
  A router built by registering skeletons answers every envelope in band: an unknown port, an
  unknown method, a payload that does not decode and a failing implementation all come back as a
  result envelope, never as an RPC error.
\<close>

theorem router_answers_in_band:
  assumes "built rt mt pc r"
  shows "\<exists>res. snd (router_Call rt r s env) = Inr res"
  using built_in_band [OF assms, of s env] by (cases "snd (router_Call rt r s env)") auto

theorem router_answers_in_band_witness:
  "\<exists>res. snd (router_Call sample_runtime
      (fst (RegisterMemorySkeleton sample_runtime sample_codecs new_router sample_memory)) []
      \<lparr> Port = ''memory'', Method = ''Forget'', JsonPayload = '']['' \<rparr>) = Inr res"
  by (rule router_answers_in_band [OF built.memory [OF built.fresh]])

end
