(* ===== verification/Wire_Types.thy ===== *)
theory Wire_Types
  imports Router
begin

text \<open>
  The typing of the answers. A string field of a proto3 message is UTF-8, and gRPC fails a call
  whose answer is not, so what the skeletons put into \<^verbatim>\<open>Error\<close> must be. It holds for every
  error the transport makes itself, whatever the request holds, and so it is for the implementations
  behind the skeletons alone to keep.
\<close>

section \<open>Texts of the transport's own errors\<close>

lemma hex_char_ascii: "d < 16 \<Longrightarrow> byte (hex_char d) < 0x80"
  by (cases "d < 10") (simp_all add: hex_char_def)

lemma hex_digits_ascii: "list_all (\<lambda>c. byte c < 0x80) (hex_digits n r)"
  by (induction n arbitrary: r) (simp_all add: hex_char_ascii)

lemma utf8_size_one: "utf8_size (c # s) = 1 \<Longrightarrow> byte c < 0x80"
  by (rule ccontr) (auto simp: utf8_size.simps(2) Let_def split: list.splits if_splits)

lemma mark_ascii [simp]: "byte BSL < 0x80" "byte DQ < 0x80" "byte LF < 0x80"
  by (simp_all add: mark_defs)

lemma quote_ascii_ascii: "byte c < 0x80 \<Longrightarrow> list_all (\<lambda>c. byte c < 0x80) (quote_ascii c)"
  by (simp add: quote_ascii_def hex_digits_ascii)

lemma valid_utf8_hex [simp]: "valid_utf8 (hex_digits n r)"
  by (rule valid_utf8_ascii [OF hex_digits_ascii])

lemma quote_rune_valid: "0 < utf8_size s \<Longrightarrow> valid_utf8 (quote_rune p (take (utf8_size s) s))"
  using valid_utf8_seq_append [of s "[]"] by (simp add: quote_rune_def Let_def)

lemma quote_runes_valid: "valid_utf8 (quote_runes p s)"
proof (induction p s rule: quote_runes.induct)
  case (1 p s)
  show ?case
  proof (cases s)
    case Nil
    then show ?thesis by (simp add: quote_runes.simps)
  next
    case (Cons c t)
    consider "utf8_size s = 0" | "utf8_size s = 1" | "1 < utf8_size s" by linarith
    then show ?thesis
    proof cases
      case 1
      then show ?thesis using "1.IH"(1) Cons by (subst quote_runes.simps) (simp add: valid_utf8_append)
    next
      case 2
      then have "list_all (\<lambda>c. byte c < 0x80) (quote_ascii c)"
        using Cons utf8_size_one by (intro quote_ascii_ascii) simp
      then show ?thesis
        using 2 "1.IH"(2) Cons by (subst quote_runes.simps) (simp add: valid_utf8_append valid_utf8_ascii)
    next
      case 3
      then show ?thesis
        using "1.IH"(3) Cons quote_rune_valid [of s p] by (subst quote_runes.simps) (simp add: valid_utf8_append)
    qed
  qed
qed

lemma go_quote_valid [simp]: "valid_utf8 (go_quote rt s)"
  using quote_runes_valid [of "is_print rt" s] by (simp add: go_quote_def valid_utf8_append valid_utf8_ascii)

lemma show_nat_valid [simp]: "valid_utf8 (show_nat n)"
proof (rule valid_utf8_ascii)
  show "list_all (\<lambda>c. byte c < 0x80) (show_nat n)"
    using show_nat_digit [of _ n] by (fastforce simp: list_all_iff is_digit_def)
qed

lemma own_texts [simp]:
  "valid_utf8 (error_text rt (UnknownPortError port))"
  "valid_utf8 (error_text rt (UnknownMethodError service mth)) \<longleftrightarrow> valid_utf8 (service @ ''.'' @ mth)"
  "valid_utf8 (error_text rt (JsonError e))"
  "valid_utf8 (error_text rt (ArgCountError want got))"
  by (simp_all add: valid_utf8_append valid_utf8_ascii del: append_assoc) (cases e; simp add: valid_utf8_ascii)

lemma wrap_text [simp]: "valid_utf8 msg \<Longrightarrow> valid_utf8 (error_text rt (wrap rt msg e)) \<longleftrightarrow> valid_utf8 (error_text rt e)"
  by (simp add: wrap_def valid_utf8_append)

lemma decode_each_text: "decode_each rt i ds raws r = Inl err \<Longrightarrow> valid_utf8 (error_text rt err)"
  by (induction rt i ds raws r rule: decode_each.induct) (auto simp: valid_utf8_append valid_utf8_ascii split: option.splits)

lemma decodeArgs_text:
  assumes "decodeArgs rt data ds r = Inl err"
  shows "valid_utf8 (error_text rt err)"
proof (cases "decode_raws data :: ('a, json list) result")
  case (Inl e)
  then have "e = JsonError SyntaxError \<or> e = JsonError DecodeError"
    by (auto simp: decode_raws_def split: option.splits json.splits)
  with Inl assms show ?thesis by (auto simp: decodeArgs_def valid_utf8_ascii)
next
  case (Inr raw)
  with assms show ?thesis by (auto simp: decodeArgs_def decode_each_text simp del: error_text.simps split: if_splits)
qed

lemma encodeArgs_text: "encodeArgs vals = Inl err \<Longrightarrow> valid_utf8 (error_text rt err)"
  by (auto simp: encodeArgs_def simp del: error_text.simps split: option.splits if_splits)

section \<open>Well-typed servers\<close>

definition typed_server :: "('s, 'b) plugin_server \<Rightarrow> bool" where
  "typed_server call \<longleftrightarrow> (\<forall>s env. carriable_request env \<longrightarrow> carriable (snd (call s env)))"

text \<open>What an implementation has to keep: its errors have texts in UTF-8.\<close>

definition texts_ok :: "'b runtime \<Rightarrow> 's \<times> ('b, 'a) result \<Rightarrow> bool" where
  "texts_ok rt outcome = (case snd outcome of Inl err \<Rightarrow> valid_utf8 (error_text rt err) | Inr v \<Rightarrow> True)"

definition error_ok :: "'b runtime \<Rightarrow> 's \<times> 'b go_error option \<Rightarrow> bool" where
  "error_ok rt outcome = (case snd outcome of Some err \<Rightarrow> valid_utf8 (error_text rt err) | None \<Rightarrow> True)"

definition memory_texts :: "'b runtime \<Rightarrow> ('s, 'b, 'n, 'q, 'g) memory \<Rightarrow> bool" where
  "memory_texts rt m \<longleftrightarrow>
     (\<forall>s key depth. texts_ok rt (mem_Recall m s key depth)) \<and> (\<forall>s n. error_ok rt (mem_Record m s n))
     \<and> (\<forall>s q. texts_ok rt (mem_Search m s q)) \<and> (\<forall>s a b rel. error_ok rt (mem_Links m s a b rel))
     \<and> (\<forall>s a b. error_ok rt (mem_Unlink m s a b))"

definition orchestrator_texts :: "'b runtime \<Rightarrow> ('s, 'b, 'p) orchestrator \<Rightarrow> bool" where
  "orchestrator_texts rt o_impl \<longleftrightarrow>
     (\<forall>s p reply. error_ok rt (orc_Observe o_impl s p reply)) \<and> (\<forall>s. error_ok rt (orc_Consolidate o_impl s))"

lemma error_reply_typed: "error_ok rt outcome \<Longrightarrow> carriable (snd (error_reply rt outcome))"
  by (cases outcome; cases "snd outcome") (simp_all add: error_reply_def error_ok_def)

lemma unknown_method_typed:
  "valid_utf8 service \<Longrightarrow> carriable_request env \<Longrightarrow>
     valid_utf8 (service @ CHR ''.'' # Method env)"
  by (simp add: carriable_request_def valid_utf8_append)

lemma encoded_typed:
  "carriable (snd (case encodeArgs vals of Inl err \<Rightarrow> (s, fail rt err) | Inr out \<Rightarrow> (s, ok_envelope out)))"
  by (cases "encodeArgs vals :: ('a, string) result") (simp_all add: encodeArgs_text del: error_text.simps)

text \<open>The two shapes of a method: decode the arguments, and encode the result.\<close>

lemma decoded_typed:
  "(\<And>a. carriable (snd (k a))) \<Longrightarrow>
     carriable (snd (case decodeArgs rt data ds r of Inl err \<Rightarrow> (s, fail rt err) | Inr a \<Rightarrow> k a))"
  by (cases "decodeArgs rt data ds r") (simp_all add: decodeArgs_text del: error_text.simps)

lemma result_typed:
  "texts_ok rt outcome \<Longrightarrow>
     carriable (snd (case outcome of (s', Inl err) \<Rightarrow> (s', fail rt err)
       | (s', Inr v) \<Rightarrow> (case encodeArgs (f v) of Inl err \<Rightarrow> (s', fail rt err) | Inr out \<Rightarrow> (s', ok_envelope out))))"
  by (cases outcome; cases "snd outcome") (simp_all add: texts_ok_def encoded_typed del: error_text.simps)

lemma memory_typed:
  assumes "memory_texts rt m"
  shows "typed_server (memoryServer_Call rt mt m)"
proof -
  have "carriable (snd (memoryServer_recall rt mt m s env))" "carriable (snd (memoryServer_record rt mt m s env))"
    "carriable (snd (memoryServer_search rt mt m s env))" "carriable (snd (memoryServer_links rt m s env))"
    "carriable (snd (memoryServer_unlink rt m s env))" for s env
    unfolding memoryServer_recall_def memoryServer_record_def memoryServer_search_def memoryServer_links_def
      memoryServer_unlink_def
    using assms
    by (auto simp: memory_texts_def simp del: error_text.simps intro!: decoded_typed result_typed error_reply_typed)
  moreover have "valid_utf8 PortMemory" by (simp add: PortMemory_def valid_utf8_ascii)
  ultimately show ?thesis
    by (simp add: typed_server_def memoryServer_Call_def unknown_method_typed del: error_text.simps)
qed

lemma orchestrator_typed:
  assumes "orchestrator_texts rt o_impl"
  shows "typed_server (orchestratorServer_Call rt pc o_impl)"
proof -
  have "carriable (snd (case orc_Context o_impl s of (s', text) \<Rightarrow>
      (case encodeArgs [enc string_codec text] of Inl err \<Rightarrow> (s', fail rt err) | Inr out \<Rightarrow> (s', ok_envelope out))))" for s
    by (cases "orc_Context o_impl s") (simp add: encoded_typed)
  moreover have "carriable (snd (case decodeArgs rt (JsonPayload env) (observe_dests pc) \<lparr> ObPrompt = zero_val pc, ObReply = [] \<rparr> of
      Inl err \<Rightarrow> (s, fail rt err) | Inr a \<Rightarrow> error_reply rt (orc_Observe o_impl s (ObPrompt a) (ObReply a))))" for s and env :: method_envelope
    using assms by (intro decoded_typed error_reply_typed) (simp add: orchestrator_texts_def)
  moreover have "carriable (snd (error_reply rt (orc_Consolidate o_impl s)))" for s
    using assms by (intro error_reply_typed) (simp add: orchestrator_texts_def)
  moreover have "valid_utf8 PortOrchestrator" by (simp add: PortOrchestrator_def valid_utf8_ascii)
  ultimately show ?thesis
    by (simp add: typed_server_def orchestratorServer_Call_def unknown_method_typed del: error_text.simps)
qed

lemma add_typed:
  assumes "typed_server (router_Call rt r)" and "typed_server call"
  shows "typed_server (router_Call rt (fst (add rt r port call)))"
  using assms by (auto simp: typed_server_def router_Call_def add_def simp del: error_text.simps split: option.split)

text \<open>The routers whose implementations keep to it.\<close>

inductive well_spoken ::
  "'b runtime \<Rightarrow> ('n, 'q, 'g) memory_codecs \<Rightarrow> 'p codec \<Rightarrow> ('s, 'b) PluginRouter \<Rightarrow> bool" for rt mt pc where
  fresh: "well_spoken rt mt pc new_router"
| memory: "well_spoken rt mt pc r \<Longrightarrow> memory_texts rt m \<Longrightarrow> well_spoken rt mt pc (fst (RegisterMemorySkeleton rt mt r m))"
| orchestrator: "well_spoken rt mt pc r \<Longrightarrow> orchestrator_texts rt o_impl \<Longrightarrow>
    well_spoken rt mt pc (fst (RegisterOrchestratorSkeleton rt pc r o_impl))"

lemma well_spoken_typed: "well_spoken rt mt pc r \<Longrightarrow> typed_server (router_Call rt r)"
proof (induction rule: well_spoken.induct)
  case fresh
  show ?case by (simp add: typed_server_def del: error_text.simps)
next
  case (memory r m)
  then show ?case unfolding RegisterMemorySkeleton_def by (intro add_typed memory_typed)
next
  case (orchestrator r o_impl)
  then show ?case unfolding RegisterOrchestratorSkeleton_def by (intro add_typed orchestrator_typed)
qed

lemma well_spoken_built: "well_spoken rt mt pc r \<Longrightarrow> built rt mt pc r"
  by (induction rule: well_spoken.induct) (auto intro: built.intros)

section \<open>Property\<close>

text \<open>
  C25: a router never makes gRPC fail for its own part: whatever a well-typed request holds (any
  port, any method, any payload), the answer of a router over skeletons is a result envelope that
  is well typed, its error in UTF-8, provided that the texts of the errors of the implementations
  are; the errors of the transport itself always are.
\<close>

theorem answers_are_well_typed:
  assumes "well_spoken rt mt pc r" and "carriable_request env"
  shows "\<exists>res. snd (router_Call rt r s env) = Inr res \<and> valid_utf8 (ResError res)"
  using built_in_band [OF well_spoken_built [OF assms(1)], of s env] well_spoken_typed [OF assms(1)] assms(2)
  by (cases "snd (router_Call rt r s env)") (auto simp: typed_server_def carriable_def split: sum.splits)

theorem answers_are_well_typed_witness:
  "\<exists>res. snd (router_Call sample_runtime
      (fst (RegisterMemorySkeleton sample_runtime sample_codecs new_router sample_memory)) []
      \<lparr> Port = ''memory'', Method = ''Forget'', JsonPayload = [chr 255] \<rparr>) = Inr res \<and> valid_utf8 (ResError res)"
proof -
  have "memory_texts sample_runtime sample_memory"
    by (simp add: memory_texts_def texts_ok_def error_ok_def sample_memory_def wrap_def valid_utf8_ascii)
  then show ?thesis
    by (intro answers_are_well_typed [OF well_spoken.memory [OF well_spoken.fresh]])
      (simp_all add: carriable_request_def valid_utf8_ascii)
qed

end
