(* ===== verification/Locks.thy ===== *)
theory Locks
  imports Prelude "HOL-Library.Multiset"
begin

text \<open>
  Code under a \<^verbatim>\<open>sync.Mutex\<close> or a \<^verbatim>\<open>sync.RWMutex\<close>. A critical section
  is written statement by statement, each one a step on the variables the lock guards; goroutines
  interleave between the statements, and only the lock keeps them apart. The locale below says
  when such sections behave as single steps, which is how the other theories model them.
\<close>

section \<open>Critical sections\<close>

text \<open>
  A section is a tree of labelled statements: a statement changes the guarded variables and says
  how the section goes on, so that an early return is a branch that ends. Every branch is finite.
\<close>

datatype ('s, 'r) body =
    Return 'r
  | Stmt string "'s \<Rightarrow> 's \<times> ('s, 'r) body"

primrec run_body :: "('s, 'r) body \<Rightarrow> 's \<Rightarrow> 's \<times> 'r" where
  "run_body (Return r) = (\<lambda>s. (s, r))"
| "run_body (Stmt l f) = (\<lambda>s. case map_prod id run_body (f s) of (s', run) \<Rightarrow> run s')"

primrec read_only :: "('s, 'r) body \<Rightarrow> bool" where
  "read_only (Return r) \<longleftrightarrow> True"
| "read_only (Stmt l f) \<longleftrightarrow> (\<forall>s. fst (f s) = s \<and> snd (map_prod id read_only (f s)))"

text \<open>
  The calls around one lock: those that wait for it, the sections that run now, and what the
  finished calls returned, in the order in which they gave the lock back.
\<close>

record ('op, 's, 'r) lock_state =
  guarded :: 's
  waiting :: "'op list"
  inside :: "('op \<times> ('s, 'r) body) list"
  finished :: "('op \<times> 'r) list"

definition idle :: "'s \<Rightarrow> ('op, 's, 'r) lock_state" where
  "idle s = \<lparr> guarded = s, waiting = [], inside = [], finished = [] \<rparr>"

definition invoked :: "'op \<Rightarrow> ('op, 's, 'r) lock_state \<Rightarrow> ('op, 's, 'r) lock_state" where
  "invoked op st = st\<lparr>waiting := op # waiting st\<rparr>"

text \<open>
  An operation that is exclusive takes \<^verbatim>\<open>Lock\<close>, which needs the lock to be free; one
  that is not takes \<^verbatim>\<open>RLock\<close>, which needs it to be free of writers. Any waiting call
  may be the next to get the lock.
\<close>

inductive lock_step ::
  "('op \<Rightarrow> bool) \<Rightarrow> ('op \<Rightarrow> ('s, 'r) body) \<Rightarrow> ('op, 's, 'r) lock_state \<Rightarrow> ('op, 's, 'r) lock_state \<Rightarrow> bool"
  for excl body where
  lock: "op \<in> set (waiting st) \<Longrightarrow> excl op \<Longrightarrow> inside st = [] \<Longrightarrow>
     lock_step excl body st (st\<lparr>waiting := remove1 op (waiting st), inside := [(op, body op)]\<rparr>)"
| rlock: "op \<in> set (waiting st) \<Longrightarrow> \<not> excl op \<Longrightarrow> list_all (\<lambda>(x, b). \<not> excl x) (inside st) \<Longrightarrow>
     lock_step excl body st (st\<lparr>waiting := remove1 op (waiting st), inside := (op, body op) # inside st\<rparr>)"
| statement: "inside st = xs @ (op, Stmt l f) # ys \<Longrightarrow> f (guarded st) = (s', b) \<Longrightarrow>
     lock_step excl body st (st\<lparr>guarded := s', inside := xs @ (op, b) # ys\<rparr>)"
| unlock: "inside st = xs @ (op, Return r) # ys \<Longrightarrow>
     lock_step excl body st (st\<lparr>inside := xs @ ys, finished := finished st @ [(op, r)]\<rparr>)"

inductive_cases lock_stepE: "lock_step excl body st st'"

text \<open>A run of any number of goroutines: at any point a new call may come.\<close>

inductive monitor_step ::
  "('op \<Rightarrow> bool) \<Rightarrow> ('op \<Rightarrow> ('s, 'r) body) \<Rightarrow> ('op, 's, 'r) lock_state \<Rightarrow> ('op, 's, 'r) lock_state \<Rightarrow> bool"
  for excl body where
  invoke: "monitor_step excl body st (invoked op st)"
| proceed: "lock_step excl body st st' \<Longrightarrow> monitor_step excl body st st'"

abbreviation monitor_run ::
  "('op \<Rightarrow> bool) \<Rightarrow> ('op \<Rightarrow> ('s, 'r) body) \<Rightarrow> ('op, 's, 'r) lock_state \<Rightarrow> ('op, 's, 'r) lock_state \<Rightarrow> bool" where
  "monitor_run excl body \<equiv> (monitor_step excl body)\<^sup>*\<^sup>*"

text \<open>The calls one after the other, each as a single step.\<close>

fun seq_run :: "('op \<Rightarrow> 's \<Rightarrow> 's \<times> 'r) \<Rightarrow> 's \<Rightarrow> 'op list \<Rightarrow> 's \<times> ('op \<times> 'r) list" where
  "seq_run spec s [] = (s, [])"
| "seq_run spec s (op # ops) =
     (case spec op s of (s', r) \<Rightarrow> (case seq_run spec s' ops of (s'', rs) \<Rightarrow> (s'', (op, r) # rs)))"

lemma seq_run_snoc:
  "seq_run spec s ops = (s', rs) \<Longrightarrow> spec op s' = (s'', r) \<Longrightarrow> seq_run spec s (ops @ [op]) = (s'', rs @ [(op, r)])"
  by (induction ops arbitrary: s rs) (auto split: prod.splits)

lemma seq_run_ops: "map fst (snd (seq_run spec s ops)) = ops"
  by (induction ops arbitrary: s) (simp_all add: case_prod_unfold)

lemma seq_run_result:
  "i < length ops \<Longrightarrow> snd (snd (seq_run spec s ops) ! i) = snd (spec (ops ! i) (fst (seq_run spec s (take i ops))))"
proof (induction ops arbitrary: s i)
  case (Cons op ops)
  then show ?case by (cases i) (simp_all add: case_prod_unfold)
qed simp

lemma seq_run_nth:
  assumes "seq_run spec s (map fst rs) = (s', rs)" and "i < length rs" and "rs ! i = (op, r)"
  shows "r = snd (spec op (fst (seq_run spec s (take i (map fst rs)))))"
  using seq_run_result [of i "map fst rs" spec s] assms by simp

lemma finished_grows: "monitor_run excl body st st' \<Longrightarrow> prefix (finished st) (finished st')"
proof (induction rule: rtranclp_induct)
  case (step st' st'')
  from step.hyps(2) have "prefix (finished st') (finished st'')"
    by (cases rule: monitor_step.cases) (auto simp: invoked_def elim!: lock_stepE)
  with step.IH show ?case by (rule prefix_order.trans)
qed simp

section \<open>Atomicity\<close>

text \<open>
  The guarded variables agree with the state \<open>s\<close> that the finished calls have left: either only
  readers are inside and nothing has changed, or one writer is, and what it has still to do leads
  where its operation leads from \<open>s\<close>.
\<close>

definition consistent ::
  "('op \<Rightarrow> bool) \<Rightarrow> ('op \<Rightarrow> 's \<Rightarrow> 's \<times> 'r) \<Rightarrow> ('s \<Rightarrow> bool) \<Rightarrow> 's \<Rightarrow> ('op, 's, 'r) lock_state \<Rightarrow> bool" where
  "consistent excl spec ok s st \<longleftrightarrow> ok s
     \<and> (list_all (\<lambda>(op, b). \<not> excl op \<and> read_only b \<and> run_body b s = spec op s) (inside st) \<and> guarded st = s
        \<or> (\<exists>op b. inside st = [(op, b)] \<and> excl op \<and> run_body b (guarded st) = spec op s))"

lemma consistent_free: "consistent excl spec ok s st \<Longrightarrow> inside st = [] \<Longrightarrow> guarded st = s"
  by (simp add: consistent_def)

lemma consistent_alone:
  assumes "consistent excl spec ok s st" and "(op, b) \<in> set (inside st)" and "excl op"
  shows "inside st = [(op, b)] \<and> run_body b (guarded st) = spec op s"
  using assms by (auto simp: consistent_def list_all_iff)

lemma consistent_shared:
  assumes "consistent excl spec ok s st" and "(op, b) \<in> set (inside st)" and "\<not> excl op"
  shows "list_all (\<lambda>(op, b). \<not> excl op \<and> read_only b \<and> run_body b s = spec op s) (inside st)" and "guarded st = s"
  using assms by (auto simp: consistent_def)

text \<open>
  What sections under one lock promise: run alone, each does what its operation says on every
  state of the invariant, which the operation keeps, and what runs under the read lock writes
  nothing.
\<close>

locale monitor =
  fixes excl :: "'op \<Rightarrow> bool" and body :: "'op \<Rightarrow> ('s, 'r) body"
    and spec :: "'op \<Rightarrow> 's \<Rightarrow> 's \<times> 'r" and ok :: "'s \<Rightarrow> bool"
  assumes run_op: "ok s \<Longrightarrow> run_body (body op) s = spec op s"
    and spec_ok: "ok s \<Longrightarrow> ok (fst (spec op s))"
    and readers: "\<not> excl op \<Longrightarrow> read_only (body op)"
begin

lemma reader_spec:
  assumes "ok s" and "\<not> excl op"
  shows "fst (spec op s) = s"
proof -
  have "read_only b \<Longrightarrow> fst (run_body b s) = s" for b :: "('s, 'r) body"
  proof (induction b)
    case (Stmt l f)
    obtain s' b where fs: "f s = (s', b)" by fastforce
    with Stmt.prems have "s' = s" "read_only b" by (metis fst_conv read_only.simps(2) snd_conv map_prod_simp)+
    moreover have "f s \<in> range f" by simp
    ultimately show ?case using Stmt.IH [of "f s" b] fs by simp
  qed simp
  from this [OF readers [OF assms(2)]] show ?thesis by (simp add: run_op [OF assms(1)])
qed

text \<open>
  The simulation: a step of the lock either shows nothing to the outside or is a whole operation
  from the state the finished calls have left.
\<close>

lemma statement_consistent:
  assumes "consistent excl spec ok s st" and "inside st = xs @ (op, Stmt l f) # ys" and "f (guarded st) = (s', b)"
  shows "consistent excl spec ok s (st\<lparr>guarded := s', inside := xs @ (op, b) # ys\<rparr>)"
proof (cases "excl op")
  case True
  with consistent_alone [OF assms(1), of op "Stmt l f"] assms(2)
  have "xs = []" "ys = []" "run_body (Stmt l f) (guarded st) = spec op s" by (auto simp: append_eq_Cons_conv)
  with True assms(1,3) show ?thesis by (simp add: consistent_def)
next
  case False
  note shared = consistent_shared [OF assms(1) _ False, of "Stmt l f"]
  have "read_only (Stmt l f)" "run_body (Stmt l f) s = spec op s" "guarded st = s"
    using shared assms(2) by auto
  moreover from this(1,3) assms(3) have "s' = s" "read_only b"
    by (metis fst_conv read_only.simps(2) snd_conv map_prod_simp)+
  ultimately show ?thesis using shared assms False by (auto simp: consistent_def)
qed

lemma unlock_consistent:
  assumes "consistent excl spec ok s st" and "inside st = xs @ (op, Return r) # ys"
  shows "\<exists>s'. spec op s = (s', r) \<and> consistent excl spec ok s' (st\<lparr>inside := xs @ ys, finished := fin\<rparr>)"
proof (cases "excl op")
  case True
  with consistent_alone [OF assms(1), of op "Return r"] assms(2)
  have "xs = []" "ys = []" "(guarded st, r) = spec op s" by (auto simp: append_eq_Cons_conv)
  moreover from this(3) have "ok (guarded st)" using spec_ok [of s op] assms(1) by (metis consistent_def fst_conv)
  ultimately show ?thesis by (intro exI [of _ "guarded st"]) (simp add: consistent_def)
next
  case False
  note shared = consistent_shared [OF assms(1) _ False, of "Return r"]
  then have "spec op s = (s, r)" using assms(2) by auto
  with shared assms show ?thesis by (intro exI [of _ s]) (auto simp: consistent_def)
qed

lemma simulation:
  assumes "lock_step excl body st st'" and "consistent excl spec ok s st"
  shows "finished st' = finished st \<and> consistent excl spec ok s st'
    \<or> (\<exists>op r s'. finished st' = finished st @ [(op, r)] \<and> spec op s = (s', r) \<and> consistent excl spec ok s' st'
        \<and> (excl op \<longrightarrow> inside st' = []))"
  using assms(1)
proof (cases rule: lock_step.cases)
  case (lock op)
  with assms(2) show ?thesis by (simp add: consistent_def run_op)
next
  case (rlock op)
  with assms(2) show ?thesis
    by (auto simp: consistent_def run_op readers list_all_iff)
next
  case (statement xs op l f ys s' b)
  with statement_consistent [OF assms(2)] show ?thesis by simp
next
  case (unlock xs op r ys)
  from this(2) have "excl op \<longrightarrow> xs @ ys = []"
    using consistent_alone [OF assms(2), of op "Return r"] by (auto simp: append_eq_Cons_conv)
  moreover obtain s' where "spec op s = (s', r)" "consistent excl spec ok s' st'"
    using unlock_consistent [OF assms(2) unlock(2)] unlock(1) by blast
  ultimately show ?thesis using unlock(1) by auto
qed

text \<open>
  So in every run the finished calls returned what they would have returned one after the other,
  in the order in which they gave the lock back.
\<close>

theorem linearizable:
  assumes "monitor_run excl body (idle s0) st" and "ok s0"
  shows "\<exists>s. seq_run spec s0 (map fst (finished st)) = (s, finished st) \<and> consistent excl spec ok s st"
  using assms(1)
proof (induction rule: rtranclp_induct)
  case base
  with assms(2) show ?case by (simp add: idle_def consistent_def)
next
  case (step st st')
  then obtain s where s: "seq_run spec s0 (map fst (finished st)) = (s, finished st)" "consistent excl spec ok s st"
    by blast
  from step.hyps(2) show ?case
  proof (cases rule: monitor_step.cases)
    case (invoke op)
    with s show ?thesis by (auto simp: invoked_def consistent_def)
  next
    case proceed
    from simulation [OF this s(2)] s(1) show ?thesis by (auto dest: seq_run_snoc)
  qed
qed

end

section \<open>Progress\<close>

text \<open>No call is lost or run twice.\<close>

definition calls :: "('op, 's, 'r) lock_state \<Rightarrow> 'op multiset" where
  "calls st = mset (waiting st) + mset (map fst (inside st)) + mset (map fst (finished st))"

lemma calls_kept: "lock_step excl body st st' \<Longrightarrow> calls st' = calls st"
  by (erule lock_stepE) (auto simp: calls_def)

lemma calls_kept_run: "(lock_step excl body)\<^sup>*\<^sup>* st st' \<Longrightarrow> calls st' = calls st"
  by (induction rule: rtranclp_induct) (simp_all add: calls_kept)

lemma lock_run:
  "lock_step excl body st st1 \<Longrightarrow> (lock_step excl body)\<^sup>*\<^sup>* st1 st2 \<Longrightarrow> (lock_step excl body)\<^sup>*\<^sup>* st st2"
  by (rule converse_rtranclp_into_rtranclp)

text \<open>Whoever holds the lock can finish, and then every waiting call can.\<close>

lemma section_ends:
  "inside st = (op, b) # ys \<Longrightarrow>
     \<exists>st'. (lock_step excl body)\<^sup>*\<^sup>* st st' \<and> inside st' = ys \<and> waiting st' = waiting st"
proof (induction b arbitrary: st)
  case (Return r)
  let ?st = "st\<lparr>inside := [] @ ys, finished := finished st @ [(op, r)]\<rparr>"
  have "lock_step excl body st ?st" using Return by (intro lock_step.unlock) simp
  then show ?case by (intro exI [of _ ?st]) auto
next
  case (Stmt l f)
  obtain s' b where fs: "f (guarded st) = (s', b)" by fastforce
  let ?st = "st\<lparr>guarded := s', inside := [] @ (op, b) # ys\<rparr>"
  have step: "lock_step excl body st ?st" by (intro lock_step.statement [where f = f]) (simp_all add: Stmt.prems fs)
  have "f (guarded st) \<in> range f" by simp
  from Stmt.IH [OF this, of b ?st] fs obtain st' where "(lock_step excl body)\<^sup>*\<^sup>* ?st st'" "inside st' = ys"
    "waiting st' = waiting st" by auto
  with lock_run [OF step] show ?case by blast
qed

lemma sections_end: "\<exists>st'. (lock_step excl body)\<^sup>*\<^sup>* st st' \<and> inside st' = [] \<and> waiting st' = waiting st"
proof (induction "inside st" arbitrary: st)
  case Nil
  then show ?case by fastforce
next
  case (Cons x ys)
  obtain op b where "x = (op, b)" by fastforce
  with Cons.hyps(2) have "inside st = (op, b) # ys" by simp
  from section_ends [OF this] obtain st1 where "(lock_step excl body)\<^sup>*\<^sup>* st st1" "inside st1 = ys"
    "waiting st1 = waiting st" by blast
  with Cons.hyps(1) [of st1] show ?case by (metis rtranclp_trans)
qed

lemma call_enters:
  assumes "op \<in> set (waiting st)" and "inside st = []"
  shows "lock_step excl body st (st\<lparr>waiting := remove1 op (waiting st), inside := [(op, body op)]\<rparr>)"
  using assms lock_step.lock [of op st excl body] lock_step.rlock [of op st excl body] by (cases "excl op") simp_all

lemma calls_end: "\<exists>st'. (lock_step excl body)\<^sup>*\<^sup>* st st' \<and> inside st' = [] \<and> waiting st' = []"
proof (induction "length (waiting st)" arbitrary: st rule: less_induct)
  case less
  obtain st1 where st1: "(lock_step excl body)\<^sup>*\<^sup>* st st1" "inside st1 = []" "waiting st1 = waiting st"
    using sections_end by blast
  show ?case
  proof (cases "waiting st1")
    case (Cons op ops)
    let ?st = "st1\<lparr>waiting := remove1 op (waiting st1), inside := [(op, body op)]\<rparr>"
    have "lock_step excl body st1 ?st" using Cons st1(2) by (intro call_enters) simp_all
    moreover have "length (waiting ?st) < length (waiting st)" using Cons st1(3) by simp
    from less [OF this] obtain st' where "(lock_step excl body)\<^sup>*\<^sup>* ?st st' \<and> inside st' = [] \<and> waiting st' = []" by blast
    ultimately show ?thesis using st1(1) by (meson lock_run rtranclp_trans)
  qed (use st1 in blast)
qed

lemma lock_run_monitor: "(lock_step excl body)\<^sup>*\<^sup>* st st' \<Longrightarrow> monitor_run excl body st st'"
  by (induction rule: rtranclp_induct) (auto intro: monitor_step.proceed rtranclp.rtrancl_into_rtrancl)

text \<open>Any calls can be made at once and run to their end.\<close>

lemma calls_complete:
  "\<exists>st. monitor_run excl body (idle s) st \<and> inside st = [] \<and> waiting st = [] \<and> mset (map fst (finished st)) = mset ops"
proof -
  have "monitor_run excl body (idle s) (idle s\<lparr>waiting := rev ops\<rparr>)"
  proof (induction ops rule: rev_induct)
    case Nil
    then show ?case by (simp add: idle_def)
  next
    case (snoc op ops)
    from monitor_step.invoke [of excl body "idle s\<lparr>waiting := rev ops\<rparr>" op] snoc show ?case
      by (simp add: invoked_def)
  qed
  moreover obtain st where st: "(lock_step excl body)\<^sup>*\<^sup>* (idle s\<lparr>waiting := rev ops\<rparr>) st" "inside st = []" "waiting st = []"
    using calls_end by blast
  moreover from this(1) have "monitor_run excl body (idle s\<lparr>waiting := rev ops\<rparr>) st" by (rule lock_run_monitor)
  moreover have "mset (map fst (finished st)) = mset ops"
    using calls_kept_run [OF st(1)] st(2,3) by (simp add: calls_def idle_def)
  ultimately show ?thesis by (meson rtranclp_trans)
qed

text \<open>A call that nothing stands in the way of.\<close>

lemma next_call:
  assumes "inside st = []" and "waiting st = []"
  shows "\<exists>st' r. (lock_step excl body)\<^sup>*\<^sup>* (invoked op st) st' \<and> inside st' = [] \<and> waiting st' = []
    \<and> finished st' = finished st @ [(op, r)]"
proof -
  obtain st' where st': "(lock_step excl body)\<^sup>*\<^sup>* (invoked op st) st'" "inside st' = []" "waiting st' = []"
    using calls_end by blast
  from finished_grows [OF lock_run_monitor [OF this(1)]] obtain rest where rest: "finished st' = finished st @ rest"
    by (auto simp: prefix_def invoked_def)
  from calls_kept_run [OF st'(1)] st'(2,3) assms have "mset (map fst rest) = {#op#}"
    by (simp add: calls_def invoked_def rest)
  then have "map fst rest = [op]" unfolding mset_single_iff .
  then obtain r where "rest = [(op, r)]" by fastforce
  with st' rest show ?thesis by blast
qed

lemma lone_call: "\<exists>st r. monitor_run excl body (idle s) st \<and> finished st = [(op, r)]"
proof -
  obtain st r where "(lock_step excl body)\<^sup>*\<^sup>* (invoked op (idle s)) st" "finished st = [(op, r)]"
    using next_call [of "idle s" excl body op] by (auto simp: idle_def)
  with monitor_step.invoke [of excl body "idle s" op] show ?thesis
    by (meson converse_rtranclp_into_rtranclp lock_run_monitor)
qed

end
