(* ===== verification/Router_Threads.thy ===== *)
theory Router_Threads
  imports Router Locks
begin

text \<open>
  The two locks of \<^verbatim>\<open>plugin_router.go\<close>: the mutex of the claims, and the
  \<^verbatim>\<open>RWMutex\<close> of a router, which the registrations write under and every incoming call
  reads under. A call holds the lock only for the lookup of its port; the skeleton runs after it.
\<close>

section \<open>Claims\<close>

datatype claims_op = Claim server | Release server

type_synonym 'b claims_body = "(pluginClaims, 'b go_error option) body"

fun claims_body :: "claims_op \<Rightarrow> 'b claims_body" where
  "claims_body (Claim server) =
     Stmt ''if _, claimed := c.servers[key]; claimed'' (\<lambda>c. (c,
       if server \<in> set (servers c) then Return (Some (Sentinel ErrPluginServiceRegistered))
       else Stmt ''c.servers[key] = struct{}{}'' (\<lambda>c. (c\<lparr>servers := server # servers c\<rparr>,
         Stmt ''runtime.AddCleanup(server, c.release, key)''
           (\<lambda>c. (c\<lparr>cleanups := server # cleanups c\<rparr>, Return None))))))"
| "claims_body (Release server) =
     Stmt ''delete(c.servers, key)'' (\<lambda>c. (c\<lparr>servers := removeAll server (servers c)\<rparr>, Return None))"

fun claims_spec :: "claims_op \<Rightarrow> pluginClaims \<Rightarrow> pluginClaims \<times> 'b go_error option" where
  "claims_spec (Claim server) c = claim c server"
| "claims_spec (Release server) c = (release c server, None)"

abbreviation exclusive :: "'a \<Rightarrow> bool" where
  "exclusive \<equiv> \<lambda>_. True"

interpretation claims_monitor: monitor exclusive claims_body claims_spec exclusive
proof unfold_locales
  fix op c
  show "run_body (claims_body op) c = claims_spec op c"
    by (cases op) (simp_all add: claim_def release_def)
qed simp_all

definition no_claims :: pluginClaims where
  "no_claims = \<lparr> servers = [], cleanups = [] \<rparr>"

text \<open>How often a list of finished calls grants a server, as long as nothing releases it.\<close>

definition grants :: "server \<Rightarrow> (claims_op \<times> 'b go_error option) list \<Rightarrow> nat" where
  "grants server fin = length (filter (\<lambda>(op, err). op = Claim server \<and> err = None) fin)"

lemma grants_spec:
  fixes fin :: "(claims_op \<times> 'b go_error option) list"
  shows "seq_run claims_spec c ops = (c', fin) \<Longrightarrow> Release server \<notin> set ops \<Longrightarrow>
     grants server fin = (if server \<notin> set (servers c) \<and> Claim server \<in> set ops then 1 else 0)"
proof (induction ops arbitrary: c fin)
  case (Cons op ops)
  obtain c1 and err :: "'b go_error option" where op: "claims_spec op c = (c1, err)" by fastforce
  with Cons.prems(1) obtain fin1 where fin: "seq_run claims_spec c1 ops = (c', fin1)" "fin = (op, err) # fin1"
    by (auto split: prod.splits)
  with Cons have "grants server fin1 = (if server \<notin> set (servers c1) \<and> Claim server \<in> set ops then 1 else 0)" by auto
  with op fin(2) Cons.prems(2) show ?case
    by (cases op) (auto simp: grants_def claim_def release_def split: if_splits)
qed (auto simp: grants_def)

section \<open>The ports of a router\<close>

datatype ('s, 'b) router_op = Add string "('s, 'b) plugin_server" | Lookup string

datatype ('s, 'b) router_answer = Added "'b go_error option" | Found "('s, 'b) plugin_server option"

fun router_excl :: "('s, 'b) router_op \<Rightarrow> bool" where
  "router_excl (Add port sk) \<longleftrightarrow> True"
| "router_excl (Lookup port) \<longleftrightarrow> False"

type_synonym ('s, 'b) router_body = "(('s, 'b) PluginRouter, ('s, 'b) router_answer) body"

fun router_body :: "('s, 'b) router_op \<Rightarrow> ('s, 'b) router_body" where
  "router_body (Add port sk) =
     Stmt ''if _, registered := r.ports[port]; registered'' (\<lambda>r. (r,
       if ports r port \<noteq> None
       then Return (Added (Some (Errorf (sentinel_text ErrPortRegistered @ '': '' @ port) [Sentinel ErrPortRegistered])))
       else Stmt ''r.ports[port] = skeleton''
         (\<lambda>r. (r\<lparr>ports := (ports r)(port \<mapsto> sk)\<rparr>, Return (Added None)))))"
| "router_body (Lookup port) =
     Stmt ''skeleton, ok := r.ports[env.Port]'' (\<lambda>r. (r, Return (Found (ports r port))))"

fun router_spec ::
  "'b runtime \<Rightarrow> ('s, 'b) router_op \<Rightarrow> ('s, 'b) PluginRouter \<Rightarrow> ('s, 'b) PluginRouter \<times> ('s, 'b) router_answer" where
  "router_spec rt (Add port sk) r = (case add rt r port sk of (r', err) \<Rightarrow> (r', Added err))"
| "router_spec rt (Lookup port) r = (r, Found (ports r port))"

interpretation router_monitor: monitor router_excl router_body "router_spec rt" exclusive for rt
proof unfold_locales
  fix op r
  show "run_body (router_body op) r = router_spec rt op r" by (cases op) (auto simp: add_def split: option.split)
next
  fix op :: "('a, 'b) router_op"
  show "\<not> router_excl op \<Longrightarrow> read_only (router_body op)" by (cases op) simp_all
qed simp_all

text \<open>The answer that a call gives once it has looked its port up.\<close>

definition dispatch ::
  "'b runtime \<Rightarrow> ('s, 'b) plugin_server option \<Rightarrow> ('s, 'b) plugin_server" where
  "dispatch rt found s env =
     (case found of None \<Rightarrow> (s, fail rt (UnknownPortError (Port env))) | Some sk \<Rightarrow> sk s env)"

lemma dispatch_is_Call: "dispatch rt (ports r (Port env)) s env = router_Call rt r s env"
  by (simp add: dispatch_def router_Call_def)

text \<open>The first registration of a port among the calls.\<close>

fun first_add :: "string \<Rightarrow> ('s, 'b) router_op list \<Rightarrow> ('s, 'b) plugin_server option" where
  "first_add port [] = None"
| "first_add port (Add p sk # ops) = (if p = port then Some sk else first_add port ops)"
| "first_add port (Lookup p # ops) = first_add port ops"

lemma first_add_append:
  "first_add port (xs @ ys) = (case first_add port xs of Some sk \<Rightarrow> Some sk | None \<Rightarrow> first_add port ys)"
  by (induction port xs rule: first_add.induct) auto

lemma seq_run_ports:
  "ports (fst (seq_run (router_spec rt) r ops)) port = (case ports r port of Some sk \<Rightarrow> Some sk | None \<Rightarrow> first_add port ops)"
proof (induction ops arbitrary: r)
  case (Cons op ops)
  then show ?case
    by (cases op) (auto simp: case_prod_unfold add_def split: option.split)
qed (simp split: option.split)

section \<open>Properties\<close>

text \<open>
  When any number of goroutines make routers on the same server at once, and nothing releases
  the server, exactly one of them is granted it, however their statements interleave.
\<close>

theorem one_claim_wins:
  assumes "monitor_run exclusive claims_body (idle no_claims) st" and "Release server \<notin> set (map fst (finished st))"
  shows "grants server (finished st) = (if Claim server \<in> set (map fst (finished st)) then 1 else 0)"
proof -
  obtain c where "seq_run claims_spec no_claims (map fst (finished st)) = (c, finished st)"
    using claims_monitor.linearizable [OF assms(1)] by blast
  from grants_spec [OF this assms(2)] show ?thesis by (simp add: no_claims_def)
qed

theorem one_claim_wins_witness:
  "\<exists>st :: (claims_op, pluginClaims, string go_error option) lock_state.
     monitor_run exclusive claims_body (idle no_claims) st \<and> mset (map fst (finished st)) = {#Claim 7, Claim 7#}
     \<and> grants 7 (finished st) = 1"
proof -
  obtain st :: "(claims_op, pluginClaims, string go_error option) lock_state" where
    st: "monitor_run exclusive claims_body (idle no_claims) st" "mset (map fst (finished st)) = mset [Claim 7, Claim 7]"
    using calls_complete by metis
  have "set (map fst (finished st)) = {Claim 7}" using mset_eq_setD [OF st(2)] by simp
  with one_claim_wins [OF st(1), of 7] st show ?thesis by (intro exI [of _ st]) simp
qed



end
