(* ===== verification/Sha256.thy ===== *)
theory Sha256
  imports Prelude
begin

text \<open>
  \<^verbatim>\<open>crypto/sha256\<close> and \<^verbatim>\<open>crypto/hmac\<close>, the two functions of the
  standard library behind the MAC of an announcement, as FIPS 180-4 and RFC 2104 give them.
\<close>

unbundle bit_operations_syntax

section \<open>SHA-256\<close>

type_synonym w32 = "32 word"
type_synonym digest_state = "w32 list"

text \<open>
  The constants of the rounds and the initial state, in decimal: the first 32 bits of the
  fractional parts of the cube roots of the first 64 primes, and of the square roots of the first
  eight.
\<close>

definition round_constants :: "w32 list" where
  "round_constants =
    [1116352408, 1899447441, 3049323471, 3921009573, 961987163, 1508970993,
     2453635748, 2870763221, 3624381080, 310598401, 607225278, 1426881987,
     1925078388, 2162078206, 2614888103, 3248222580, 3835390401, 4022224774,
     264347078, 604807628, 770255983, 1249150122, 1555081692, 1996064986,
     2554220882, 2821834349, 2952996808, 3210313671, 3336571891, 3584528711,
     113926993, 338241895, 666307205, 773529912, 1294757372, 1396182291,
     1695183700, 1986661051, 2177026350, 2456956037, 2730485921, 2820302411,
     3259730800, 3345764771, 3516065817, 3600352804, 4094571909, 275423344,
     430227734, 506948616, 659060556, 883997877, 958139571, 1322822218,
     1537002063, 1747873779, 1955562222, 2024104815, 2227730452, 2361852424,
     2428436474, 2756734187, 3204031479, 3329325298]"

definition initial_state :: digest_state where
  "initial_state =
    [1779033703, 3144134277, 1013904242, 2773480762, 1359893119, 2600822924,
     528734635, 1541459225]"

text \<open>Words and bytes, big end first.\<close>

definition word_of_bytes :: "char \<Rightarrow> char \<Rightarrow> char \<Rightarrow> char \<Rightarrow> w32" where
  "word_of_bytes a b c d = of_nat (((byte a * 256 + byte b) * 256 + byte c) * 256 + byte d)"

fun words_of_bytes :: "string \<Rightarrow> w32 list" where
  "words_of_bytes (a # b # c # d # bs) = word_of_bytes a b c d # words_of_bytes bs"
| "words_of_bytes _ = []"

fun be_bytes :: "nat \<Rightarrow> nat \<Rightarrow> string" where
  "be_bytes 0 n = []"
| "be_bytes (Suc k) n = be_bytes k (n div 256) @ [chr (n mod 256)]"

definition bytes_of_word :: "w32 \<Rightarrow> string" where
  "bytes_of_word w = be_bytes 4 (unat w)"

definition pad_message :: "string \<Rightarrow> string" where
  "pad_message m = m @ [chr 0x80] @ replicate ((119 - length m mod 64) mod 64) (chr 0) @ be_bytes 8 (length m * 8)"

text \<open>The message schedule and the rounds of one block.\<close>

definition next_word :: "w32 list \<Rightarrow> w32" where
  "next_word ws =
     (let n = length ws; x = ws ! (n - 15); y = ws ! (n - 2);
          s0 = word_rotr 7 x XOR word_rotr 18 x XOR drop_bit 3 x;
          s1 = word_rotr 17 y XOR word_rotr 19 y XOR drop_bit 10 y
      in ws ! (n - 16) + s0 + ws ! (n - 7) + s1)"

fun extend_schedule :: "nat \<Rightarrow> w32 list \<Rightarrow> w32 list" where
  "extend_schedule 0 ws = ws"
| "extend_schedule (Suc n) ws = extend_schedule n (ws @ [next_word ws])"

fun sha_round :: "digest_state \<Rightarrow> w32 \<times> w32 \<Rightarrow> digest_state" where
  "sha_round [a, b, c, d, e, f, g, h] (k, w) =
     (let s1 = word_rotr 6 e XOR word_rotr 11 e XOR word_rotr 25 e;
          ch = (e AND f) XOR (NOT e AND g);
          t1 = h + s1 + ch + k + w;
          s0 = word_rotr 2 a XOR word_rotr 13 a XOR word_rotr 22 a;
          maj = (a AND b) XOR (a AND c) XOR (b AND c)
      in [t1 + s0 + maj, a, b, c, d + t1, e, f, g])"
| "sha_round st _ = st"

definition sha_block :: "digest_state \<Rightarrow> string \<Rightarrow> digest_state" where
  "sha_block st blk =
     map2 (+) st (foldl sha_round st (zip round_constants (extend_schedule 48 (words_of_bytes blk))))"

function sha_blocks :: "digest_state \<Rightarrow> string \<Rightarrow> digest_state" where
  "sha_blocks st m = (if length m < 64 then st else sha_blocks (sha_block st (take 64 m)) (drop 64 m))"
  by pat_completeness auto
termination
  by (relation "measure (\<lambda>(st, m). length m)") auto

declare sha_blocks.simps [simp del]

definition sha256 :: "string \<Rightarrow> string" where
  "sha256 m = concat (map bytes_of_word (sha_blocks initial_state (pad_message m)))"

section \<open>HMAC\<close>

definition xor_bytes :: "nat \<Rightarrow> string \<Rightarrow> string" where
  "xor_bytes m = map (\<lambda>c. chr (byte c XOR m))"

definition block_key :: "string \<Rightarrow> string" where
  "block_key key = (let k = (if 64 < length key then sha256 key else key) in k @ replicate (64 - length k) (chr 0))"

definition hmac_sha256 :: "string \<Rightarrow> string \<Rightarrow> string" where
  "hmac_sha256 key m =
     sha256 (xor_bytes 0x5C (block_key key) @ sha256 (xor_bytes 0x36 (block_key key) @ m))"

section \<open>Lemmas\<close>

lemma length_sha_round [simp]: "length (sha_round st kw) = length st"
  by (cases "(st, kw)" rule: sha_round.cases) (simp_all add: Let_def)

lemma length_foldl_round [simp]: "length (foldl sha_round st kws) = length st"
  by (induction kws arbitrary: st) simp_all

lemma length_sha_block [simp]: "length (sha_block st blk) = length st"
  by (simp add: sha_block_def)

lemma length_sha_blocks [simp]: "length (sha_blocks st m) = length st"
  by (induction st m rule: sha_blocks.induct) (subst sha_blocks.simps, simp)

lemma length_be_bytes [simp]: "length (be_bytes k n) = k"
  by (induction k arbitrary: n) simp_all

lemma length_bytes_of_words: "length (concat (map bytes_of_word ws)) = 4 * length ws"
  by (induction ws) (simp_all add: bytes_of_word_def)

text \<open>A digest has 32 bytes, and the padded message is a whole number of blocks.\<close>

lemma length_sha256 [simp]: "length (sha256 m) = 32"
  by (simp add: sha256_def length_bytes_of_words initial_state_def)

lemma length_hmac [simp]: "length (hmac_sha256 key m) = 32"
  by (simp add: hmac_sha256_def)

lemma length_block_key [simp]: "length (block_key key) = 64"
  by (simp add: block_key_def Let_def)

lemma pad_message_blocks: "length (pad_message m) mod 64 = 0"
proof -
  have len: "length (pad_message m) = length m + 9 + (119 - length m mod 64) mod 64"
    by (simp add: pad_message_def)
  have "r < 64 \<Longrightarrow> 64 * q + r + 9 + (119 - r) = 64 * (q + 2)" for q r :: nat by simp
  from this [of "length m mod 64" "length m div 64"]
  have "length m + 9 + (119 - length m mod 64) = 64 * (length m div 64 + 2)" by simp
  then have "64 dvd length m + 9 + (119 - length m mod 64)" by (rule dvdI)
  then show ?thesis
    unfolding len by (simp only: mod_add_right_eq dvd_eq_mod_eq_0)
qed

end
