(* ===== verification/Announce.thy ===== *)
theory Announce
  imports Codec Sha256
begin

text \<open>
  \<^verbatim>\<open>announce.go\<close> and \<^verbatim>\<open>subjects.go\<close>: the announcements by which a
  plugin process makes itself known over NATS, sealed under a shared key.

  An instant is the number of nanoseconds since the Unix epoch, unbounded as Go's
  \<^verbatim>\<open>time.Time\<close> is for this purpose; \<^verbatim>\<open>UnixNano\<close> wraps it to 64 bits
  and a duration saturates at them. The manifest type of the \<^verbatim>\<open>contracts\<close> module is
  a parameter that comes with its codec, and so are the two operations of the NATS connection.
\<close>

section \<open>Subjects\<close>

definition SubjectAnnounce :: string where
  "SubjectAnnounce = ''plugins.announce''"

definition SessionEvents :: "string \<Rightarrow> string" where
  "SessionEvents session = ''session.'' @ session @ ''.events''"

section \<open>Keys\<close>

definition minAnnounceKeyLen :: nat where "minAnnounceKeyLen = 32"
definition maxAnnounceBytes :: nat where "maxAnnounceBytes = 32 * 1024"
definition AnnounceWindow :: int where "AnnounceWindow = 10 * 1000000000"

record AnnounceKey =
  material :: "string option"

definition nonZeroByte :: "char \<Rightarrow> bool" where
  "nonZeroByte b \<longleftrightarrow> byte b \<noteq> 0"

definition ParseAnnounceKey :: "string \<Rightarrow> ('b, AnnounceKey) result" where
  "ParseAnnounceKey secret =
     (if length secret < minAnnounceKeyLen \<or> \<not> list_ex nonZeroByte secret
      then Inl (Sentinel ErrWeakAnnounceKey)
      else Inr \<lparr> material = Some secret \<rparr>)"

definition usable :: "AnnounceKey \<Rightarrow> bool" where
  "usable k \<longleftrightarrow> material k \<noteq> None"

definition key_String :: "AnnounceKey \<Rightarrow> string" where
  "key_String k = ''transport.AnnounceKey(redacted)''"

definition key_GoString :: "AnnounceKey \<Rightarrow> string" where
  "key_GoString k = key_String k"

definition key_LogValue :: "AnnounceKey \<Rightarrow> string" where
  "key_LogValue k = key_String k"

text \<open>The message a MAC covers: the issue time in decimal, a line feed, the body.\<close>

definition mac_message :: "i64 \<Rightarrow> string \<Rightarrow> string" where
  "mac_message issued body = show_int (sint issued) @ [LF] @ body"

definition mac :: "AnnounceKey \<Rightarrow> i64 \<Rightarrow> string \<Rightarrow> string" where
  "mac k issued body = hmac_sha256 (the (material k)) (mac_message issued body)"

section \<open>Announcements and envelopes\<close>

record 'm announcement =
  Manifest :: 'm
  GrpcAddr :: string
  InstanceID :: string

definition announcement_codec :: "'m codec \<Rightarrow> 'm announcement codec" where
  "announcement_codec mc = \<lparr>
     enc = (\<lambda>a. map_option (\<lambda>j. JObj [(''Manifest'', j), (''GrpcAddr'', JStr (GrpcAddr a)),
              (''InstanceID'', JStr (InstanceID a))]) (enc mc (Manifest a))),
     zero_val = \<lparr> Manifest = zero_val mc, GrpcAddr = [], InstanceID = [] \<rparr>,
     dec_into = dec_struct
       [(''Manifest'', field mc Manifest (\<lambda>v a. a\<lparr>Manifest := v\<rparr>)),
        (''GrpcAddr'', field string_codec GrpcAddr (\<lambda>v a. a\<lparr>GrpcAddr := v\<rparr>)),
        (''InstanceID'', field string_codec InstanceID (\<lambda>v a. a\<lparr>InstanceID := v\<rparr>))] \<rparr>"

record announceEnvelope =
  IssuedAtUnixNano :: i64
  Body :: "string option"
  MAC :: "string option"

definition envelope_codec :: "announceEnvelope codec" where
  "envelope_codec = \<lparr>
     enc = (\<lambda>e. case (enc bytes_codec (Body e), enc bytes_codec (MAC e)) of
         (Some b, Some m) \<Rightarrow> Some (JObj [(''issued_at_unix_nano'', JNum (show_int (sint (IssuedAtUnixNano e)))),
            (''body'', b), (''mac'', m)])
       | _ \<Rightarrow> None),
     zero_val = \<lparr> IssuedAtUnixNano = 0, Body = None, MAC = None \<rparr>,
     dec_into = dec_struct
       [(''issued_at_unix_nano'', field int_codec IssuedAtUnixNano (\<lambda>v e. e\<lparr>IssuedAtUnixNano := v\<rparr>)),
        (''body'', field bytes_codec Body (\<lambda>v e. e\<lparr>Body := v\<rparr>)),
        (''mac'', field bytes_codec MAC (\<lambda>v e. e\<lparr>MAC := v\<rparr>))] \<rparr>"

text \<open>The bytes of a slice, nil or not.\<close>

definition slice_bytes :: "string option \<Rightarrow> string" where
  "slice_bytes b = (case b of None \<Rightarrow> [] | Some bs \<Rightarrow> bs)"

section \<open>Time\<close>

definition UnixNano :: "int \<Rightarrow> i64" where
  "UnixNano t = word_of_int t"

text \<open>\<^verbatim>\<open>time.Unix(0, n)\<close>, and \<^verbatim>\<open>Time.Sub\<close> and \<^verbatim>\<open>Duration.Abs\<close>, which saturate.\<close>

definition time_Unix :: "i64 \<Rightarrow> int" where
  "time_Unix n = sint n"

definition time_Sub :: "int \<Rightarrow> int \<Rightarrow> i64" where
  "time_Sub t u =
     (if int64_ok (t - u) then word_of_int (t - u)
      else if t < u then word_of_int (- (2 ^ 63)) else word_of_int (2 ^ 63 - 1))"

definition duration_Abs :: "i64 \<Rightarrow> i64" where
  "duration_Abs d =
     (if 0 \<le> sint d then d
      else if sint d = - (2 ^ 63) then word_of_int (2 ^ 63 - 1) else - d)"

section \<open>Sealing and opening\<close>

definition sealAnnouncement ::
  "'b runtime \<Rightarrow> 'm codec \<Rightarrow> AnnounceKey \<Rightarrow> 'm announcement \<Rightarrow> int \<Rightarrow> ('b, string) result" where
  "sealAnnouncement rt mc key ann now =
     (if \<not> usable key then Inl (Sentinel ErrNoAnnounceKey)
      else
        (case Marshal (announcement_codec mc) ann of
           Inl err \<Rightarrow> Inl (wrap rt ''transport: marshal announcement'' err)
         | Inr body \<Rightarrow>
           (let issuedAt = UnixNano now in
            (case Marshal envelope_codec
                   \<lparr> IssuedAtUnixNano = issuedAt, Body = Some body, MAC = Some (mac key issuedAt body) \<rparr> of
               Inl err \<Rightarrow> Inl (wrap rt ''transport: marshal announcement'' err)
             | Inr payload \<Rightarrow> Inr payload))))"

text \<open>
  \<^verbatim>\<open>Decoder.Decode\<close> with \<^verbatim>\<open>DisallowUnknownFields\<close>: the value, and what
  follows it. A text that ends within its first value is reported like one that is out of form.
\<close>

definition decoder_Decode :: "string \<Rightarrow> 'a codec \<Rightarrow> 'a \<Rightarrow> ('b, 'a \<times> token list) result" where
  "decoder_Decode data c old =
     (if lexer data = [] then Inl (Sentinel IoEOF)
      else
        (case first_value data of
           None \<Rightarrow> Inl (JsonError SyntaxError)
         | Some (j, rest) \<Rightarrow>
             (case dec_into c True old j of
                None \<Rightarrow> Inl (JsonError DecodeError)
              | Some v \<Rightarrow> Inr (v, rest))))"

definition decodeStrict :: "'b runtime \<Rightarrow> string \<Rightarrow> 'a codec \<Rightarrow> 'a \<Rightarrow> ('b, 'a) result" where
  "decodeStrict rt data c target =
     (case decoder_Decode data c target of
        Inl err \<Rightarrow> Inl (Errorf (sentinel_text ErrMalformedAnnouncement @ '': '' @ error_text rt err)
                        [Sentinel ErrMalformedAnnouncement, err])
      | Inr (v, rest) \<Rightarrow>
          if rest \<noteq> []
          then Inl (Errorf (sentinel_text ErrMalformedAnnouncement @ '': trailing data after the value'')
                      [Sentinel ErrMalformedAnnouncement])
          else Inr v)"

definition openAnnouncement ::
  "'b runtime \<Rightarrow> 'm codec \<Rightarrow> AnnounceKey \<Rightarrow> string \<Rightarrow> int \<Rightarrow> ('b, 'm announcement) result" where
  "openAnnouncement rt mc key payload now =
     (if \<not> usable key then Inl (Sentinel ErrNoAnnounceKey)
      else if maxAnnounceBytes < length payload then Inl (Sentinel ErrOversizedAnnouncement)
      else
        (case decodeStrict rt payload envelope_codec (zero_val envelope_codec) of
           Inl err \<Rightarrow> Inl err
         | Inr envelope \<Rightarrow>
             if slice_bytes (MAC envelope) \<noteq> mac key (IssuedAtUnixNano envelope) (slice_bytes (Body envelope))
             then Inl (Sentinel ErrUnauthenticatedAnnouncement)
             else
               (let issuedAt = time_Unix (IssuedAtUnixNano envelope) in
                if AnnounceWindow < sint (duration_Abs (time_Sub now issuedAt))
                then Inl (Sentinel ErrStaleAnnouncement)
                else decodeStrict rt (slice_bytes (Body envelope)) (announcement_codec mc)
                       (zero_val (announcement_codec mc)))))"

section \<open>Publishing and watching\<close>

definition Announce ::
  "'b runtime \<Rightarrow> 'm codec \<Rightarrow> ('s \<Rightarrow> string \<Rightarrow> string \<Rightarrow> 's \<times> 'b go_error option) \<Rightarrow> 's
   \<Rightarrow> 'm announcement \<Rightarrow> AnnounceKey \<Rightarrow> int \<Rightarrow> 's \<times> 'b go_error option" where
  "Announce rt mc publish s ann key now =
     (case sealAnnouncement rt mc key ann now of
        Inl err \<Rightarrow> (s, Some err)
      | Inr payload \<Rightarrow>
          (case publish s SubjectAnnounce payload of
             (s', Some err) \<Rightarrow> (s', Some (wrap rt ''transport: publish announcement'' err))
           | (s', None) \<Rightarrow> (s', None)))"

text \<open>
  The callback of the subscription, run once for every message in the order of delivery. The
  hooks change whatever state their owner keeps.
\<close>

definition announcement_callback ::
  "'b runtime \<Rightarrow> 'm codec \<Rightarrow> AnnounceKey \<Rightarrow> ('s \<Rightarrow> 'm announcement \<Rightarrow> 's) \<Rightarrow> ('s \<Rightarrow> 'b go_error \<Rightarrow> 's)
   \<Rightarrow> 's \<Rightarrow> string \<times> int \<Rightarrow> 's" where
  "announcement_callback rt mc key onAnnouncement onRejected s msg =
     (case openAnnouncement rt mc key (fst msg) (snd msg) of
        Inl err \<Rightarrow> onRejected s err
      | Inr ann \<Rightarrow> onAnnouncement s ann)"

definition subscribeAnnouncements ::
  "'b runtime \<Rightarrow> 'm codec \<Rightarrow> (string \<Rightarrow> ('s \<Rightarrow> string \<times> int \<Rightarrow> 's) \<Rightarrow> ('b, 'sub) result) \<Rightarrow> AnnounceKey
   \<Rightarrow> ('s \<Rightarrow> 'm announcement \<Rightarrow> 's) option \<Rightarrow> ('s \<Rightarrow> 'b go_error \<Rightarrow> 's) option \<Rightarrow> ('b, 'sub) result" where
  "subscribeAnnouncements rt mc subscribe key onAnnouncement onRejected =
     (case (onAnnouncement, onRejected) of
        (Some accept, Some reject) \<Rightarrow>
          if \<not> usable key then Inl (Sentinel ErrNoAnnounceKey)
          else subscribe SubjectAnnounce (announcement_callback rt mc key accept reject)
      | _ \<Rightarrow> Inl (Sentinel ErrNilHook))"

definition WatchAnnouncements ::
  "'b runtime \<Rightarrow> 'm codec \<Rightarrow> (string \<Rightarrow> ('s \<Rightarrow> string \<times> int \<Rightarrow> 's) \<Rightarrow> ('b, 'sub) result) \<Rightarrow> AnnounceKey
   \<Rightarrow> ('s \<Rightarrow> 'm announcement \<Rightarrow> 's) option \<Rightarrow> ('s \<Rightarrow> 'b go_error \<Rightarrow> 's) option \<Rightarrow> ('b, 'sub) result" where
  "WatchAnnouncements = subscribeAnnouncements"

section \<open>Lemmas on time\<close>

lemma sint_word_of_int: "int64_ok i \<Longrightarrow> sint (word_of_int i :: i64) = i"
  by (simp add: int64_ok_def signed_take_bit_int_eq_self sint_sbintrunc')

text \<open>The saturation of the difference and of its absolute value never brings a far instant into the window.\<close>

lemma abs_sub_within:
  assumes "0 \<le> w" and "w < 2 ^ 63 - 1"
  shows "sint (duration_Abs (time_Sub t u)) \<le> w \<longleftrightarrow> \<bar>t - u\<bar> \<le> w"
proof (cases "int64_ok (t - u)")
  case True
  then have d: "sint (time_Sub t u) = t - u"
    by (simp add: time_Sub_def sint_word_of_int del: of_int_diff)
  consider "t - u = - (2 ^ 63)" | "0 \<le> t - u" | "- (2 ^ 63) < t - u" "t - u < 0"
    using True unfolding int64_ok_def by linarith
  then show ?thesis
  proof cases
    case 1
    with d assms show ?thesis
      by (simp add: duration_Abs_def sint_word_of_int int64_ok_def)
  next
    case 2
    with d show ?thesis by (simp add: duration_Abs_def)
  next
    case 3
    then have "- time_Sub t u = word_of_int (- (t - u))"
      using True by (simp add: time_Sub_def)
    moreover have "int64_ok (- (t - u))" using 3 by (simp add: int64_ok_def)
    ultimately have "sint (- time_Sub t u) = - (t - u)" by (metis sint_word_of_int)
    with d 3 show ?thesis by (simp add: duration_Abs_def)
  qed
next
  case False
  have "int64_ok (- (2 ^ 63))" "int64_ok (2 ^ 63 - 1)" by (simp_all add: int64_ok_def)
  from this [THEN sint_word_of_int] False have "sint (duration_Abs (time_Sub t u)) = 2 ^ 63 - 1"
    by (cases "t < u") (simp_all add: duration_Abs_def time_Sub_def)
  with False assms show ?thesis by (auto simp: int64_ok_def)
qed

lemma window_iff:
  "AnnounceWindow < sint (duration_Abs (time_Sub t u)) \<longleftrightarrow> AnnounceWindow < \<bar>t - u\<bar>"
  using abs_sub_within [of AnnounceWindow t u] by (auto simp: AnnounceWindow_def)

section \<open>Lemmas on the codecs\<close>

lemma announcement_fields [simp]:
  "find_field [(''Manifest'', f), (''GrpcAddr'', g), (''InstanceID'', h)] ''Manifest'' = Some f"
  "find_field [(''Manifest'', f), (''GrpcAddr'', g), (''InstanceID'', h)] ''GrpcAddr'' = Some g"
  "find_field [(''Manifest'', f), (''GrpcAddr'', g), (''InstanceID'', h)] ''InstanceID'' = Some h"
  by (simp_all add: find_field_def)

lemma envelope_fields [simp]:
  "find_field [(''issued_at_unix_nano'', f), (''body'', g), (''mac'', h)] ''issued_at_unix_nano'' = Some f"
  "find_field [(''issued_at_unix_nano'', f), (''body'', g), (''mac'', h)] ''body'' = Some g"
  "find_field [(''issued_at_unix_nano'', f), (''body'', g), (''mac'', h)] ''mac'' = Some h"
  by (simp_all add: find_field_def)

definition announcement_fit :: "('m \<Rightarrow> bool) \<Rightarrow> 'm announcement \<Rightarrow> bool" where
  "announcement_fit fit a \<longleftrightarrow> fit (Manifest a) \<and> valid_utf8 (GrpcAddr a) \<and> valid_utf8 (InstanceID a)"

context codec_law
begin

lemma announcement_law: "codec_law (announcement_codec c) (announcement_fit fit) (Suc d)"
proof
  fix a :: "'a announcement" and j strict
  assume fits: "announcement_fit fit a"
  then obtain m where m: "enc c (Manifest a) = Some m" "wire_json d m"
    and dec: "\<And>strict. dec_into c strict (zero_val c) m = Some (Manifest a)"
    using enc_obtain [of "Manifest a"] by (auto simp: announcement_fit_def)
  show "\<exists>j. enc (announcement_codec c) a = Some j \<and> wire_json (Suc d) j"
    using m fits by (auto simp: announcement_codec_def announcement_fit_def valid_utf8_ascii intro!: wire_json_JObj)
  show "dec_into (announcement_codec c) strict (zero_val (announcement_codec c)) j = Some a"
    if "enc (announcement_codec c) a = Some j"
    using that m dec by (auto simp: announcement_codec_def wire_simps)
qed

text \<open>A strict decoding of a marshalled value gives it back.\<close>

lemma decodeStrict_marshal:
  fixes rt :: "'e runtime"
  assumes "fit v" and "d \<le> max_nesting" and "Marshal c v = (Inr p :: ('e, string) result)"
  shows "decodeStrict rt p c (zero_val c) = Inr v"
proof -
  obtain j where j: "enc c v = Some j" "wire_json d j" "\<And>strict. dec_into c strict (zero_val c) j = Some v"
    using enc_obtain [OF assms(1)] by blast
  then have p: "p = print_json j" using assms(3) by (simp add: Marshal_def)
  have one: "first_value p = Some (j, [])" unfolding p using j(2) assms(2) by (rule first_value_wire)
  then have "lexer p \<noteq> []" by (auto simp: first_value_def run.simps)
  with one j show ?thesis by (simp add: decodeStrict_def decoder_Decode_def)
qed

lemma Marshal_obtain:
  assumes "fit v"
  obtains p where "Marshal c v = Inr p"
  using enc_fit [OF assms] by (auto simp: Marshal_def)

end

interpretation envelope_law: codec_law envelope_codec "\<lambda>_. True" 1
proof
  fix e :: announceEnvelope and j strict
  obtain b m where bm: "enc bytes_codec (Body e) = Some b" "enc bytes_codec (MAC e) = Some m"
    and wire: "wire_json 0 b" "wire_json 0 m"
    using bytes_law.enc_fit [of "Body e"] bytes_law.enc_fit [of "MAC e"] by auto
  have dec: "dec_into bytes_codec strict None b = Some (Body e)" "dec_into bytes_codec strict None m = Some (MAC e)"
    using bytes_law.dec_enc [OF _ bm(1)] bytes_law.dec_enc [OF _ bm(2)] by (simp_all add: bytes_codec_def)
  have "wire_json (Suc 0) (JObj [(''issued_at_unix_nano'', JNum (show_int (sint (IssuedAtUnixNano e)))),
      (''body'', b), (''mac'', m)])"
    using wire by (intro wire_json_JObj) (simp add: valid_utf8_ascii)
  then show "\<exists>j. enc envelope_codec e = Some j \<and> wire_json 1 j"
    using bm by (simp add: envelope_codec_def)
  show "dec_into envelope_codec strict (zero_val envelope_codec) j = Some e" if "enc envelope_codec e = Some j"
    using that bm dec by (auto simp: envelope_codec_def wire_simps)
qed

section \<open>Lemmas on sealing and opening\<close>

text \<open>The message under the MAC determines the issue time and the body.\<close>

lemma mac_message_inject [simp]: "mac_message i b = mac_message i' b' \<longleftrightarrow> i = i' \<and> b = b'"
proof
  have "cut_byte LF (mac_message i b) = (show_int (sint i), b, True)" for i b
    using cut_byte_append [OF show_int_no_LF] by (simp add: mac_message_def)
  moreover assume "mac_message i b = mac_message i' b'"
  ultimately have "show_int (sint i) = show_int (sint i')" "b = b'"
    by (metis prod.inject)+
  then show "i = i' \<and> b = b'" by (auto dest: show_int_sint_inject)
qed simp

text \<open>The cases of opening, in the order of the checks.\<close>

lemma open_no_key: "\<not> usable key \<Longrightarrow> openAnnouncement rt mc key payload now = Inl (Sentinel ErrNoAnnounceKey)"
  by (simp add: openAnnouncement_def)

lemma open_oversized:
  "usable key \<Longrightarrow> maxAnnounceBytes < length payload \<Longrightarrow>
   openAnnouncement rt mc key payload now = Inl (Sentinel ErrOversizedAnnouncement)"
  by (simp add: openAnnouncement_def)

definition opened_envelope :: "'b runtime \<Rightarrow> string \<Rightarrow> ('b, announceEnvelope) result" where
  "opened_envelope rt payload = decodeStrict rt payload envelope_codec (zero_val envelope_codec)"

definition authentic :: "AnnounceKey \<Rightarrow> announceEnvelope \<Rightarrow> bool" where
  "authentic key env \<longleftrightarrow>
     slice_bytes (MAC env) = mac key (IssuedAtUnixNano env) (slice_bytes (Body env))"

definition timely :: "int \<Rightarrow> announceEnvelope \<Rightarrow> bool" where
  "timely now env \<longleftrightarrow> \<bar>now - sint (IssuedAtUnixNano env)\<bar> \<le> AnnounceWindow"

lemma open_cases:
  assumes "usable key" and "length payload \<le> maxAnnounceBytes"
  shows "openAnnouncement rt mc key payload now =
    (case opened_envelope rt payload of
       Inl err \<Rightarrow> Inl err
     | Inr env \<Rightarrow>
         if \<not> authentic key env then Inl (Sentinel ErrUnauthenticatedAnnouncement)
         else if \<not> timely now env then Inl (Sentinel ErrStaleAnnouncement)
         else decodeStrict rt (slice_bytes (Body env)) (announcement_codec mc) (zero_val (announcement_codec mc)))"
  using assms
  by (simp add: openAnnouncement_def opened_envelope_def authentic_def timely_def window_iff time_Unix_def
      not_le split: sum.split)

lemma open_accepted:
  "openAnnouncement rt mc key payload now = Inr ann \<longleftrightarrow>
     usable key \<and> length payload \<le> maxAnnounceBytes
     \<and> (\<exists>env. opened_envelope rt payload = Inr env \<and> authentic key env \<and> timely now env
         \<and> decodeStrict rt (slice_bytes (Body env)) (announcement_codec mc) (zero_val (announcement_codec mc)) = Inr ann)"
proof (cases "usable key \<and> length payload \<le> maxAnnounceBytes")
  case True
  then show ?thesis by (simp add: open_cases split: sum.split)
next
  case False
  then show ?thesis using open_no_key [of key rt mc payload now] open_oversized [of key payload rt mc now] by force
qed

lemma malformed_only:
  assumes "decodeStrict rt data c old = Inl err"
  shows "errors_is t err \<longleftrightarrow> t = ErrMalformedAnnouncement \<or> t = IoEOF \<and> lexer data = []"
  using assms
  by (auto simp: decodeStrict_def decoder_Decode_def split: sum.splits if_splits option.splits)

lemma open_error_classes:
  assumes "usable key" and "openAnnouncement rt mc key payload now = Inl e"
  shows "\<exists>t \<in> {ErrUnauthenticatedAnnouncement, ErrStaleAnnouncement, ErrOversizedAnnouncement, ErrMalformedAnnouncement}.
    errors_is t e"
  using assms
  by (auto simp: openAnnouncement_def malformed_only Let_def split: if_splits sum.splits)

text \<open>Sealing a fit announcement succeeds, and its envelope opens to what was sealed.\<close>

lemma seal_obtain:
  fixes rt :: "'b runtime"
  assumes "wire_codec mc fit" and "usable key" and "announcement_fit fit ann"
  obtains body payload where
    "sealAnnouncement rt mc key ann now = Inr payload"
    and "opened_envelope rt payload =
      Inr \<lparr> IssuedAtUnixNano = UnixNano now, Body = Some body, MAC = Some (mac key (UnixNano now) body) \<rparr>"
    and "decodeStrict rt body (announcement_codec mc) (zero_val (announcement_codec mc)) = Inr ann"
proof -
  obtain d where d: "Suc d < max_nesting" and law: "codec_law mc fit d"
    using assms(1) by (auto simp: wire_codec_def)
  note ann_law = codec_law.announcement_law [OF law]
  obtain body where body: "Marshal (announcement_codec mc) ann = (Inr body :: ('b, string) result)"
    using codec_law.Marshal_obtain [OF ann_law assms(3)] by blast
  let ?env = "\<lparr> IssuedAtUnixNano = UnixNano now, Body = Some body, MAC = Some (mac key (UnixNano now) body) \<rparr>"
  obtain payload where payload: "Marshal envelope_codec ?env = (Inr payload :: ('b, string) result)"
    using envelope_law.Marshal_obtain [of ?env] by blast
  show ?thesis
  proof
    show "sealAnnouncement rt mc key ann now = Inr payload"
      using assms(2) body payload by (simp add: sealAnnouncement_def Let_def)
    show "opened_envelope rt payload = Inr ?env"
      unfolding opened_envelope_def
      by (rule envelope_law.decodeStrict_marshal [OF _ _ payload]) (simp_all add: max_nesting_def)
    show "decodeStrict rt body (announcement_codec mc) (zero_val (announcement_codec mc)) = Inr ann"
      by (rule codec_law.decodeStrict_marshal [OF ann_law assms(3) _ body]) (use d in simp)
  qed
qed

lemma ParseAnnounceKey_usable: "ParseAnnounceKey secret = Inr key \<Longrightarrow> usable key"
  by (auto simp: ParseAnnounceKey_def usable_def split: if_splits)

section \<open>The size of a sealed announcement\<close>

lemma quote_body_safe: "list_all html_safe s \<Longrightarrow> quote_body s = s"
proof (induction s)
  case (Cons c s)
  then have "utf8_size (c # s) = 1" by (intro utf8_size_ascii) (simp add: html_safe_def)
  with Cons show ?case by (simp add: quote_body_ascii esc_ascii_def)
qed simp

lemma html_safe_byte: "html_safe c \<longleftrightarrow> 32 \<le> byte c \<and> byte c < 128 \<and> byte c \<notin> {34, 92, 60, 62, 38}"
  using byte_inject [of c DQ] byte_inject [of c BSL] byte_inject [of c "CHR ''<''"]
    byte_inject [of c "CHR ''>''"] byte_inject [of c "CHR ''&''"]
  by (simp add: html_safe_def mark_defs)

lemma b64_html_safe: "list_all html_safe (b64_encode s)"
proof -
  have "html_safe (b64_char i)" if "i < 64" for i
    using that by (auto simp: html_safe_byte byte_b64_char)
  moreover have "html_safe PAD" by (simp add: html_safe_def PAD_def mark_defs)
  ultimately show ?thesis using b64_encode_chars [of _ s] by (auto simp: list_all_iff)
qed

lemma length_show_nat: "n < 10 ^ Suc k \<Longrightarrow> length (show_nat n) \<le> Suc k"
proof (induction k arbitrary: n)
  case (Suc k)
  then have "length (show_nat (n div 10)) \<le> Suc k" by (intro Suc.IH) auto
  then show ?case by (subst show_nat.simps) simp
qed (subst show_nat.simps, simp)

lemma length_show_i64: "length (show_int (sint (w :: i64))) \<le> 20"
proof -
  have "nat \<bar>sint w\<bar> < 10 ^ Suc 18"
    using int64_ok_sint [of w] by (simp add: int64_ok_def) linarith
  then have "length (show_nat (nat \<bar>sint w\<bar>)) \<le> 19"
    using length_show_nat [of _ 18] by simp
  then show ?thesis by (cases "sint w < 0") (simp_all add: show_int_def)
qed

lemma length_envelope:
  assumes "Marshal envelope_codec \<lparr> IssuedAtUnixNano = i, Body = Some body, MAC = Some m \<rparr> = Inr payload"
  shows "length payload = 43 + length (show_int (sint i)) + length (b64_encode body) + length (b64_encode m)"
proof -
  have "quote_body ''issued_at_unix_nano'' = ''issued_at_unix_nano''" "quote_body ''body'' = ''body''"
    "quote_body ''mac'' = ''mac''"
    by (rule quote_body_safe, simp add: html_safe_def mark_defs)+
  moreover note quote_body_safe [OF b64_html_safe, of body] quote_body_safe [OF b64_html_safe, of m]
  moreover have "payload = print_json (JObj [(''issued_at_unix_nano'', JNum (show_int (sint i))),
      (''body'', JStr (b64_encode body)), (''mac'', JStr (b64_encode m))])"
    using assms by (simp add: Marshal_def envelope_codec_def bytes_codec_def)
  ultimately show ?thesis by (simp add: quote_json_def)
qed

text \<open>
  What sealing makes: the payload for a body, whose size the next lemma bounds and whose opening
  the one after it decides.
\<close>

lemma seal_size:
  fixes rt :: "'b runtime"
  assumes "sealAnnouncement rt mc key ann now = Inr payload"
    and "Marshal (announcement_codec mc) ann = (Inr body :: ('b, string) result)"
  shows "length payload \<le> 107 + (length body + 2) div 3 * 4"
proof -
  have "Marshal envelope_codec \<lparr> IssuedAtUnixNano = UnixNano now, Body = Some body,
      MAC = Some (mac key (UnixNano now) body) \<rparr> = (Inr payload :: ('b, string) result)"
    using assms by (auto simp: sealAnnouncement_def Let_def split: sum.splits if_splits)
  from length_envelope [OF this] length_show_i64 [of "UnixNano now"] show ?thesis
    by (simp add: length_b64_encode mac_def)
qed

lemma open_sealed:
  fixes rt :: "'b runtime"
  assumes "wire_codec mc fit" and "usable key" and "announcement_fit fit ann" and "int64_ok sent"
    and "sealAnnouncement rt mc key ann sent = Inr payload"
  shows "openAnnouncement rt mc key payload now =
    (if maxAnnounceBytes < length payload then Inl (Sentinel ErrOversizedAnnouncement)
     else if AnnounceWindow < \<bar>now - sent\<bar> then Inl (Sentinel ErrStaleAnnouncement)
     else Inr ann)"
proof -
  obtain body where env: "opened_envelope rt payload =
      Inr \<lparr> IssuedAtUnixNano = UnixNano sent, Body = Some body, MAC = Some (mac key (UnixNano sent) body) \<rparr>"
    and body: "decodeStrict rt body (announcement_codec mc) (zero_val (announcement_codec mc)) = Inr ann"
    using assms(5) by (auto intro: seal_obtain [OF assms(1-3), of rt sent])
  have "sint (UnixNano sent) = sent" using assms(4) by (simp add: UnixNano_def sint_word_of_int)
  with env body assms(2) show ?thesis
    by (auto simp: open_cases open_oversized authentic_def timely_def slice_bytes_def not_less)
qed

section \<open>Properties\<close>

definition sample_key :: AnnounceKey where
  "sample_key = \<lparr> material = Some (replicate 32 (CHR ''k'')) \<rparr>"

definition sample_announcement :: "string announcement" where
  "sample_announcement = \<lparr> Manifest = ''memory'', GrpcAddr = ''127.0.0.1:7000'', InstanceID = ''m1'' \<rparr>"

lemma sample_usable [simp]: "usable sample_key"
  by (simp add: sample_key_def usable_def)

lemma sample_fit [simp]: "announcement_fit valid_utf8 sample_announcement"
  by (simp add: announcement_fit_def sample_announcement_def valid_utf8_ascii)

text \<open>
  C1: sealing an announcement whose marshalled body has at most 24495 bytes succeeds, and a
  holder of the key that opens the payload gets the very announcement back exactly when its
  clock is within the window of the time of sealing, the edges included; outside of it the
  error is that the announcement is stale.
\<close>

theorem seal_open_roundtrip:
  fixes rt :: "'b runtime"
  assumes "wire_codec mc fit" and "usable key" and "announcement_fit fit ann" and "int64_ok sent"
    and "Marshal (announcement_codec mc) ann = (Inr body :: ('b, string) result)"
    and "length body \<le> 24495"
  shows "\<exists>payload. sealAnnouncement rt mc key ann sent = Inr payload
    \<and> openAnnouncement rt mc key payload now =
        (if \<bar>now - sent\<bar> \<le> 10000000000 then Inr ann else Inl (Sentinel ErrStaleAnnouncement))"
proof -
  obtain payload where payload: "sealAnnouncement rt mc key ann sent = Inr payload"
    by (rule seal_obtain [OF assms(1-3), of rt sent]) blast
  have "(length body + 2) div 3 \<le> 8165" using assms(6) by linarith
  then have "length payload \<le> maxAnnounceBytes"
    using seal_size [OF payload assms(5)] by (simp add: maxAnnounceBytes_def)
  then show ?thesis
    using open_sealed [OF assms(1-4) payload, of now] payload by (auto simp: AnnounceWindow_def)
qed

lemma sample_marshal:
  "\<exists>body. Marshal (announcement_codec string_codec) sample_announcement = (Inr body :: ('b, string) result)
    \<and> length body \<le> 24495"
proof -
  have "quote_body ''Manifest'' = ''Manifest''" "quote_body ''GrpcAddr'' = ''GrpcAddr''"
    "quote_body ''InstanceID'' = ''InstanceID''" "quote_body ''memory'' = ''memory''"
    "quote_body ''127.0.0.1:7000'' = ''127.0.0.1:7000''" "quote_body ''m1'' = ''m1''"
    by (rule quote_body_safe, simp add: html_safe_def mark_defs)+
  then show ?thesis
    by (simp add: Marshal_def announcement_codec_def sample_announcement_def quote_json_def)
qed

lemma sample_accepted:
  "\<exists>payload. \<forall>now. \<bar>now - 5\<bar> \<le> AnnounceWindow \<longrightarrow>
    openAnnouncement sample_runtime string_codec sample_key payload now = Inr sample_announcement"
proof -
  obtain body where body: "Marshal (announcement_codec string_codec) sample_announcement = (Inr body :: (string, string) result)"
    "length body \<le> 24495"
    using sample_marshal by blast
  obtain payload where payload: "sealAnnouncement sample_runtime string_codec sample_key sample_announcement 5 = Inr payload"
    by (rule seal_obtain [OF wire_codec_string sample_usable sample_fit]) blast
  have "(length body + 2) div 3 \<le> 8165" using body(2) by linarith
  then have "length payload \<le> maxAnnounceBytes"
    using seal_size [OF payload body(1)] by (simp add: maxAnnounceBytes_def)
  moreover have "int64_ok 5" by (simp add: int64_ok_def)
  ultimately show ?thesis
    using open_sealed [OF wire_codec_string sample_usable sample_fit _ payload] by (intro exI [of _ payload]) auto
qed

lemma sample_accepted_times:
  "\<exists>payload. openAnnouncement sample_runtime string_codec sample_key payload 5 = Inr sample_announcement
    \<and> openAnnouncement sample_runtime string_codec sample_key payload 9 = Inr sample_announcement"
proof -
  obtain payload where "\<And>now. \<bar>now - 5\<bar> \<le> AnnounceWindow \<Longrightarrow>
      openAnnouncement sample_runtime string_codec sample_key payload now = Inr sample_announcement"
    using sample_accepted by blast
  from this [of 5] this [of 9] show ?thesis by (intro exI [of _ payload]) (simp add: AnnounceWindow_def)
qed

theorem seal_open_roundtrip_witness:
  "\<exists>payload. sealAnnouncement sample_runtime string_codec sample_key sample_announcement 5 = Inr payload
    \<and> openAnnouncement sample_runtime string_codec sample_key payload 10000000005 = Inr sample_announcement"
proof -
  obtain body where body: "Marshal (announcement_codec string_codec) sample_announcement = (Inr body :: (string, string) result)"
    "length body \<le> 24495"
    using sample_marshal by blast
  have "int64_ok 5" by (simp add: int64_ok_def)
  from seal_open_roundtrip [OF wire_codec_string sample_usable sample_fit this body, of sample_runtime 10000000005]
  show ?thesis by simp
qed

text \<open>
  C2: an announcement is accepted exactly when the key is set, the message is within the size
  bound and is one strict JSON envelope, the MAC is the one the key gives for the issue time and
  the body, the issue time is within ten seconds of the clock (as unbounded integers: the
  saturating subtraction and the wrapped absolute value admit nothing more), and the body is one
  strict JSON announcement, the one returned.
\<close>

theorem open_accepts_iff:
  "openAnnouncement rt mc key payload now = Inr ann \<longleftrightarrow>
     material key \<noteq> None \<and> length payload \<le> 32768
     \<and> (\<exists>env. decodeStrict rt payload envelope_codec (zero_val envelope_codec) = Inr env
         \<and> slice_bytes (MAC env) = hmac_sha256 (the (material key))
              (show_int (sint (IssuedAtUnixNano env)) @ LF # slice_bytes (Body env))
         \<and> \<bar>now - sint (IssuedAtUnixNano env)\<bar> \<le> 10000000000
         \<and> decodeStrict rt (slice_bytes (Body env)) (announcement_codec mc) (zero_val (announcement_codec mc)) = Inr ann)"
  unfolding open_accepted
  by (simp add: usable_def maxAnnounceBytes_def opened_envelope_def authentic_def timely_def mac_def
      mac_message_def AnnounceWindow_def)

text \<open>
  C15: a message accepted under a key either carries an issue time and a body that a holder of
  the key sealed, or its tag is a correct HMAC of a message that was never signed under the key;
  no reinterpretation of a signed message as another time and body exists.
\<close>

theorem accepted_sealed_or_forged:
  assumes "openAnnouncement rt mc key payload now = Inr ann"
  shows "\<exists>issued body. decodeStrict rt body (announcement_codec mc) (zero_val (announcement_codec mc)) = Inr ann
    \<and> \<bar>now - sint issued\<bar> \<le> AnnounceWindow
    \<and> ((issued, body) \<in> sealed
        \<or> (\<exists>env. opened_envelope rt payload = Inr env
              \<and> slice_bytes (MAC env) = hmac_sha256 (the (material key)) (mac_message issued body))
          \<and> mac_message issued body \<notin> (\<lambda>(i, b). mac_message i b) ` sealed)"
proof -
  obtain env where env: "opened_envelope rt payload = Inr env" "authentic key env" "timely now env"
    and body: "decodeStrict rt (slice_bytes (Body env)) (announcement_codec mc) (zero_val (announcement_codec mc)) = Inr ann"
    using assms by (auto simp: open_accepted)
  have "mac_message i b \<notin> (\<lambda>(i, b). mac_message i b) ` sealed" if "(i, b) \<notin> sealed" for i b
    using that by auto
  with env body show ?thesis
    by (intro exI [of _ "IssuedAtUnixNano env"] exI [of _ "slice_bytes (Body env)"])
      (auto simp: authentic_def timely_def mac_def)
qed

theorem accepted_sealed_or_forged_witness:
  "\<exists>(issued :: i64) body. decodeStrict sample_runtime body (announcement_codec string_codec)
      (zero_val (announcement_codec string_codec)) = Inr sample_announcement \<and> \<bar>9 - sint issued\<bar> \<le> AnnounceWindow"
proof -
  obtain payload where "openAnnouncement sample_runtime string_codec sample_key payload 9 = Inr sample_announcement"
    using sample_accepted_times by blast
  from accepted_sealed_or_forged [OF this, of "{}"] show ?thesis by blast
qed

text \<open>
  C27: a captured message can be replayed only briefly: two instants at which one message is
  accepted are at most two windows (twenty seconds) apart, whatever the keys of the receivers.
\<close>

theorem replay_bounded:
  assumes "openAnnouncement rt mc key payload now = Inr ann"
    and "openAnnouncement rt mc' key' payload now' = Inr ann'"
  shows "\<bar>now - now'\<bar> \<le> 2 * AnnounceWindow"
proof -
  obtain env where "timely now env" "timely now' env"
    using assms by (auto simp: open_accepted)
  then show ?thesis unfolding timely_def by linarith
qed

theorem replay_bounded_witness:
  "\<exists>payload. openAnnouncement sample_runtime string_codec sample_key payload 5 = Inr sample_announcement
    \<and> openAnnouncement sample_runtime string_codec sample_key payload 9 = Inr sample_announcement
    \<and> \<bar>5 - 9 :: int\<bar> \<le> 2 * AnnounceWindow"
proof -
  obtain payload where p: "openAnnouncement sample_runtime string_codec sample_key payload 5 = Inr sample_announcement"
    "openAnnouncement sample_runtime string_codec sample_key payload 9 = Inr sample_announcement"
    using sample_accepted_times by blast
  from replay_bounded [OF p] p show ?thesis by blast
qed

text \<open>
  C17: with a key set, every message that is refused is refused with exactly one of the four
  announcement errors, and the order of the checks decides which: the size first, then the shape
  of the envelope, then the MAC, then the window, and the body last, so a message that is not
  authentic is reported as such whatever its issue time and its body are.
\<close>

theorem open_refuses:
  assumes "usable key" and "openAnnouncement rt mc key payload now = Inl err"
  shows "(\<exists>!t. t \<in> {ErrUnauthenticatedAnnouncement, ErrStaleAnnouncement, ErrOversizedAnnouncement, ErrMalformedAnnouncement}
            \<and> errors_is t err)
    \<and> (errors_is ErrOversizedAnnouncement err \<longleftrightarrow> maxAnnounceBytes < length payload)
    \<and> (length payload \<le> maxAnnounceBytes \<longrightarrow> isl (opened_envelope rt payload) \<longrightarrow> errors_is ErrMalformedAnnouncement err)
    \<and> (\<forall>env. length payload \<le> maxAnnounceBytes \<longrightarrow> opened_envelope rt payload = Inr env \<longrightarrow>
         (errors_is ErrUnauthenticatedAnnouncement err \<longleftrightarrow> \<not> authentic key env)
         \<and> (errors_is ErrStaleAnnouncement err \<longleftrightarrow> authentic key env \<and> \<not> timely now env))"
proof (cases "maxAnnounceBytes < length payload")
  case True
  then have "err = Sentinel ErrOversizedAnnouncement" using assms open_oversized [of key payload rt mc now] by simp
  with True show ?thesis by auto
next
  case False
  note cases = open_cases [OF assms(1) leI [OF False], of rt mc now, unfolded assms(2)]
  show ?thesis
  proof (cases "opened_envelope rt payload")
    case (Inl e)
    with cases have "decodeStrict rt payload envelope_codec (zero_val envelope_codec) = Inl err"
      by (simp add: opened_envelope_def)
    from malformed_only [OF this] False Inl show ?thesis by auto
  next
    case (Inr env)
    show ?thesis
    proof (cases "authentic key env \<and> timely now env")
      case True
      with cases Inr have "decodeStrict rt (slice_bytes (Body env)) (announcement_codec mc) (zero_val (announcement_codec mc)) = Inl err"
        by simp
      from malformed_only [OF this] False Inr True show ?thesis by auto
    next
      case bad: False
      with cases Inr False show ?thesis by (cases "authentic key env") auto
    qed
  qed
qed

theorem open_refuses_witness:
  "openAnnouncement sample_runtime string_codec sample_key [] 0 =
     Inl (Errorf (sentinel_text ErrMalformedAnnouncement @ '': EOF'') [Sentinel ErrMalformedAnnouncement, Sentinel IoEOF])
   \<and> (\<exists>!t. t \<in> {ErrUnauthenticatedAnnouncement, ErrStaleAnnouncement, ErrOversizedAnnouncement, ErrMalformedAnnouncement}
        \<and> errors_is t (Errorf (sentinel_text ErrMalformedAnnouncement @ '': EOF'')
             [Sentinel ErrMalformedAnnouncement, Sentinel IoEOF] :: string go_error))"
proof -
  have r: "openAnnouncement sample_runtime string_codec sample_key [] 0 =
     Inl (Errorf (sentinel_text ErrMalformedAnnouncement @ '': EOF'') [Sentinel ErrMalformedAnnouncement, Sentinel IoEOF])"
    by (simp add: openAnnouncement_def decodeStrict_def decoder_Decode_def)
  from open_refuses [OF sample_usable r] r show ?thesis by blast
qed

text \<open>
  A watch is set up on the announcement subject, and from then on each delivered message
  reaches exactly one of the two hooks, exactly once and in the order of delivery: the
  announcement hook with what opening it gives, the rejection hook with the error otherwise. The
  hooks here record their calls. Without a key nothing is subscribed.
\<close>

theorem watch_one_hook_per_message:
  "case WatchAnnouncements rt mc (\<lambda>subject callback. Inr (subject, callback)) key
      (Some (\<lambda>calls ann. calls @ [Inr ann])) (Some (\<lambda>calls err. calls @ [Inl err])) of
     Inl err \<Rightarrow> \<not> usable key \<and> err = Sentinel ErrNoAnnounceKey
   | Inr (subject, callback) \<Rightarrow> usable key \<and> subject = ''plugins.announce''
       \<and> (\<forall>calls msgs. foldl callback calls msgs =
            calls @ map (\<lambda>(payload, now). openAnnouncement rt mc key payload now) msgs)"
proof -
  let ?cb = "announcement_callback rt mc key (\<lambda>calls ann. calls @ [Inr ann]) (\<lambda>calls err. calls @ [Inl err])"
  have "?cb calls msg = calls @ [openAnnouncement rt mc key (fst msg) (snd msg)]" for calls msg
    by (simp add: announcement_callback_def split: sum.split)
  then have "foldl ?cb calls msgs = calls @ map (\<lambda>(payload, now). openAnnouncement rt mc key payload now) msgs"
    for calls msgs
    by (induction msgs arbitrary: calls) (simp_all add: case_prod_unfold)
  then show ?thesis
    by (simp add: WatchAnnouncements_def subscribeAnnouncements_def SubjectAnnounce_def)
qed

text \<open>
  With the zero key every operation fails with the missing-key error and nothing is
  published or subscribed; a key comes only from a secret of at least 32 bytes that are not all
  zero, which it keeps unchanged.
\<close>

theorem keyless_operations_fail:
  "(usable key \<or>
      sealAnnouncement rt mc key ann now = Inl (Sentinel ErrNoAnnounceKey)
      \<and> openAnnouncement rt mc key payload now = Inl (Sentinel ErrNoAnnounceKey)
      \<and> Announce rt mc publish s ann key now = (s, Some (Sentinel ErrNoAnnounceKey))
      \<and> WatchAnnouncements rt mc subscribe key (Some accept) (Some reject) = Inl (Sentinel ErrNoAnnounceKey))
   \<and> (ParseAnnounceKey secret = (Inr key :: ('e, AnnounceKey) result) \<longleftrightarrow>
        32 \<le> length secret \<and> (\<exists>c \<in> set secret. c \<noteq> chr 0) \<and> material key = Some secret)"
proof -
  have "list_ex nonZeroByte secret \<longleftrightarrow> (\<exists>c \<in> set secret. c \<noteq> chr 0)"
    using byte_inject [of _ "chr 0"] by (auto simp: list_ex_iff nonZeroByte_def)
  moreover have "key = \<lparr> material = Some secret \<rparr> \<longleftrightarrow> material key = Some secret" by (cases key) auto
  ultimately show ?thesis
    by (auto simp: sealAnnouncement_def openAnnouncement_def Announce_def WatchAnnouncements_def
        subscribeAnnouncements_def ParseAnnounceKey_def minAnnounceKeyLen_def)
qed

end
