(* ===== verification/Net.thy ===== *)
theory Net
  imports Json
begin

text \<open>
  The parts of Go's \<^verbatim>\<open>net\<close> and \<^verbatim>\<open>net/netip\<close> packages that decide which
  addresses count as loopback: \<^verbatim>\<open>SplitHostPort\<close>, \<^verbatim>\<open>ParseIP\<close> with its
  two parsers, and \<^verbatim>\<open>IP.IsLoopback\<close>. The scanners follow the loops of the standard
  library; an address is its sixteen bytes, an IPv4 address in its mapped form.
\<close>

section \<open>Hosts and ports\<close>

datatype addr_error = MissingPort | TooManyColons | MissingBracket | UnexpectedOpen | UnexpectedClose

fun addr_error_text :: "addr_error \<Rightarrow> string" where
  "addr_error_text MissingPort = ''missing port in address''"
| "addr_error_text TooManyColons = ''too many colons in address''"
| "addr_error_text MissingBracket = ''missing ']' in address''"
| "addr_error_text UnexpectedOpen = ''unexpected '[' in address''"
| "addr_error_text UnexpectedClose = ''unexpected ']' in address''"

definition index_byte :: "char \<Rightarrow> string \<Rightarrow> nat option" where
  "index_byte c s = (if c \<in> set s then Some (length (takeWhile (\<lambda>d. d \<noteq> c) s)) else None)"

definition last_index_byte :: "char \<Rightarrow> string \<Rightarrow> nat option" where
  "last_index_byte c s = map_option (\<lambda>i. length s - 1 - i) (index_byte c (rev s))"

definition unbracketed :: "nat \<Rightarrow> nat \<Rightarrow> nat \<Rightarrow> string \<Rightarrow> string \<Rightarrow> addr_error + string \<times> string" where
  "unbracketed i j k hostport host =
     (if CHR ''['' \<in> set (drop j hostport) then Inl UnexpectedOpen
      else if CHR '']'' \<in> set (drop k hostport) then Inl UnexpectedClose
      else Inr (host, drop (Suc i) hostport))"

definition SplitHostPort :: "string \<Rightarrow> addr_error + string \<times> string" where
  "SplitHostPort hostport =
     (case last_index_byte (CHR '':'') hostport of
        None \<Rightarrow> Inl MissingPort
      | Some i \<Rightarrow>
          if hd hostport = CHR ''['' then
            (case index_byte (CHR '']'') hostport of
               None \<Rightarrow> Inl MissingBracket
             | Some e \<Rightarrow>
                 if Suc e = length hostport then Inl MissingPort
                 else if Suc e = i then unbracketed i 1 (Suc e) hostport (take (e - 1) (drop 1 hostport))
                 else if hostport ! Suc e = CHR '':'' then Inl TooManyColons
                 else Inl MissingPort)
          else
            (let host = take i hostport in
             if CHR '':'' \<in> set host then Inl TooManyColons
             else unbracketed i 0 0 hostport host))"

section \<open>IP addresses\<close>

fun parseIPv4Fields :: "nat \<Rightarrow> nat \<Rightarrow> nat list \<Rightarrow> string \<Rightarrow> nat list option" where
  "parseIPv4Fields val digLen flds [] = (if length flds < 3 then None else Some (flds @ [val]))"
| "parseIPv4Fields val digLen flds (c # s) =
     (if is_digit c then
        (if digLen = 1 \<and> val = 0 then None
         else if 255 < val * 10 + digit_val c then None
         else parseIPv4Fields (val * 10 + digit_val c) (Suc digLen) flds s)
      else if c = CHR ''.'' then
        (if digLen = 0 \<or> s = [] then None
         else if length flds = 3 then None
         else parseIPv4Fields 0 0 (flds @ [val]) s)
      else None)"

definition hex_number :: "string \<Rightarrow> nat" where
  "hex_number ds = foldl (\<lambda>acc c. acc * 16 + the (hex_val c)) 0 ds"

text \<open>
  The loop over the groups of an IPv6 address: at most eight rounds, each of which appends two
  bytes (or the four of an embedded IPv4 address, which is the last round). It gives the bytes,
  the position of the ellipsis and the text that is left.
\<close>

fun parseIPv6Groups :: "nat \<Rightarrow> nat list \<Rightarrow> nat option \<Rightarrow> string \<Rightarrow> (nat list \<times> nat option \<times> string) option" where
  "parseIPv6Groups 0 ip ellipsis s = Some (ip, ellipsis, s)"
| "parseIPv6Groups (Suc n) ip ellipsis s =
     (let digits = takeWhile is_hex s; rest = dropWhile is_hex s; acc = hex_number digits;
          ip' = ip @ [acc div 256, acc mod 256]
      in
      if 4 < length digits \<or> digits = [] then None
      else if rest \<noteq> [] \<and> hd rest = CHR ''.'' then
        (if ellipsis = None \<and> length ip \<noteq> 12 then None
         else if 16 < length ip + 4 then None
         else map_option (\<lambda>quad. (ip @ quad, ellipsis, [])) (parseIPv4Fields 0 0 [] s))
      else
        (case rest of
           [] \<Rightarrow> Some (ip', ellipsis, [])
         | c # t \<Rightarrow>
             if c \<noteq> CHR '':'' \<or> t = [] then None
             else if hd t = CHR '':'' then
               (if ellipsis \<noteq> None then None
                else if tl t = [] then Some (ip', Some (length ip'), [])
                else parseIPv6Groups n ip' (Some (length ip')) (tl t))
             else parseIPv6Groups n ip' ellipsis t))"

definition expandIPv6 :: "nat list \<times> nat option \<times> string \<Rightarrow> nat list option" where
  "expandIPv6 parsed =
     (case parsed of (ip, ellipsis, s) \<Rightarrow>
        if s \<noteq> [] then None
        else if length ip < 16 then
          map_option (\<lambda>e. take e ip @ replicate (16 - length ip) 0 @ drop e ip) ellipsis
        else if ellipsis \<noteq> None then None else Some ip)"

definition parseIPv6 :: "string \<Rightarrow> nat list option" where
  "parseIPv6 s =
     (if prefix ''::'' s then
        (if length s = 2 then Some (replicate 16 0)
         else Option.bind (parseIPv6Groups 8 [] (Some 0) (drop 2 s)) expandIPv6)
      else Option.bind (parseIPv6Groups 8 [] None s) expandIPv6)"

definition mapped :: "nat list \<Rightarrow> nat list" where
  "mapped quad = replicate 10 0 @ [255, 255] @ quad"

text \<open>
  The first byte that is a dot, a colon or a percent sign chooses the parser. An address with a
  zone is no \<^verbatim>\<open>net.IP\<close>, and an empty zone is an error.
\<close>

definition ParseIP :: "string \<Rightarrow> nat list option" where
  "ParseIP s =
     (case dropWhile (\<lambda>c. c \<notin> set ''.:%'') s of
        [] \<Rightarrow> None
      | c # _ \<Rightarrow>
          if c = CHR ''.'' then map_option mapped (parseIPv4Fields 0 0 [] s)
          else if c = CHR '':'' then (if CHR ''%'' \<in> set s then None else parseIPv6 s)
          else None)"

definition To4 :: "nat list \<Rightarrow> nat list option" where
  "To4 ip = (if take 12 ip = replicate 10 0 @ [255, 255] then Some (drop 12 ip) else None)"

definition IsLoopback :: "nat list \<Rightarrow> bool" where
  "IsLoopback ip =
     (case To4 ip of
        Some ip4 \<Rightarrow> hd ip4 = 127
      | None \<Rightarrow> ip = replicate 15 0 @ [1])"

section \<open>Lemmas on hosts and ports\<close>

lemma index_byte_first: "c \<notin> set xs \<Longrightarrow> index_byte c (xs @ c # ys) = Some (length xs)"
  by (auto simp: index_byte_def takeWhile_append2 takeWhile_append split: if_splits)

lemma last_index_byte_last: "c \<notin> set ys \<Longrightarrow> last_index_byte c (xs @ c # ys) = Some (length xs)"
  using index_byte_first [of c "rev ys" "rev xs"] by (simp add: last_index_byte_def)

lemma last_index_byte_None [simp]: "last_index_byte c s = None \<longleftrightarrow> c \<notin> set s"
  by (simp add: last_index_byte_def index_byte_def)

lemma index_byte_None [simp]: "index_byte c s = None \<longleftrightarrow> c \<notin> set s"
  by (simp add: index_byte_def)

lemma last_index_byte_Some:
  assumes "last_index_byte c s = Some i"
  shows "s = take i s @ c # drop (Suc i) s" and "c \<notin> set (drop (Suc i) s)"
    and "drop i s = c # drop (Suc i) s"
proof -
  have "c \<in> set s" using assms last_index_byte_None [of c s] by (cases "c \<in> set s") auto
  then obtain xs ys where "s = xs @ c # ys" "c \<notin> set ys" using split_list_last by metis
  with assms last_index_byte_last [of c ys xs] show "s = take i s @ c # drop (Suc i) s" "c \<notin> set (drop (Suc i) s)"
    "drop i s = c # drop (Suc i) s"
    by auto
qed

lemma index_byte_Some:
  assumes "index_byte c s = Some i"
  shows "s = take i s @ c # drop (Suc i) s"
proof -
  have "c \<in> set s" using assms by (auto simp: index_byte_def split: if_splits)
  then obtain xs ys where "s = xs @ c # ys" "c \<notin> set xs" using split_list_first by metis
  with assms index_byte_first [of c xs ys] show ?thesis by auto
qed

definition plain :: "string \<Rightarrow> bool" where
  "plain s \<longleftrightarrow> CHR '':'' \<notin> set s \<and> CHR ''['' \<notin> set s \<and> CHR '']'' \<notin> set s"

lemma split_plain:
  assumes "plain host" and "plain port"
  shows "SplitHostPort (host @ '':'' @ port) = Inr (host, port)"
proof -
  have "last_index_byte (CHR '':'') (host @ CHR '':'' # port) = Some (length host)"
    using assms by (intro last_index_byte_last) (simp add: plain_def)
  moreover have "hd (host @ CHR '':'' # port) \<noteq> CHR ''[''"
    using assms by (cases host) (auto simp: plain_def)
  ultimately show ?thesis using assms by (simp add: SplitHostPort_def unbracketed_def plain_def)
qed

lemma split_bracketed:
  assumes "CHR ''['' \<notin> set host" and "CHR '']'' \<notin> set host" and "plain port"
  shows "SplitHostPort (''['' @ host @ '']:'' @ port) = Inr (host, port)"
proof -
  let ?s = "CHR ''['' # host @ CHR '']'' # CHR '':'' # port"
  have "last_index_byte (CHR '':'') ?s = Some (length host + 2)"
    using last_index_byte_last [of "CHR '':''" port "CHR ''['' # host @ [CHR '']'']"] assms(3)
    by (simp add: plain_def)
  moreover have "index_byte (CHR '']'') ?s = Some (length host + 1)"
    using index_byte_first [of "CHR '']''" "CHR ''['' # host" "CHR '':'' # port"] assms(2) by simp
  ultimately show ?thesis using assms by (simp add: SplitHostPort_def unbracketed_def plain_def)
qed

lemma split_inverse:
  assumes "SplitHostPort s = Inr (host, port)"
  shows "(s = host @ '':'' @ port \<and> CHR '':'' \<notin> set host \<or> s = ''['' @ host @ '']:'' @ port)
    \<and> CHR '':'' \<notin> set port"
proof -
  obtain i where i: "last_index_byte (CHR '':'') s = Some i"
    using assms by (auto simp: SplitHostPort_def split: option.splits)
  note last = last_index_byte_Some [OF i]
  show ?thesis
  proof (cases "hd s = CHR ''[''")
    case True
    then obtain e where e: "index_byte (CHR '']'') s = Some e" "Suc e = i"
      and hp: "host = take (e - 1) (drop 1 s)" "port = drop (Suc i) s"
      using assms i by (auto simp: SplitHostPort_def unbracketed_def split: option.splits if_splits)
    obtain t where t: "s = CHR ''['' # t" using True last(1) by (cases s) auto
    then obtain e' where e': "e = Suc e'" using index_byte_Some [OF e(1)] by (cases e) auto
    have "s = take e s @ CHR '']'' # drop (Suc e) s" by (rule index_byte_Some [OF e(1)])
    moreover have "drop (Suc e) s = CHR '':'' # port"
      using last(3) e(2) hp(2) by simp
    moreover have "take e s = CHR ''['' # host" using t e' hp(1) by simp
    ultimately have "s = ''['' @ host @ '']:'' @ port" by simp
    moreover have "CHR '':'' \<notin> set port" unfolding hp(2) by (rule last(2))
    ultimately show ?thesis by (intro conjI disjI2)
  next
    case False
    with assms i have "host = take i s" "CHR '':'' \<notin> set host" "port = drop (Suc i) s"
      by (auto simp: SplitHostPort_def unbracketed_def Let_def split: if_splits)
    with last show ?thesis by simp
  qed
qed

section \<open>Lemmas on IP addresses\<close>

definition octets :: "nat list \<Rightarrow> bool" where
  "octets ip \<longleftrightarrow> list_all (\<lambda>b. b < 256) ip"

lemma octets_append [simp]: "octets (xs @ ys) \<longleftrightarrow> octets xs \<and> octets ys"
  by (simp add: octets_def)

lemma octets_simps [simp]: "octets []" "octets (b # bs) \<longleftrightarrow> b < 256 \<and> octets bs" "octets (replicate n 0)"
  by (simp_all add: octets_def list_all_iff)

lemma octets_take_drop: "octets xs \<Longrightarrow> octets (take n xs) \<and> octets (drop n xs)"
  by (metis append_take_drop_id octets_append)

lemma parseIPv4Fields_octets:
  "parseIPv4Fields val k flds s = Some ip \<Longrightarrow> octets flds \<Longrightarrow> val < 256 \<Longrightarrow> length flds \<le> 3 \<Longrightarrow>
   length ip = 4 \<and> octets ip"
  by (induction val k flds s rule: parseIPv4Fields.induct) (auto split: if_splits)

lemma hex_number_bound: "list_all is_hex ds \<Longrightarrow> hex_number ds < 16 ^ length ds"
proof (induction ds rule: rev_induct)
  case (snoc c ds)
  then obtain v where "hex_val c = Some v" by (auto simp: is_hex_def)
  moreover from this have "v < 16" by (auto simp: hex_val_def Let_def split: if_splits)
  ultimately show ?case using snoc by (simp add: hex_number_def)
qed (simp add: hex_number_def)

lemma hex_group_octets:
  assumes "length (takeWhile is_hex s) \<le> 4"
  shows "hex_number (takeWhile is_hex s) div 256 < 256"
proof -
  have "list_all is_hex (takeWhile is_hex s)" by (auto simp: list_all_iff dest: set_takeWhileD)
  then have "hex_number (takeWhile is_hex s) < 16 ^ length (takeWhile is_hex s)" by (rule hex_number_bound)
  also have "\<dots> \<le> 16 ^ 4" using assms by (intro power_increasing) simp_all
  finally show ?thesis by simp
qed

definition groups_ok :: "nat list \<times> nat option \<times> string \<Rightarrow> bool" where
  "groups_ok parsed = (case parsed of (ip, ellipsis, s) \<Rightarrow>
     length ip \<le> 16 \<and> octets ip \<and> (\<forall>e. ellipsis = Some e \<longrightarrow> e \<le> length ip))"

lemma parseIPv6Groups_ok:
  "parseIPv6Groups n ip ell s = Some r \<Longrightarrow> length ip + 2 * n = 16 \<Longrightarrow> octets ip \<Longrightarrow>
   (\<forall>e. ell = Some e \<longrightarrow> e \<le> length ip) \<Longrightarrow> groups_ok r"
proof (induction n arbitrary: ip ell s)
  case 0
  then show ?case by (auto simp: groups_ok_def)
next
  case (Suc n)
  let ?acc = "hex_number (takeWhile is_hex s)"
  let ?ip = "ip @ [?acc div 256, ?acc mod 256]"
  let ?short = "length (takeWhile is_hex s) \<le> 4"
  have len: "length ?ip + 2 * n = 16" using Suc.prems(2) by simp
  have oct: "octets ?ip" if ?short using Suc.prems(3) hex_group_octets [OF that] by simp
  have old: "\<forall>e. ell = Some e \<longrightarrow> e \<le> length ?ip" using Suc.prems(4) by auto
  have quad: "groups_ok (ip @ quad, e, [])"
    if "parseIPv4Fields 0 0 [] s = Some quad" "length ip \<le> 12" "ell = e" for quad e
    using that Suc.prems(3,4) parseIPv4Fields_octets [of 0 0 "[]" s quad] by (auto simp: groups_ok_def)
  have stop: "groups_ok (?ip, ell, [])" "groups_ok (?ip, Some (Suc (Suc (length ip))), [])" if ?short
    using len old oct [OF that] by (simp_all add: groups_ok_def)
  have more: "groups_ok r" if "parseIPv6Groups n ?ip ell t = Some r" ?short for t
    by (rule Suc.IH [OF that(1) len oct [OF that(2)] old])
  have dots: "groups_ok r" if "parseIPv6Groups n ?ip (Some (Suc (Suc (length ip)))) t = Some r" ?short for t
    by (rule Suc.IH [OF that(1) len oct [OF that(2)]]) simp
  show ?case
    using Suc.prems(1)
    by (simp add: Let_def not_less split: if_splits list.splits) (auto simp: stop intro: quad more dots)
qed

lemma expandIPv6_octets: "groups_ok parsed \<Longrightarrow> expandIPv6 parsed = Some ip \<Longrightarrow> length ip = 16 \<and> octets ip"
  by (auto simp: groups_ok_def expandIPv6_def octets_take_drop split: if_splits)

text \<open>A parsed address is sixteen bytes.\<close>

lemma ParseIP_octets:
  assumes "ParseIP s = Some ip"
  shows "length ip = 16 \<and> octets ip"
proof -
  have groups: "length ip = 16 \<and> octets ip"
    if "Option.bind (parseIPv6Groups 8 [] ell t) expandIPv6 = Some ip" "\<forall>e. ell = Some e \<longrightarrow> e \<le> 0" for ell t
    using that parseIPv6Groups_ok [of 8 "[]" ell t] by (auto simp: bind_eq_Some_conv dest: expandIPv6_octets)
  from assms consider quad where "parseIPv4Fields 0 0 [] s = Some quad" "ip = mapped quad" | "parseIPv6 s = Some ip"
    by (auto simp: ParseIP_def split: list.splits if_splits)
  then show ?thesis
  proof cases
    case 1
    then show ?thesis using parseIPv4Fields_octets [of 0 0 "[]" s quad] by (simp add: mapped_def)
  next
    case 2
    then show ?thesis
      using groups [of "Some 0" "drop 2 s"] groups [of None s] by (auto simp: parseIPv6_def split: if_splits)
  qed
qed

text \<open>Dotted quads, printed and parsed back.\<close>

definition dotted :: "nat \<Rightarrow> nat \<Rightarrow> nat \<Rightarrow> nat \<Rightarrow> string" where
  "dotted a b c d = show_nat a @ ''.'' @ show_nat b @ ''.'' @ show_nat c @ ''.'' @ show_nat d"

lemma parse_octet:
  assumes "n < 256"
  shows "parseIPv4Fields 0 0 flds (show_nat n @ s) = parseIPv4Fields n (length (show_nat n)) flds s"
proof -
  consider "n < 10" | "10 \<le> n" "n < 100" | "100 \<le> n" by linarith
  then show ?thesis
  proof cases
    case 1
    then show ?thesis by (subst (1 2) show_nat.simps) simp
  next
    case 2
    then have tens: "n div 10 \<noteq> 0" "n div 10 < 10" by auto
    with 2 have "show_nat n = [digit_char (n div 10), digit_char (n mod 10)]"
      by (subst show_nat.simps, subst show_nat.simps) simp
    then show ?thesis using assms tens by simp
  next
    case 3
    have hundreds: "n div 100 \<noteq> 0" "n div 100 < 10" "n div 10 mod 10 < 10" "\<not> 255 < n div 10" using 3 assms by auto
    have "show_nat n = [digit_char (n div 100), digit_char (n div 10 mod 10), digit_char (n mod 10)]"
      using 3 assms by (subst show_nat.simps, subst show_nat.simps, subst show_nat.simps) (auto simp flip: div_mult2_eq)
    moreover have "n div 100 * 10 + n div 10 mod 10 = n div 10"
      using div_mult_mod_eq [of "n div 10" 10] by (simp flip: div_mult2_eq)
    ultimately show ?thesis using assms hundreds by simp
  qed
qed

lemma show_nat_no_mark: "\<not> is_digit c \<Longrightarrow> c \<notin> set (show_nat n)"
  using show_nat_digit by blast

lemma parse_dotted:
  assumes "a < 256" "b < 256" "c < 256" "d < 256"
  shows "parseIPv4Fields 0 0 [] (dotted a b c d) = Some [a, b, c, d]"
proof -
  have dot: "parseIPv4Fields n (length (show_nat n)) flds (CHR ''.'' # show_nat m @ s) =
      parseIPv4Fields 0 0 (flds @ [n]) (show_nat m @ s)" if "length flds < 3" for n m flds s
    using that by (simp add: is_digit_def)
  show ?thesis
    using parse_octet [OF assms(1)] parse_octet [OF assms(2)] parse_octet [OF assms(3)]
      parse_octet [OF assms(4), of _ "[]"] dot [where s = "[]"]
    by (simp add: dotted_def dot del: parseIPv4Fields.simps(2))
qed

lemma ParseIP_dotted:
  assumes "a < 256" "b < 256" "c < 256" "d < 256"
  shows "ParseIP (dotted a b c d) = Some (mapped [a, b, c, d])"
proof -
  have "dropWhile (\<lambda>c. c \<notin> set ''.:%'') (show_nat a @ CHR ''.'' # t) = CHR ''.'' # t" for t
    by (subst dropWhile_append2) (auto simp: show_nat_digit is_digit_def dest!: show_nat_digit)
  then show ?thesis using parse_dotted [OF assms] by (simp add: ParseIP_def dotted_def)
qed

lemma IsLoopback_mapped: "IsLoopback (mapped [a, b, c, d]) \<longleftrightarrow> a = 127"
  by (simp add: IsLoopback_def To4_def mapped_def)

lemma plain_dotted: "plain (dotted a b c d)"
  using show_nat_no_mark [of "CHR '':''"] show_nat_no_mark [of "CHR ''[''"] show_nat_no_mark [of "CHR '']''"]
  by (simp add: plain_def dotted_def is_digit_def)

end
