(* ===== verification/Backend.thy ===== *)
theory Backend
  imports Proto
begin

text \<open>
  \<^verbatim>\<open>backend_stream.go\<close>: the streaming service of the model edge. The
  \<^verbatim>\<open>contracts.Backend\<close> behind the skeleton and the codecs of its prompt and event types
  are parameters, and so are the operations of the gRPC streams on either side.

  The real backend may call \<^verbatim>\<open>onEvent\<close> from any goroutine, even after its
  \<^verbatim>\<open>Respond\<close> has returned. Every call runs under \<^verbatim>\<open>sendLock\<close>, so a run
  is the sequence of the calls in the order they get the lock, with the closing of the stream
  somewhere in it; \<^verbatim>\<open>Turn_Threads\<close> derives this from the statements of the goroutines.
\<close>

section \<open>Frames\<close>

definition PortBackend :: string where "PortBackend = ''backend''"
definition respondMethod :: string where "respondMethod = ''Respond''"
definition backendRespondFullMethod :: string where
  "backendRespondFullMethod = ''/herrscher.transport.v1.BackendStream/Respond''"

record 'e backendFrame =
  Event :: "'e option"
  Done :: bool
  Reply :: string
  Error :: string

definition frame_codec :: "'e codec \<Rightarrow> 'e backendFrame codec" where
  "frame_codec ec = \<lparr>
     enc = (\<lambda>f. map_option JObj (map_option concat (those
        [case Event f of None \<Rightarrow> Some [] | Some e \<Rightarrow> map_option (\<lambda>j. [(''event'', j)]) (enc ec e),
         Some (if Done f then [(''done'', JBool True)] else []),
         Some (if Reply f = [] then [] else [(''reply'', JStr (Reply f))]),
         Some (if Error f = [] then [] else [(''error'', JStr (Error f))])]))),
     zero_val = \<lparr> Event = None, Done = False, Reply = [], Error = [] \<rparr>,
     dec_into = dec_struct
       [(''event'', field (ptr_codec ec) Event (\<lambda>v f. f\<lparr>Event := v\<rparr>)),
        (''done'', field bool_codec Done (\<lambda>v f. f\<lparr>Done := v\<rparr>)),
        (''reply'', field string_codec Reply (\<lambda>v f. f\<lparr>Reply := v\<rparr>)),
        (''error'', field string_codec Error (\<lambda>v f. f\<lparr>Error := v\<rparr>))] \<rparr>"

definition event_frame :: "'e \<Rightarrow> 'e backendFrame" where
  "event_frame e = \<lparr> Event = Some e, Done = False, Reply = [], Error = [] \<rparr>"

definition done_frame :: "string \<Rightarrow> string \<Rightarrow> 'e backendFrame" where
  "done_frame reply err = \<lparr> Event = None, Done = True, Reply = reply, Error = err \<rparr>"

definition errString :: "'b runtime \<Rightarrow> 'b go_error option \<Rightarrow> string" where
  "errString rt err = (case err of Some e \<Rightarrow> error_text rt e | None \<Rightarrow> [])"

section \<open>The skeleton\<close>

type_synonym ('w, 'b) send = "'w \<Rightarrow> result_envelope \<Rightarrow> 'w \<times> 'b go_error option"

record ('w, 'b) send_state =
  out_stream :: 'w
  sendErr :: "'b go_error option"
  stream_closed :: bool

definition send_payload :: "('w, 'b) send \<Rightarrow> 'w \<Rightarrow> string \<Rightarrow> 'w \<times> 'b go_error option" where
  "send_payload send w payload = send w \<lparr> ResPayload = payload, ResError = [] \<rparr>"

definition on_event ::
  "'e codec \<Rightarrow> ('w, 'b) send \<Rightarrow> ('w, 'b) send_state \<Rightarrow> 'e \<Rightarrow> ('w, 'b) send_state" where
  "on_event ec send st event =
     (if stream_closed st \<or> sendErr st \<noteq> None then st
      else
        (case Marshal (frame_codec ec) (event_frame event) of
           Inl err \<Rightarrow> st\<lparr>sendErr := Some err\<rparr>
         | Inr payload \<Rightarrow>
           (case send_payload send (out_stream st) payload of
              (w, Some err) \<Rightarrow> st\<lparr>out_stream := w, sendErr := Some err\<rparr>
            | (w, None) \<Rightarrow> st\<lparr>out_stream := w\<rparr>)))"

text \<open>
  One turn of the real backend: the events it emits until the skeleton closes the stream, those
  that come later, its reply and its error.
\<close>

record ('s, 'b, 'e) turn =
  after_turn :: 's
  turn_events :: "'e list"
  late_events :: "'e list"
  turn_reply :: string
  turn_err :: "'b go_error option"

definition respond ::
  "'b runtime \<Rightarrow> 'p codec \<Rightarrow> 'e codec \<Rightarrow> ('s \<Rightarrow> 'p \<Rightarrow> ('s, 'b, 'e) turn) \<Rightarrow> ('w, 'b) send
   \<Rightarrow> 's \<Rightarrow> method_envelope \<Rightarrow> 'w \<Rightarrow> 's \<times> 'w \<times> 'b go_error option" where
  "respond rt pc ec real send s req w =
     (if Port req \<noteq> PortBackend then (s, w, Some (UnknownPortError (Port req)))
      else
        (case decodeArgs rt (JsonPayload req) [whole pc] (zero_val pc) of
           Inl err \<Rightarrow> (s, w, Some (wrap rt ''transport: decode backend prompt'' err))
         | Inr prompt \<Rightarrow>
           (let t = real s prompt;
                st = foldl (on_event ec send) \<lparr> out_stream = w, sendErr = None, stream_closed = False \<rparr> (turn_events t);
                shut = st\<lparr>stream_closed := True\<rparr>;
                w' = out_stream (foldl (on_event ec send) shut (late_events t))
            in
            (case sendErr shut of
               Some err \<Rightarrow> (after_turn t, w', Some (wrap rt ''transport: backend event stream'' err))
             | None \<Rightarrow>
               (case Marshal (frame_codec ec) (done_frame (turn_reply t) (errString rt (turn_err t))) of
                  Inl err \<Rightarrow> (after_turn t, w', Some (wrap rt ''transport: encode backend reply'' err))
                | Inr payload \<Rightarrow>
                  (case send_payload send w' payload of
                     (w'', Some err) \<Rightarrow> (after_turn t, w'', Some (wrap rt ''transport: send backend reply'' err))
                   | (w'', None) \<Rightarrow> (after_turn t, w'', None)))))))"

text \<open>
  The stream handler: the request is received first, then the registered server, if it is one
  that responds, takes over.
\<close>

definition backendRespondHandler ::
  "('s \<Rightarrow> method_envelope \<Rightarrow> 'w \<Rightarrow> 's \<times> 'w \<times> 'b go_error option) option
   \<Rightarrow> ('w \<Rightarrow> 'w \<times> ('b, method_envelope) result) \<Rightarrow> 's \<Rightarrow> 'w \<Rightarrow> 's \<times> 'w \<times> 'b go_error option" where
  "backendRespondHandler srv recv s w =
     (case recv w of
        (w', Inl err) \<Rightarrow> (s, w', Some err)
      | (w', Inr req) \<Rightarrow>
        (case srv of
           None \<Rightarrow> (s, w', Some (Sentinel ErrBackendStreamNotResponder))
         | Some handler \<Rightarrow> handler s req w'))"

text \<open>
  The descriptor of the service, what registering a backend hands to the server (the descriptor
  with a server that responds), and the stream the server runs for a name and a request.
\<close>

type_synonym ('s, 'w, 'b) stream_server = "('s \<Rightarrow> method_envelope \<Rightarrow> 'w \<Rightarrow> 's \<times> 'w \<times> 'b go_error option) option"

type_synonym ('s, 'w, 'b) stream_handler =
  "('s, 'w, 'b) stream_server \<Rightarrow> ('w \<Rightarrow> 'w \<times> ('b, method_envelope) result) \<Rightarrow> 's \<Rightarrow> 'w \<Rightarrow> 's \<times> 'w \<times> 'b go_error option"

definition backendStreamServiceDesc :: "(unit, ('s, 'w, 'b) stream_handler) service_desc" where
  "backendStreamServiceDesc =
     \<lparr> ServiceName = ''herrscher.transport.v1.BackendStream'', Methods = [],
       Streams = [(respondMethod, backendRespondHandler)] \<rparr>"

definition RegisterBackendSkeleton ::
  "'b runtime \<Rightarrow> 'p codec \<Rightarrow> 'e codec \<Rightarrow> ('s \<Rightarrow> 'p \<Rightarrow> ('s, 'b, 'e) turn) \<Rightarrow> ('w, 'b) send
   \<Rightarrow> (unit, ('s, 'w, 'b) stream_handler) service_desc \<times> ('s, 'w, 'b) stream_server" where
  "RegisterBackendSkeleton rt pc ec impl send = (backendStreamServiceDesc, Some (respond rt pc ec impl send))"

definition serve_stream ::
  "(unit, ('s, 'w, 'b) stream_handler) service_desc \<times> ('s, 'w, 'b) stream_server \<Rightarrow> string \<Rightarrow> method_envelope \<Rightarrow> 's \<Rightarrow> 'w
   \<Rightarrow> 's \<times> 'w \<times> 'b go_error option" where
  "serve_stream registered nm req s w =
     (case registered of (desc, srv) \<Rightarrow>
        (case map_of (map (\<lambda>(st, h). (full_method desc st, h)) (Streams desc)) nm of
           Some h \<Rightarrow> h srv (\<lambda>w. (w, Inr req)) s w
         | None \<Rightarrow> (s, w, Some (OpaqueError ''rpc error: code = Unimplemented''))))"

lemma serve_respond:
  "serve_stream (RegisterBackendSkeleton rt pc ec impl send) backendRespondFullMethod req s w =
     respond rt pc ec impl send s req w"
  by (simp add: serve_stream_def RegisterBackendSkeleton_def backendStreamServiceDesc_def full_method_def
      respondMethod_def backendRespondFullMethod_def backendRespondHandler_def)

section \<open>The proxy\<close>

record ('w, 'b) ClientConn =
  NewStream :: "'w \<Rightarrow> string \<Rightarrow> 'w \<times> 'b go_error option"
  SendMsg :: "'w \<Rightarrow> method_envelope \<Rightarrow> 'w \<times> 'b go_error option"
  CloseSend :: "'w \<Rightarrow> 'w \<times> 'b go_error option"
  RecvMsg :: "'w \<Rightarrow> 'w \<times> ('b, result_envelope) result"

record ('w, 'b) BackendProxy =
  bp_cc :: "('w, 'b) ClientConn"
  bp_dialed :: "('w \<Rightarrow> 'w \<times> 'b go_error option) option"

definition NewBackendProxy :: "('w, 'b) ClientConn \<Rightarrow> ('w, 'b) BackendProxy" where
  "NewBackendProxy cc = \<lparr> bp_cc = cc, bp_dialed = None \<rparr>"

definition receiveFailure :: "'b runtime \<Rightarrow> 'b go_error \<Rightarrow> 'b go_error" where
  "receiveFailure rt err =
     (if errors_is IoEOF err
      then wrap rt ''backend: stream ended before reply{done}'' (Sentinel IoUnexpectedEOF)
      else wrap rt ''backend: remote stream'' err)"

record 'b frameOutcome =
  fo_reply :: string
  terminal :: bool
  fo_err :: "'b go_error option"

definition applyBackendFrame ::
  "'b runtime \<Rightarrow> 'e codec \<Rightarrow> result_envelope \<Rightarrow> ('h \<Rightarrow> 'e \<Rightarrow> 'h) option \<Rightarrow> 'h \<Rightarrow> 'h \<times> 'b frameOutcome" where
  "applyBackendFrame rt ec frame onEvent h =
     (case Unmarshal (ResPayload frame) (frame_codec ec) (zero_val (frame_codec ec)) of
        Inl e \<Rightarrow> (h, \<lparr> fo_reply = [], terminal = True, fo_err = Some (wrap rt ''backend: decode frame'' e) \<rparr>)
      | Inr decoded \<Rightarrow>
        (case Event decoded of
           Some event \<Rightarrow>
             ((case onEvent of Some f \<Rightarrow> f h event | None \<Rightarrow> h), \<lparr> fo_reply = [], terminal = False, fo_err = None \<rparr>)
         | None \<Rightarrow>
             if \<not> Done decoded then (h, \<lparr> fo_reply = [], terminal = True, fo_err = Some (Sentinel ErrInvalidFrame) \<rparr>)
             else if Error decoded \<noteq> []
             then (h, \<lparr> fo_reply = Reply decoded, terminal = True, fo_err = Some (RemoteError (Error decoded)) \<rparr>)
             else (h, \<lparr> fo_reply = Reply decoded, terminal = True, fo_err = None \<rparr>)))"

definition openRespondStream :: "'b runtime \<Rightarrow> ('w, 'b) ClientConn \<Rightarrow> string \<Rightarrow> 'w \<Rightarrow> 'w \<times> 'b go_error option" where
  "openRespondStream rt cc payload w =
     (case NewStream cc w backendRespondFullMethod of
        (w1, Some e) \<Rightarrow> (w1, Some (wrap rt ''backend: open stream'' e))
      | (w1, None) \<Rightarrow>
        (case SendMsg cc w1 \<lparr> Port = PortBackend, Method = respondMethod, JsonPayload = payload \<rparr> of
           (w2, Some e) \<Rightarrow> (w2, Some (wrap rt ''backend: send prompt'' e))
         | (w2, None) \<Rightarrow>
           (case CloseSend cc w2 of
              (w3, Some e) \<Rightarrow> (w3, Some (wrap rt ''backend: close send'' e))
            | (w3, None) \<Rightarrow> (w3, None))))"

text \<open>The receive loop runs as long as the peer sends events; None is a loop that never returns.\<close>

partial_function (option) receive_loop ::
  "'b runtime \<Rightarrow> 'e codec \<Rightarrow> ('w \<Rightarrow> 'w \<times> ('b, result_envelope) result) \<Rightarrow> ('h \<Rightarrow> 'e \<Rightarrow> 'h) option
   \<Rightarrow> 'w \<Rightarrow> 'h \<Rightarrow> ('w \<times> 'h \<times> string \<times> 'b go_error option) option" where
  "receive_loop rt ec recv onEvent w h =
     (case recv w of
        (w', Inl e) \<Rightarrow> Some (w', h, [], Some (receiveFailure rt e))
      | (w', Inr frame) \<Rightarrow>
        (case applyBackendFrame rt ec frame onEvent h of
           (h', outcome) \<Rightarrow>
             if terminal outcome then Some (w', h', fo_reply outcome, fo_err outcome)
             else receive_loop rt ec recv onEvent w' h'))"

definition BackendProxy_Respond ::
  "'b runtime \<Rightarrow> 'p codec \<Rightarrow> 'e codec \<Rightarrow> ('w, 'b) BackendProxy \<Rightarrow> 'p \<Rightarrow> ('h \<Rightarrow> 'e \<Rightarrow> 'h) option
   \<Rightarrow> 'w \<Rightarrow> 'h \<Rightarrow> ('w \<times> 'h \<times> string \<times> 'b go_error option) option" where
  "BackendProxy_Respond rt pc ec p prompt onEvent w h =
     (case encodeArgs [enc pc prompt] of
        Inl e \<Rightarrow> Some (w, h, [], Some e)
      | Inr payload \<Rightarrow>
        (case openRespondStream rt (bp_cc p) payload w of
           (w', Some e) \<Rightarrow> Some (w', h, [], Some e)
         | (w', None) \<Rightarrow> receive_loop rt ec (RecvMsg (bp_cc p)) onEvent w' h))"

definition BackendProxy_Close :: "('w, 'b) BackendProxy \<Rightarrow> 'w \<Rightarrow> 'w \<times> 'b go_error option" where
  "BackendProxy_Close p w = (case bp_dialed p of Some close \<Rightarrow> close w | None \<Rightarrow> (w, None))"

section \<open>Lemmas on frames\<close>

text \<open>
  What the frames need of the event type beyond the law of its codec: an event does not marshal
  to null, which a pointer reads as absent. It holds for every Go struct.
\<close>

locale struct_law = codec_law +
  assumes not_null: "fit v \<Longrightarrow> enc c v \<noteq> Some JNull"
begin

lemma ptr_dec:
  assumes "fit v" and "enc c v = Some j"
  shows "dec_into (ptr_codec c) strict None j = Some (Some v)"
  using dec_enc [OF assms, of strict] not_null [OF assms(1)] assms(2)
  by (cases j) (auto simp: ptr_codec_def)

end

interpretation string_struct: struct_law string_codec valid_utf8 0
  by unfold_locales simp

definition wire_struct :: "'a codec \<Rightarrow> ('a \<Rightarrow> bool) \<Rightarrow> bool" where
  "wire_struct c fit \<longleftrightarrow> (\<exists>d. Suc d < max_nesting \<and> struct_law c fit d)"

lemma frame_fields [simp]:
  "find_field [(''event'', f), (''done'', g), (''reply'', h), (''error'', i)] ''event'' = Some f"
  "find_field [(''event'', f), (''done'', g), (''reply'', h), (''error'', i)] ''done'' = Some g"
  "find_field [(''event'', f), (''done'', g), (''reply'', h), (''error'', i)] ''reply'' = Some h"
  "find_field [(''event'', f), (''done'', g), (''reply'', h), (''error'', i)] ''error'' = Some i"
  by (simp_all add: find_field_def)

definition frame_fit :: "('e \<Rightarrow> bool) \<Rightarrow> 'e backendFrame \<Rightarrow> bool" where
  "frame_fit fit f \<longleftrightarrow> (\<forall>e. Event f = Some e \<longrightarrow> fit e) \<and> valid_utf8 (Reply f) \<and> valid_utf8 (Error f)"

context struct_law
begin

lemma frame_law: "codec_law (frame_codec c) (frame_fit fit) (Suc d)"
proof
  fix f :: "'a backendFrame" and j strict
  assume fits: "frame_fit fit f"
  show "\<exists>j. enc (frame_codec c) f = Some j \<and> wire_json (Suc d) j"
  proof (cases "Event f")
    case None
    then show ?thesis using fits
      by (auto simp: frame_codec_def frame_fit_def valid_utf8_ascii intro!: wire_json_JObj)
  next
    case (Some e)
    then obtain k where "enc c e = Some k" "wire_json d k" using fits enc_fit [of e] by (auto simp: frame_fit_def)
    then show ?thesis using Some fits
      by (auto simp: frame_codec_def frame_fit_def valid_utf8_ascii intro!: wire_json_JObj)
  qed
  show "dec_into (frame_codec c) strict (zero_val (frame_codec c)) j = Some f"
    if "enc (frame_codec c) f = Some j"
  proof (cases "Event f")
    case None
    then show ?thesis using that
      by (auto simp: frame_codec_def wire_simps)
  next
    case (Some e)
    then obtain k where k: "enc c e = Some k" using fits enc_fit [of e] by (auto simp: frame_fit_def)
    then have "dec_into (ptr_codec c) strict None k = Some (Some e)"
      using fits Some by (intro ptr_dec) (auto simp: frame_fit_def)
    then show ?thesis using that Some k
      by (auto simp: frame_codec_def wire_simps)
  qed
qed

end

lemma wire_frame:
  fixes rt :: "'b runtime"
  assumes "wire_struct ec fit" and "frame_fit fit f"
  obtains p where "Marshal (frame_codec ec) f = (Inr p :: ('b, string) result)"
    and "Unmarshal p (frame_codec ec) (zero_val (frame_codec ec)) = (Inr f :: ('b, 'e backendFrame) result)"
proof -
  obtain d where d: "Suc d < max_nesting" and law: "struct_law ec fit d"
    using assms(1) by (auto simp: wire_struct_def)
  note frame_law = struct_law.frame_law [OF law]
  obtain p where p: "Marshal (frame_codec ec) f = (Inr p :: ('b, string) result)"
    using codec_law.enc_obtain [OF frame_law assms(2)] by (metis Marshal_def option.simps(5))
  show ?thesis
    using that [OF p codec_law.unmarshal_marshal [OF frame_law assms(2) _ p]] d by simp
qed

section \<open>Lemmas on sending\<close>

text \<open>
  Once a send has failed, or once the stream is closed, an event changes nothing.
\<close>

lemma on_event_stopped: "stream_closed st \<or> sendErr st \<noteq> None \<Longrightarrow> on_event ec send st e = st"
  by (simp add: on_event_def)

lemma on_events_stopped: "stream_closed st \<or> sendErr st \<noteq> None \<Longrightarrow> foldl (on_event ec send) st es = st"
  by (induction es) (simp_all add: on_event_stopped)

lemma on_event_keeps_open: "stream_closed (foldl (on_event ec send) st es) = stream_closed st"
proof (induction es arbitrary: st)
  case (Cons e es)
  have "stream_closed (on_event ec send st e) = stream_closed st"
    by (simp add: on_event_def split: sum.split prod.split option.split)
  with Cons show ?case by simp
qed simp

text \<open>A transport that takes the first \<^term>\<open>k\<close> messages and fails from then on.\<close>

definition bounded_send :: "nat \<Rightarrow> 'b go_error \<Rightarrow> (result_envelope list, 'b) send" where
  "bounded_send k e w env = (if length w < k then (w @ [env], None) else (w, Some e))"

text \<open>The envelope of a frame that marshals.\<close>

definition frame_envelope :: "'e codec \<Rightarrow> 'e backendFrame \<Rightarrow> result_envelope" where
  "frame_envelope ec f =
     \<lparr> ResPayload = (case Marshal (frame_codec ec) f :: (unit, string) result of Inr p \<Rightarrow> p | Inl e \<Rightarrow> []), ResError = [] \<rparr>"

lemma Marshal_frame_envelope:
  assumes "Marshal c v = (Inr p :: ('b, string) result)"
  shows "Marshal c v = (Inr p :: ('d, string) result)"
  using assms by (auto simp: Marshal_def split: option.splits)

lemma frame_envelope_sent:
  assumes "Marshal (frame_codec ec) f = (Inr p :: ('b, string) result)"
  shows "\<lparr> ResPayload = p, ResError = [] \<rparr> = frame_envelope ec f"
  using Marshal_frame_envelope [OF assms, where 'd = unit] by (simp add: frame_envelope_def)

lemma event_frame_fit [simp]: "frame_fit fit (event_frame e) \<longleftrightarrow> fit e"
  by (simp add: frame_fit_def event_frame_def)

lemma on_events_sent:
  assumes "wire_struct ec fit"
  shows "list_all fit es \<Longrightarrow>
    foldl (on_event ec (bounded_send k e)) \<lparr> out_stream = w, sendErr = None, stream_closed = False \<rparr> es =
      \<lparr> out_stream = w @ map (frame_envelope ec \<circ> event_frame) (take (k - length w) es),
        sendErr = (if length es \<le> k - length w then None else Some e), stream_closed = False \<rparr>"
proof (induction es arbitrary: w)
  case (Cons ev es)
  obtain p where p: "Marshal (frame_codec ec) (event_frame ev) = (Inr p :: ('b, string) result)"
    using wire_frame [OF assms, of "event_frame ev"] Cons.prems by auto
  note env = frame_envelope_sent [OF p]
  show ?case
  proof (cases "length w < k")
    case True
    then obtain n where n: "k - length w = Suc n" by (metis Suc_diff_Suc)
    then have "k - Suc (length w) = n" by simp
    with True n p Cons.prems show ?thesis
      using Cons.IH [of "w @ [frame_envelope ec (event_frame ev)]"]
      by (simp add: on_event_def send_payload_def bounded_send_def env)
  next
    case False
    with p have "on_event ec (bounded_send k e) \<lparr> out_stream = w, sendErr = None, stream_closed = False \<rparr> ev =
        \<lparr> out_stream = w, sendErr = Some e, stream_closed = False \<rparr>"
      by (simp add: on_event_def send_payload_def bounded_send_def)
    with False show ?thesis by (simp add: on_events_stopped)
  qed
qed simp

definition turn_frames :: "'b runtime \<Rightarrow> 'e codec \<Rightarrow> ('s, 'b, 'e) turn \<Rightarrow> result_envelope list" where
  "turn_frames rt ec t =
     map (frame_envelope ec \<circ> event_frame) (turn_events t)
     @ [frame_envelope ec (done_frame (turn_reply t) (errString rt (turn_err t)))]"

definition turn_fit :: "'b runtime \<Rightarrow> ('e \<Rightarrow> bool) \<Rightarrow> ('s, 'b, 'e) turn \<Rightarrow> bool" where
  "turn_fit rt fit t \<longleftrightarrow>
     list_all fit (turn_events t) \<and> valid_utf8 (turn_reply t) \<and> valid_utf8 (errString rt (turn_err t))"

lemma done_frame_fit: "turn_fit rt fit t \<Longrightarrow> frame_fit fit (done_frame (turn_reply t) (errString rt (turn_err t)))"
  by (simp add: frame_fit_def done_frame_def turn_fit_def)

lemma respond_sent:
  fixes rt :: "'b runtime"
  assumes "wire_struct ec fit" and "Port req = PortBackend"
    and "decodeArgs rt (JsonPayload req) [whole pc] (zero_val pc) = Inr prompt"
    and "turn_fit rt fit (real s prompt)"
  shows "respond rt pc ec real (bounded_send k e) s req [] =
    (after_turn (real s prompt), take k (turn_frames rt ec (real s prompt)),
     if k < length (turn_events (real s prompt)) then Some (wrap rt ''transport: backend event stream'' e)
     else if k = length (turn_events (real s prompt)) then Some (wrap rt ''transport: send backend reply'' e)
     else None)"
proof -
  let ?t = "real s prompt"
  let ?n = "length (turn_events ?t)"
  let ?done = "done_frame (turn_reply ?t) (errString rt (turn_err ?t))"
  obtain p where p: "Marshal (frame_codec ec) ?done = (Inr p :: ('b, string) result)"
    using wire_frame [OF assms(1) done_frame_fit [OF assms(4)]] by blast
  note env = frame_envelope_sent [OF p]
  have sent: "foldl (on_event ec (bounded_send k e)) \<lparr> out_stream = [], sendErr = None, stream_closed = False \<rparr> (turn_events ?t) =
      \<lparr> out_stream = map (frame_envelope ec \<circ> event_frame) (take k (turn_events ?t)),
        sendErr = (if ?n \<le> k then None else Some e), stream_closed = False \<rparr>"
    using on_events_sent [OF assms(1), of "turn_events ?t" k e "[]"] assms(4) by (simp add: turn_fit_def)
  consider "k < ?n" | "k \<le> ?n" "?n \<le> k" | "?n < k" by linarith
  then show ?thesis
    using assms(2,3) p sent
    by cases (simp_all add: respond_def Let_def on_events_stopped send_payload_def bounded_send_def env
        turn_frames_def take_map)
qed

section \<open>Lemmas on receiving\<close>

text \<open>
  The peer delivers frames in order and then an error, which for a stream that the server ends
  without one is \<^verbatim>\<open>io.EOF\<close>.
\<close>

primrec delivers ::
  "('w \<Rightarrow> 'w \<times> ('b, result_envelope) result) \<Rightarrow> result_envelope list \<Rightarrow> 'b go_error \<Rightarrow> 'w \<Rightarrow> bool" where
  "delivers recv [] fin w \<longleftrightarrow> (\<exists>w'. recv w = (w', Inl fin))"
| "delivers recv (f # fs) fin w \<longleftrightarrow> (\<exists>w'. recv w = (w', Inr f) \<and> delivers recv fs fin w')"

definition hook :: "('h \<Rightarrow> 'e \<Rightarrow> 'h) option \<Rightarrow> 'h \<Rightarrow> 'e \<Rightarrow> 'h" where
  "hook onEvent h e = (case onEvent of Some f \<Rightarrow> f h e | None \<Rightarrow> h)"

lemma apply_event:
  fixes rt :: "'b runtime"
  assumes "wire_struct ec fit" and "fit e"
  shows "applyBackendFrame rt ec (frame_envelope ec (event_frame e)) onEvent h =
    (hook onEvent h e, \<lparr> fo_reply = [], terminal = False, fo_err = None \<rparr>)"
proof -
  obtain p where p: "Marshal (frame_codec ec) (event_frame e) = (Inr p :: ('b, string) result)"
    "Unmarshal p (frame_codec ec) (zero_val (frame_codec ec)) = (Inr (event_frame e) :: ('b, 'a backendFrame) result)"
    using wire_frame [OF assms(1), of "event_frame e"] assms(2) by auto
  then show ?thesis
    unfolding frame_envelope_sent [OF p(1), symmetric]
    by (simp add: applyBackendFrame_def event_frame_def hook_def)
qed

lemma apply_done:
  fixes rt :: "'b runtime"
  assumes "wire_struct ec fit" and "frame_fit fit (done_frame r m)"
  shows "applyBackendFrame rt ec (frame_envelope ec (done_frame r m)) onEvent h =
    (h, \<lparr> fo_reply = r, terminal = True, fo_err = (if m = [] then None else Some (RemoteError m)) \<rparr>)"
proof -
  obtain p where p: "Marshal (frame_codec ec) (done_frame r m) = (Inr p :: ('b, string) result)"
    "Unmarshal p (frame_codec ec) (zero_val (frame_codec ec)) = (Inr (done_frame r m) :: ('b, 'a backendFrame) result)"
    using wire_frame [OF assms] by blast
  then show ?thesis
    unfolding frame_envelope_sent [OF p(1), symmetric]
    by (simp add: applyBackendFrame_def done_frame_def)
qed

lemma receive_events:
  assumes "wire_struct ec fit"
  shows "list_all fit es \<Longrightarrow> delivers recv (map (frame_envelope ec \<circ> event_frame) es @ rest) fin w \<Longrightarrow>
    \<exists>w'. delivers recv rest fin w'
      \<and> receive_loop rt ec recv onEvent w h = receive_loop rt ec recv onEvent w' (foldl (hook onEvent) h es)"
proof (induction es arbitrary: w h)
  case (Cons e es)
  then obtain w1 where w1: "recv w = (w1, Inr (frame_envelope ec (event_frame e)))"
    "delivers recv (map (frame_envelope ec \<circ> event_frame) es @ rest) fin w1" by (auto simp: comp_def)
  then have "receive_loop rt ec recv onEvent w h = receive_loop rt ec recv onEvent w1 (hook onEvent h e)"
    using Cons.prems(1) by (subst receive_loop.simps) (simp add: apply_event [OF assms])
  then show ?case using Cons.IH [OF _ w1(2), of "hook onEvent h e"] Cons.prems(1) by simp
qed auto

lemma receive_end:
  assumes "delivers recv [] fin w"
  shows "\<exists>w'. receive_loop rt ec recv onEvent w h = Some (w', h, [], Some (receiveFailure rt fin))"
  using assms by (subst receive_loop.simps) auto

lemma receive_done:
  assumes "wire_struct ec fit" and "frame_fit fit (done_frame r m)"
    and "delivers recv (frame_envelope ec (done_frame r m) # rest) fin w"
  shows "\<exists>w'. receive_loop rt ec recv onEvent w h = Some (w', h, r, if m = [] then None else Some (RemoteError m))"
proof -
  obtain w' where "recv w = (w', Inr (frame_envelope ec (done_frame r m)))" using assms(3) by auto
  then show ?thesis by (subst receive_loop.simps) (simp add: apply_done [OF assms(1,2)])
qed

text \<open>Any finite stream ends the loop, whatever its frames hold.\<close>

lemma receive_returns: "delivers recv frames fin w \<Longrightarrow> \<exists>r. receive_loop rt ec recv onEvent w h = Some r"
proof (induction frames arbitrary: w h)
  case Nil
  then show ?case using receive_end by fast
next
  case (Cons f fs)
  then obtain w1 where "recv w = (w1, Inr f)" "delivers recv fs fin w1" by auto
  with Cons.IH show ?case by (subst receive_loop.simps) (auto split: prod.split)
qed

section \<open>A turn across the wire\<close>

definition record_send :: "(result_envelope list, 'b) send" where
  "record_send w env = (w @ [env], None)"

lemma on_events_recorded:
  assumes "wire_struct ec fit"
  shows "list_all fit es \<Longrightarrow>
    foldl (on_event ec record_send) \<lparr> out_stream = w, sendErr = None :: 'b go_error option, stream_closed = False \<rparr> es =
      \<lparr> out_stream = w @ map (frame_envelope ec \<circ> event_frame) es, sendErr = None, stream_closed = False \<rparr>"
proof (induction es arbitrary: w)
  case (Cons ev es)
  obtain p where p: "Marshal (frame_codec ec) (event_frame ev) = (Inr p :: ('b, string) result)"
    using wire_frame [OF assms, of "event_frame ev"] Cons.prems by auto
  then show ?case
    using Cons by (simp add: on_event_def send_payload_def record_send_def frame_envelope_sent [OF p])
qed simp

lemma respond_recorded:
  fixes rt :: "'b runtime"
  assumes "wire_struct ec fit" and "Port req = PortBackend"
    and "decodeArgs rt (JsonPayload req) [whole pc] (zero_val pc) = Inr prompt"
    and "turn_fit rt fit (real s prompt)"
  shows "respond rt pc ec real record_send s req [] =
    (after_turn (real s prompt), turn_frames rt ec (real s prompt), None)"
proof -
  let ?t = "real s prompt"
  obtain p where p: "Marshal (frame_codec ec) (done_frame (turn_reply ?t) (errString rt (turn_err ?t))) =
      (Inr p :: ('b, string) result)"
    using wire_frame [OF assms(1) done_frame_fit [OF assms(4)]] by blast
  then show ?thesis
    using assms(2-4) on_events_recorded [OF assms(1), of "turn_events ?t" "[]", where 'b = 'b]
    by (simp add: respond_def Let_def on_events_stopped send_payload_def record_send_def
        frame_envelope_sent [OF p] turn_frames_def turn_fit_def)
qed

text \<open>
  What the proxy relies on in gRPC: a stream that opens takes the request to the server's handler
  and delivers what the handler sends, in order, and then the end of the stream, or the status of
  the handler's error.
\<close>

definition status_error :: "'b runtime \<Rightarrow> 'b go_error option \<Rightarrow> 'b go_error" where
  "status_error rt status =
     (case status of None \<Rightarrow> Sentinel IoEOF | Some e \<Rightarrow> OpaqueError (''rpc error: '' @ error_text rt e))"

definition carries ::
  "'b runtime \<Rightarrow> 'p codec \<Rightarrow> 'e codec \<Rightarrow> ('s \<Rightarrow> 'p \<Rightarrow> ('s, 'b, 'e) turn) \<Rightarrow> 's \<Rightarrow> ('w, 'b) ClientConn \<Rightarrow> 'w \<Rightarrow> bool" where
  "carries rt pc ec real s cc w \<longleftrightarrow>
     (\<exists>w1. NewStream cc w backendRespondFullMethod = (w1, None)
       \<and> (\<forall>req. \<exists>w2 w3. SendMsg cc w1 req = (w2, None) \<and> CloseSend cc w2 = (w3, None)
            \<and> (case serve_stream (RegisterBackendSkeleton rt pc ec real record_send) backendRespondFullMethod req s [] of
                 (s', frames, status) \<Rightarrow> delivers (RecvMsg cc) frames (status_error rt status) w3)))"

lemma carried_obtain:
  fixes rt :: "'b runtime"
  assumes "wire_struct ec fit" and "wire_codec pc fitp" and "fitp prompt" and "turn_fit rt fit (real s prompt)"
    and "carries rt pc ec real s (bp_cc p) w"
  obtains w3 where "delivers (RecvMsg (bp_cc p)) (turn_frames rt ec (real s prompt)) (Sentinel IoEOF) w3"
    and "BackendProxy_Respond rt pc ec p prompt onEvent w h = receive_loop rt ec (RecvMsg (bp_cc p)) onEvent w3 h"
proof -
  obtain q where q: "encodeArgs [enc pc prompt] = (Inr q :: ('b, string) result)"
    "decodeArgs rt q [whole pc] (zero_val pc) = Inr prompt"
    using wire_args_single [OF assms(2,3)] by blast
  let ?req = "\<lparr> Port = PortBackend, Method = respondMethod, JsonPayload = q \<rparr>"
  have "respond rt pc ec real record_send s ?req [] =
      (after_turn (real s prompt), turn_frames rt ec (real s prompt), None)"
    by (rule respond_recorded [where req = ?req and prompt = prompt and real = real, OF assms(1) _ _ assms(4)])
      (simp_all add: q(2))
  with assms(5) obtain w1 w2 w3 where "NewStream (bp_cc p) w backendRespondFullMethod = (w1, None)"
    "SendMsg (bp_cc p) w1 ?req = (w2, None)" "CloseSend (bp_cc p) w2 = (w3, None)"
    and d: "delivers (RecvMsg (bp_cc p)) (turn_frames rt ec (real s prompt)) (Sentinel IoEOF) w3"
    unfolding carries_def status_error_def serve_respond by (metis (no_types, lifting) case_prod_conv option.simps(4))
  then have "BackendProxy_Respond rt pc ec p prompt onEvent w h = receive_loop rt ec (RecvMsg (bp_cc p)) onEvent w3 h"
    by (simp add: BackendProxy_Respond_def q(1) openRespondStream_def)
  with d show ?thesis by (rule that)
qed

text \<open>A turn through the proxy is the turn of the real backend behind the skeleton.\<close>

lemma backend_turn:
  assumes "wire_struct ec fit" and "wire_codec pc fitp" and "fitp prompt" and "turn_fit rt fit (real s prompt)"
    and "carries rt pc ec real s (bp_cc p) w"
  shows "\<exists>w'. BackendProxy_Respond rt pc ec p prompt onEvent w h =
    Some (w', foldl (hook onEvent) h (turn_events (real s prompt)), turn_reply (real s prompt),
      if errString rt (turn_err (real s prompt)) = [] then None
      else Some (RemoteError (errString rt (turn_err (real s prompt)))))"
proof -
  obtain w3 where d: "delivers (RecvMsg (bp_cc p)) (turn_frames rt ec (real s prompt)) (Sentinel IoEOF) w3"
    and run: "BackendProxy_Respond rt pc ec p prompt onEvent w h = receive_loop rt ec (RecvMsg (bp_cc p)) onEvent w3 h"
    by (rule carried_obtain [OF assms])
  have fits: "list_all fit (turn_events (real s prompt))" using assms(4) by (simp add: turn_fit_def)
  from receive_events [OF assms(1) fits d [unfolded turn_frames_def]]
    receive_done [OF assms(1) done_frame_fit [OF assms(4)]]
  show ?thesis unfolding run by metis
qed

section \<open>An in-memory connection\<close>

text \<open>A connection that runs the handler when the request is sent, to evaluate examples on.\<close>

definition queue_recv ::
  "result_envelope list \<times> 'b go_error \<Rightarrow> (result_envelope list \<times> 'b go_error) \<times> ('b, result_envelope) result" where
  "queue_recv w = (case w of ([], fin) \<Rightarrow> (([], fin), Inl fin) | (f # fs, fin) \<Rightarrow> ((fs, fin), Inr f))"

definition mem_conn ::
  "'b runtime \<Rightarrow> 'p codec \<Rightarrow> 'e codec \<Rightarrow> ('s \<Rightarrow> 'p \<Rightarrow> ('s, 'b, 'e) turn) \<Rightarrow> 's
   \<Rightarrow> (result_envelope list \<times> 'b go_error, 'b) ClientConn" where
  "mem_conn rt pc ec real s =
     \<lparr> NewStream = (\<lambda>w m. (w, None)),
       SendMsg = (\<lambda>w req. case serve_stream (RegisterBackendSkeleton rt pc ec real record_send) backendRespondFullMethod req s [] of
                   (s', frames, status) \<Rightarrow> ((frames, status_error rt status), None)),
       CloseSend = (\<lambda>w. (w, None)),
       RecvMsg = queue_recv \<rparr>"

lemma queue_delivers: "delivers queue_recv frames fin (frames, fin)"
  by (induction frames) (simp_all add: queue_recv_def)

lemma mem_conn_carries: "carries rt pc ec real s (mem_conn rt pc ec real s) w"
  by (simp add: carries_def mem_conn_def queue_delivers split: prod.split)

definition sample_backend :: "nat \<Rightarrow> string \<Rightarrow> (nat, string, string) turn" where
  "sample_backend s prompt = \<lparr> after_turn = Suc s, turn_events = [''thinking'', prompt], late_events = [''late''],
     turn_reply = ''ok'', turn_err = Some (BudgetError ''tokens'') \<rparr>"

lemma wire_struct_string: "wire_struct string_codec valid_utf8"
  unfolding wire_struct_def using string_struct.struct_law_axioms by (intro exI [of _ 0]) (simp add: max_nesting_def)

lemma sample_turn_fit: "turn_fit sample_runtime valid_utf8 (sample_backend s ''hi'')"
  by (simp add: turn_fit_def sample_backend_def errString_def valid_utf8_ascii)

section \<open>Properties\<close>

text \<open>
  C22: the proxy never waits for more than the stream gives: on a stream that ends, whatever its
  frames hold, the receive loop returns; and when a stream of events ends before the Done frame,
  the host gets those events, no reply, and an unexpected end-of-file error.
\<close>

theorem backend_stream_end_returns:
  assumes "delivers recv frames fin w"
  shows "(\<exists>w' h' rep e. receive_loop rt ec recv onEvent w h = Some (w', h', rep, e))
    \<and> (\<forall>es fit. wire_struct ec fit \<longrightarrow> list_all fit es \<longrightarrow> frames = map (frame_envelope ec \<circ> event_frame) es
        \<longrightarrow> errors_is IoEOF fin \<longrightarrow>
        (\<exists>w' e. receive_loop rt ec recv onEvent w h = Some (w', foldl (hook onEvent) h es, [], Some e)
           \<and> errors_is IoUnexpectedEOF e))"
proof (intro conjI allI impI)
  show "\<exists>w' h' rep e. receive_loop rt ec recv onEvent w h = Some (w', h', rep, e)"
    using receive_returns [OF assms] by (metis prod.exhaust)
  fix es fit
  assume "wire_struct ec fit" "list_all fit es" "frames = map (frame_envelope ec \<circ> event_frame) es" "errors_is IoEOF fin"
  moreover from this(3) assms have "delivers recv (map (frame_envelope ec \<circ> event_frame) es @ []) fin w" by simp
  ultimately obtain w1 where "delivers recv [] fin w1"
    and "receive_loop rt ec recv onEvent w h = receive_loop rt ec recv onEvent w1 (foldl (hook onEvent) h es)"
    using receive_events by metis
  with receive_end [of recv fin w1 rt ec onEvent "foldl (hook onEvent) h es"] \<open>errors_is IoEOF fin\<close>
  show "\<exists>w' e. receive_loop rt ec recv onEvent w h = Some (w', foldl (hook onEvent) h es, [], Some e)
      \<and> errors_is IoUnexpectedEOF e"
    by (auto simp: receiveFailure_def)
qed

theorem backend_stream_end_returns_witness:
  "\<exists>w' e. receive_loop sample_runtime string_codec queue_recv (Some (\<lambda>seen e. seen @ [e]))
      (map (frame_envelope string_codec \<circ> event_frame) [''a'', ''b''], Sentinel IoEOF) [] =
      Some (w', [''a'', ''b''], [], Some e) \<and> errors_is IoUnexpectedEOF e"
proof -
  have "list_all valid_utf8 [''a'', ''b'']" by (simp add: valid_utf8_ascii)
  from backend_stream_end_returns [OF queue_delivers, THEN conjunct2, rule_format, OF wire_struct_string this refl,
      of "Sentinel IoEOF" sample_runtime "Some (\<lambda>seen e. seen @ [e])" "[]"]
  show ?thesis by (simp add: hook_def)
qed



text \<open>
  An event that the backend emits after its turn ended changes nothing: not the stream, not
  the outcome, whatever the stream does with what is sent.
\<close>

theorem respond_ignores_late_events:
  "respond rt pc ec (\<lambda>s p. (real s p)\<lparr>late_events := es\<rparr>) send s req w = respond rt pc ec real send s req w"
  by (cases "decodeArgs rt (JsonPayload req) [whole pc] (zero_val pc)")
    (simp_all add: respond_def Let_def on_events_stopped cong: option.case_cong sum.case_cong)

end
