(* ===== verification/Registry.thy ===== *)
theory Registry
  imports Announce Net Memory Orchestrator Backend "HOL-Library.AList"
begin

text \<open>
  \<^verbatim>\<open>remote_registry.go\<close>: the registry of announced plugins and the dialling of
  their addresses. The entries are an association list by instance id; Go iterates over its map
  in no particular order, so what is said of a query is said of its set of entries.

  The manifest's category, the category constants and everything of gRPC's client connection are
  parameters. The allowlist is a predicate on addresses.
\<close>

section \<open>The registry\<close>

record 'm RemoteEntry =
  entry_Manifest :: 'm
  entry_GrpcAddr :: string
  entry_InstanceID :: string

definition entry :: "'m announcement \<Rightarrow> 'm RemoteEntry" where
  "entry a = \<lparr> entry_Manifest = Manifest a, entry_GrpcAddr = GrpcAddr a, entry_InstanceID = InstanceID a \<rparr>"

record 'm RemoteRegistry =
  entries :: "(string \<times> 'm RemoteEntry) list"
  allow :: "(string \<Rightarrow> bool) option"

record 'm contract_types =
  manifest_Category :: "'m \<Rightarrow> string"
  CategoryMemory :: string
  CategoryOrchestrator :: string
  CategoryBackend :: string

definition WithAddrAllow :: "(string \<Rightarrow> bool) option \<Rightarrow> 'm RemoteRegistry \<Rightarrow> 'm RemoteRegistry" where
  "WithAddrAllow f r = r\<lparr>allow := f\<rparr>"

definition NewRemoteRegistry :: "('m RemoteRegistry \<Rightarrow> 'm RemoteRegistry) list \<Rightarrow> 'm RemoteRegistry" where
  "NewRemoteRegistry opts = foldl (\<lambda>r opt. opt r) \<lparr> entries = [], allow = None \<rparr> opts"

definition observe ::
  "'m contract_types \<Rightarrow> 'm RemoteRegistry \<Rightarrow> 'm announcement \<Rightarrow> 'm RemoteRegistry \<times> 'b go_error option" where
  "observe ct r ann =
     (if InstanceID ann = [] \<or> manifest_Category ct (Manifest ann) = []
      then (r, Some (Sentinel ErrUnusableAnnouncement))
      else
        (case SplitHostPort (GrpcAddr ann) of
           Inl e \<Rightarrow> (r, Some (Sentinel ErrUnusableAnnouncement))
         | Inr (host, port) \<Rightarrow>
             if host = [] \<or> port = [] then (r, Some (Sentinel ErrUnusableAnnouncement))
             else if (case allow r of None \<Rightarrow> True | Some f \<Rightarrow> \<not> f (GrpcAddr ann))
             then (r, Some (Sentinel ErrAddrRefused))
             else (r\<lparr>entries := AList.update (InstanceID ann) (entry ann) (entries r)\<rparr>, None)))"

definition Watch ::
  "'b runtime \<Rightarrow> 'm codec \<Rightarrow> 'm contract_types
   \<Rightarrow> (string \<Rightarrow> ('m RemoteRegistry \<times> 's \<Rightarrow> string \<times> int \<Rightarrow> 'm RemoteRegistry \<times> 's) \<Rightarrow> ('b, 'sub) result)
   \<Rightarrow> AnnounceKey \<Rightarrow> ('s \<Rightarrow> 'b go_error \<Rightarrow> 's) option \<Rightarrow> ('b, 'sub) result" where
  "Watch rt mc ct subscribe key onRejected =
     subscribeAnnouncements rt mc subscribe key
       (Some (\<lambda>(r, s) ann. case observe ct r ann of
          (r', Some e) \<Rightarrow> (r', the onRejected s e)
        | (r', None) \<Rightarrow> (r', s)))
       (map_option (\<lambda>f (r, s) e. (r, f s e)) onRejected)"

definition byCategory :: "'m contract_types \<Rightarrow> 'm RemoteRegistry \<Rightarrow> string \<Rightarrow> 'm RemoteEntry list" where
  "byCategory ct r category =
     filter (\<lambda>e. manifest_Category ct (entry_Manifest e) = category) (map snd (entries r))"

definition Memories :: "'m contract_types \<Rightarrow> 'm RemoteRegistry \<Rightarrow> 'm RemoteEntry list" where
  "Memories ct r = byCategory ct r (CategoryMemory ct)"

definition Orchestrators :: "'m contract_types \<Rightarrow> 'm RemoteRegistry \<Rightarrow> 'm RemoteEntry list" where
  "Orchestrators ct r = byCategory ct r (CategoryOrchestrator ct)"

definition Backends :: "'m contract_types \<Rightarrow> 'm RemoteRegistry \<Rightarrow> 'm RemoteEntry list" where
  "Backends ct r = byCategory ct r (CategoryBackend ct)"

section \<open>Dialling\<close>

text \<open>What the dialling uses of gRPC: building a connection and what a connection offers.\<close>

record ('conn, 'creds, 's, 'b) grpc =
  NewClient :: "string \<Rightarrow> 'creds \<Rightarrow> ('b, 'conn) result"
  insecure_NewCredentials :: 'creds
  conn_Invoke :: "'conn \<Rightarrow> 's \<Rightarrow> string \<Rightarrow> method_envelope \<Rightarrow> 's \<times> ('b, result_envelope) result"
  conn_streams :: "'conn \<Rightarrow> ('s, 'b) ClientConn"
  conn_Close :: "'conn \<Rightarrow> 's \<Rightarrow> 's \<times> 'b go_error option"

definition requireLoopback :: "'b runtime \<Rightarrow> string \<Rightarrow> 'b go_error option" where
  "requireLoopback rt addr =
     (case SplitHostPort addr of
        Inl e \<Rightarrow>
          (let cause = OpaqueError (if addr = [] then addr_error_text e
                                    else ''address '' @ addr @ '': '' @ addr_error_text e) in
           Some (Errorf (''transport: invalid gRPC address '' @ go_quote rt addr @ '': '' @ error_text rt cause) [cause]))
      | Inr (host, port) \<Rightarrow>
          if host = ''localhost'' then None
          else
            (case ParseIP host of
               Some ip \<Rightarrow> if IsLoopback ip then None else Some (PlaintextDialError addr)
             | None \<Rightarrow> Some (PlaintextDialError addr)))"

definition dialConn ::
  "'b runtime \<Rightarrow> ('conn, 'creds, 's, 'b) grpc \<Rightarrow> 'b go_error option \<Rightarrow> 'm RemoteEntry \<Rightarrow> 'creds option
   \<Rightarrow> ('b, 'conn) result" where
  "dialConn rt g ctxErr e creds =
     (case ctxErr of
        Some err \<Rightarrow> Inl err
      | None \<Rightarrow>
        (case creds of
           Some c \<Rightarrow> NewClient g (entry_GrpcAddr e) c
         | None \<Rightarrow>
           (case requireLoopback rt (entry_GrpcAddr e) of
              Some err \<Rightarrow> Inl err
            | None \<Rightarrow> NewClient g (entry_GrpcAddr e) (insecure_NewCredentials g))))"

definition DialMemory ::
  "'b runtime \<Rightarrow> ('conn, 'creds, 's, 'b) grpc \<Rightarrow> 'b go_error option \<Rightarrow> 'm RemoteEntry \<Rightarrow> 'creds option
   \<Rightarrow> ('b, ('s, 'b) MemoryProxy) result" where
  "DialMemory rt g ctxErr e creds =
     (case dialConn rt g ctxErr e creds of
        Inl err \<Rightarrow> Inl err
      | Inr conn \<Rightarrow> Inr ((NewMemoryProxy (NewPluginClient (conn_Invoke g conn)))\<lparr>mp_dialed := Some (conn_Close g conn)\<rparr>))"

definition DialOrchestrator ::
  "'b runtime \<Rightarrow> ('conn, 'creds, 's, 'b) grpc \<Rightarrow> 'b go_error option \<Rightarrow> 'm RemoteEntry \<Rightarrow> 'creds option
   \<Rightarrow> ('b, ('s, 'b) OrchestratorProxy) result" where
  "DialOrchestrator rt g ctxErr e creds =
     (case dialConn rt g ctxErr e creds of
        Inl err \<Rightarrow> Inl err
      | Inr conn \<Rightarrow> Inr ((NewOrchestratorProxy (NewPluginClient (conn_Invoke g conn)))\<lparr>op_dialed := Some (conn_Close g conn)\<rparr>))"

definition DialBackend ::
  "'b runtime \<Rightarrow> ('conn, 'creds, 's, 'b) grpc \<Rightarrow> 'b go_error option \<Rightarrow> 'm RemoteEntry \<Rightarrow> 'creds option
   \<Rightarrow> ('b, ('s, 'b) BackendProxy) result" where
  "DialBackend rt g ctxErr e creds =
     (case dialConn rt g ctxErr e creds of
        Inl err \<Rightarrow> Inl err
      | Inr conn \<Rightarrow> Inr ((NewBackendProxy (conn_streams g conn))\<lparr>bp_dialed := Some (conn_Close g conn)\<rparr>))"

section \<open>Lemmas on the registry\<close>

text \<open>The interface a directory of named instances offers: what is looked up is what was put last.\<close>

locale directory =
  fixes nothing :: 'd and put :: "'k \<Rightarrow> 'v \<Rightarrow> 'd \<Rightarrow> 'd" and get :: "'d \<Rightarrow> 'k \<Rightarrow> 'v option"
  assumes get_nothing: "get nothing k = None"
    and get_put: "get (put k v d) k' = (if k' = k then Some v else get d k')"
begin

lemma get_puts_onto: "get (foldl (\<lambda>d (k, v). put k v d) d kvs) k = (case map_of (rev kvs) k of Some v \<Rightarrow> Some v | None \<Rightarrow> get d k)"
proof (induction kvs arbitrary: d)
  case (Cons kv kvs)
  obtain k' v where "kv = (k', v)" by fastforce
  with Cons show ?case by (simp add: get_put map_add_def split: option.split)
qed simp

lemma get_puts: "get (foldl (\<lambda>d (k, v). put k v d) nothing kvs) k = map_of (rev kvs) k"
  by (simp add: get_puts_onto get_nothing split: option.split)

end

definition put_entry :: "string \<Rightarrow> 'm RemoteEntry \<Rightarrow> 'm RemoteRegistry \<Rightarrow> 'm RemoteRegistry" where
  "put_entry k e r = r\<lparr>entries := AList.update k e (entries r)\<rparr>"

definition get_entry :: "'m RemoteRegistry \<Rightarrow> string \<Rightarrow> 'm RemoteEntry option" where
  "get_entry r = map_of (entries r)"

interpretation registry_directory: directory "\<lparr> entries = [], allow = f \<rparr>" put_entry get_entry for f
  by unfold_locales (auto simp: put_entry_def get_entry_def update_conv')

definition usable_announcement :: "'m contract_types \<Rightarrow> 'm announcement \<Rightarrow> bool" where
  "usable_announcement ct ann \<longleftrightarrow>
     InstanceID ann \<noteq> [] \<and> manifest_Category ct (Manifest ann) \<noteq> []
     \<and> (case SplitHostPort (GrpcAddr ann) of Inl _ \<Rightarrow> False | Inr (host, port) \<Rightarrow> host \<noteq> [] \<and> port \<noteq> [])"

definition allowed :: "(string \<Rightarrow> bool) option \<Rightarrow> string \<Rightarrow> bool" where
  "allowed f addr = (case f of None \<Rightarrow> False | Some p \<Rightarrow> p addr)"

lemma observe_cases:
  "observe ct r ann =
     (if \<not> usable_announcement ct ann then (r, Some (Sentinel ErrUnusableAnnouncement))
      else if \<not> allowed (allow r) (GrpcAddr ann) then (r, Some (Sentinel ErrAddrRefused))
      else (put_entry (InstanceID ann) (entry ann) r, None))"
  by (simp add: observe_def usable_announcement_def allowed_def put_entry_def split: sum.split option.split)

lemma put_entry_allow [simp]: "allow (put_entry k e r) = allow r"
  by (simp add: put_entry_def)

section \<open>Lemmas on watching\<close>

text \<open>What one message comes to: the entry it makes, or the one error it is refused with.\<close>

definition verdict ::
  "'b runtime \<Rightarrow> 'm codec \<Rightarrow> 'm contract_types \<Rightarrow> AnnounceKey \<Rightarrow> (string \<Rightarrow> bool) option \<Rightarrow> string \<times> int
   \<Rightarrow> ('b, 'm RemoteEntry) result" where
  "verdict rt mc ct key f msg =
     (case openAnnouncement rt mc key (fst msg) (snd msg) of
        Inl e \<Rightarrow> Inl e
      | Inr ann \<Rightarrow>
          if \<not> usable_announcement ct ann then Inl (Sentinel ErrUnusableAnnouncement)
          else if \<not> allowed f (GrpcAddr ann) then Inl (Sentinel ErrAddrRefused)
          else Inr (entry ann))"

definition accepted :: "('b, 'e) result list \<Rightarrow> 'e list" where
  "accepted vs = concat (map (\<lambda>v. case v of Inl _ \<Rightarrow> [] | Inr e \<Rightarrow> [e]) vs)"

definition refused :: "('b, 'e) result list \<Rightarrow> 'b go_error list" where
  "refused vs = concat (map (\<lambda>v. case v of Inl e \<Rightarrow> [e] | Inr _ \<Rightarrow> []) vs)"

definition put_all :: "'m RemoteEntry list \<Rightarrow> 'm RemoteRegistry \<Rightarrow> 'm RemoteRegistry" where
  "put_all es r = foldl (\<lambda>r (k, e). put_entry k e r) r (map (\<lambda>e. (entry_InstanceID e, e)) es)"

lemma put_all_simps [simp]:
  "put_all [] r = r" "put_all (e # es) r = put_all es (put_entry (entry_InstanceID e) e r)"
  by (simp_all add: put_all_def)

text \<open>The callback that a watch installs.\<close>

definition watch_step ::
  "'b runtime \<Rightarrow> 'm codec \<Rightarrow> 'm contract_types \<Rightarrow> AnnounceKey \<Rightarrow> ('s \<Rightarrow> 'b go_error \<Rightarrow> 's)
   \<Rightarrow> 'm RemoteRegistry \<times> 's \<Rightarrow> string \<times> int \<Rightarrow> 'm RemoteRegistry \<times> 's" where
  "watch_step rt mc ct key onRejected rs msg =
     (case verdict rt mc ct key (allow (fst rs)) msg of
        Inl e \<Rightarrow> (fst rs, onRejected (snd rs) e)
      | Inr e \<Rightarrow> (put_entry (entry_InstanceID e) e (fst rs), snd rs))"

lemma entry_id [simp]: "entry_InstanceID (entry ann) = InstanceID ann"
  by (simp add: entry_def)

lemma Watch_installs:
  "Watch rt mc ct subscribe key (Some f) =
     (if usable key then subscribe SubjectAnnounce (watch_step rt mc ct key f) else Inl (Sentinel ErrNoAnnounceKey))"
proof -
  have "announcement_callback rt mc key
      (\<lambda>(r, s) ann. case observe ct r ann of (r', Some e) \<Rightarrow> (r', f s e) | (r', None) \<Rightarrow> (r', s))
      (\<lambda>(r, s) e. (r, f s e)) = watch_step rt mc ct key f"
    by (intro ext) (simp add: announcement_callback_def watch_step_def verdict_def observe_cases
        case_prod_unfold split: sum.split)
  then show ?thesis by (simp add: Watch_def subscribeAnnouncements_def)
qed

lemma watch_step_verdict:
  "verdict rt mc ct key (allow r) msg = Inl e \<Longrightarrow> watch_step rt mc ct key f (r, s) msg = (r, f s e)"
  "verdict rt mc ct key (allow r) msg = Inr x \<Longrightarrow>
     watch_step rt mc ct key f (r, s) msg = (put_entry (entry_InstanceID x) x r, s)"
  by (simp_all add: watch_step_def)

lemma accepted_simps [simp]:
  "accepted [] = []" "accepted (Inl e # vs) = accepted vs" "accepted (Inr x # vs) = x # accepted vs"
  by (simp_all add: accepted_def)

lemma refused_simps [simp]:
  "refused [] = []" "refused (Inl e # vs) = e # refused vs" "refused (Inr x # vs) = refused vs"
  by (simp_all add: refused_def)

lemma watch_run:
  "foldl (watch_step rt mc ct key (\<lambda>log e. log @ [e])) (r, log) msgs =
     (put_all (accepted (map (verdict rt mc ct key (allow r)) msgs)) r,
      log @ refused (map (verdict rt mc ct key (allow r)) msgs))"
proof (induction msgs arbitrary: r log)
  case (Cons msg msgs)
  then show ?case
    by (cases "verdict rt mc ct key (allow r) msg") (simp_all add: watch_step_verdict)
qed simp

lemma watch_registry:
  "fst (foldl (watch_step rt mc ct key f) (r, s) msgs) =
     put_all (accepted (map (verdict rt mc ct key (allow r)) msgs)) r"
proof (induction msgs arbitrary: r s)
  case (Cons msg msgs)
  then show ?case
    by (cases "verdict rt mc ct key (allow r) msg") (simp_all add: watch_step_verdict)
qed simp

lemma verdict_Inr:
  assumes "verdict rt mc ct key f (payload, now) = Inr e"
  shows "\<exists>ann p. openAnnouncement rt mc key payload now = Inr ann \<and> e = entry ann
    \<and> usable_announcement ct ann \<and> f = Some p \<and> p (GrpcAddr ann)"
  using assms by (auto simp: verdict_def allowed_def split: sum.splits if_splits option.splits)

lemma in_accepted: "x \<in> set (accepted (map g ms)) \<Longrightarrow> \<exists>m \<in> set ms. g m = Inr x"
  by (force simp: accepted_def split: sum.splits)

lemma get_put_all:
  assumes "get_entry (put_all es r) i = Some e"
  shows "e \<in> set es \<and> entry_InstanceID e = i \<or> get_entry r i = Some e"
  using assms
  by (auto simp: put_all_def registry_directory.get_puts_onto dest!: map_of_SomeD split: option.splits)

text \<open>Every entry is filed under its own instance id, once.\<close>

definition keyed :: "'m RemoteRegistry \<Rightarrow> bool" where
  "keyed r \<longleftrightarrow> distinct (map fst (entries r)) \<and> list_all (\<lambda>(k, e). k = entry_InstanceID e) (entries r)"

lemma keyed_put: "keyed r \<Longrightarrow> keyed (put_entry (entry_InstanceID e) e r)"
proof -
  assume "keyed r"
  moreover have "set (AList.update k e es) \<subseteq> insert (k, e) (set es)" for k es
    by (induction es) auto
  ultimately show ?thesis by (fastforce simp: keyed_def put_entry_def distinct_update list_all_iff)
qed

lemma keyed_put_all: "keyed r \<Longrightarrow> keyed (put_all es r)"
  by (induction es arbitrary: r) (simp_all add: keyed_put)

lemma keyed_byCategory:
  assumes "keyed r"
  shows "e \<in> set (byCategory ct r c) \<longleftrightarrow>
      get_entry r (entry_InstanceID e) = Some e \<and> manifest_Category ct (entry_Manifest e) = c"
    and "distinct (map entry_InstanceID (byCategory ct r c))"
proof -
  have ids: "map fst (entries r) = map entry_InstanceID (map snd (entries r))"
    using assms by (auto simp: keyed_def list_all_iff)
  have "e \<in> snd ` set (entries r) \<longleftrightarrow> (entry_InstanceID e, e) \<in> set (entries r)"
    using assms by (force simp: keyed_def list_all_iff)
  then show "e \<in> set (byCategory ct r c) \<longleftrightarrow>
      get_entry r (entry_InstanceID e) = Some e \<and> manifest_Category ct (entry_Manifest e) = c"
    using assms by (auto simp: byCategory_def get_entry_def keyed_def)
  have "distinct (map entry_InstanceID (map snd (entries r)))" using assms ids by (simp add: keyed_def)
  then show "distinct (map entry_InstanceID (byCategory ct r c))"
    unfolding byCategory_def by (rule distinct_map_filter)
qed

section \<open>Lemmas on dialling\<close>

lemma requireLoopback_dotted:
  assumes "a < 256" "b < 256" "c < 256" "d < 256" and "plain port"
  shows "requireLoopback rt (dotted a b c d @ '':'' @ port) =
    (if a = 127 then None else Some (PlaintextDialError (dotted a b c d @ '':'' @ port)))"
proof -
  have "is_digit (hd (dotted a b c d))"
    using show_nat_digit [of "hd (show_nat a)" a] by (simp add: dotted_def)
  then have "dotted a b c d \<noteq> ''localhost''" by (auto simp: is_digit_def)
  then show ?thesis
    by (simp add: requireLoopback_def split_plain [OF plain_dotted assms(5), simplified]
        ParseIP_dotted [OF assms(1-4)] IsLoopback_mapped)
qed

lemma requireLoopback_None:
  "requireLoopback rt addr = None \<longleftrightarrow>
     (\<exists>host port. SplitHostPort addr = Inr (host, port)
       \<and> (host = ''localhost'' \<or> (\<exists>ip. ParseIP host = Some ip \<and> IsLoopback ip)))"
  by (auto simp: requireLoopback_def Let_def split: sum.split option.split)

text \<open>The sixteen bytes of a loopback address.\<close>

lemma IsLoopback_bytes:
  assumes "length ip = 16"
  shows "IsLoopback ip \<longleftrightarrow> (\<exists>b c d. ip = mapped [127, b, c, d]) \<or> ip = replicate 15 0 @ [1]"
proof -
  have "ip = take 12 ip @ drop 12 ip" by simp
  moreover obtain a b c d where "drop 12 ip = [a, b, c, d]"
    using assms by (auto simp: length_Suc_conv numeral_eq_Suc dest!: arg_cong [of "length (drop 12 ip)" _ "\<lambda>n. n"])
  moreover have "replicate 12 (0::nat) \<noteq> replicate 10 0 @ [255, 255]" by (simp add: numeral_eq_Suc)
  ultimately show ?thesis
    by (auto simp: IsLoopback_def To4_def mapped_def split: if_splits)
qed

section \<open>Properties\<close>

definition sample_types :: "string contract_types" where
  "sample_types = \<lparr> manifest_Category = (\<lambda>m. m), CategoryMemory = ''memory'',
     CategoryOrchestrator = ''orchestrator'', CategoryBackend = ''backend'' \<rparr>"

text \<open>
  C12: a watch accounts for every message. Whatever messages arrive at whatever times, the
  registry ends as the accepted ones leave it, recorded in the order of delivery under their
  instance ids, and the rejection hook has been called once for each of the others, in order,
  with the error of its message; a message is never both recorded and rejected, nor neither.
\<close>

theorem watch_accounts_for_messages:
  "case Watch rt mc ct (\<lambda>subject callback. Inr (subject, callback)) key (Some (\<lambda>log e. log @ [e])) of
     Inl e \<Rightarrow> \<not> usable key \<and> e = Sentinel ErrNoAnnounceKey
   | Inr (subject, callback) \<Rightarrow> subject = SubjectAnnounce
       \<and> (\<forall>r msgs. foldl callback (r, []) msgs =
            (put_all (accepted (map (verdict rt mc ct key (allow r)) msgs)) r,
             refused (map (verdict rt mc ct key (allow r)) msgs)))
       \<and> (\<forall>vs. length (accepted vs) + length (refused vs) = length (vs :: ('b, 'm RemoteEntry) result list))"
proof -
  have "length (accepted vs) + length (refused vs) = length vs" for vs :: "('b, 'm RemoteEntry) result list"
  proof (induction vs)
    case (Cons v vs)
    then show ?case by (cases v) simp_all
  qed simp
  then show ?thesis by (simp add: Watch_installs watch_run)
qed


abbreviation open_registry :: "string RemoteRegistry" where
  "open_registry \<equiv> NewRemoteRegistry [WithAddrAllow (Some (\<lambda>_. True))]"

lemma sample_is_usable: "usable_announcement sample_types sample_announcement"
proof -
  have split: "SplitHostPort ''127.0.0.1:7000'' = Inr (''127.0.0.1'', ''7000'')"
    using split_plain [of "''127.0.0.1''" "''7000''"] by (simp add: plain_def)
  then show ?thesis
    unfolding usable_announcement_def sample_announcement_def sample_types_def by simp
qed

lemma sample_watched:
  "\<exists>payload. openAnnouncement sample_runtime string_codec sample_key payload 5 = Inr sample_announcement
    \<and> foldl (watch_step sample_runtime string_codec sample_types sample_key (\<lambda>log e. log @ [e])) (open_registry, []) [(payload, 5)] =
       (put_entry ''m1'' (entry sample_announcement) open_registry, [])"
proof -
  obtain payload where p: "openAnnouncement sample_runtime string_codec sample_key payload 5 = Inr sample_announcement"
    using sample_accepted_times by blast
  from sample_is_usable have "verdict sample_runtime string_codec sample_types sample_key (allow open_registry) (payload, 5) =
      Inr (entry sample_announcement)"
    by (simp add: verdict_def p NewRemoteRegistry_def WithAddrAllow_def allowed_def)
  then show ?thesis
    by (intro exI [of _ payload]) (simp add: watch_step_verdict p, simp add: sample_announcement_def)
qed


text \<open>
  C20: a registry built without an allowlist fails closed: whatever is announced to it, it stays
  empty, and each message is reported to the rejection hook with one of the six errors that the
  watch documents.
\<close>

theorem registry_fails_closed:
  "case Watch rt mc ct (\<lambda>subject callback. Inr callback) key (Some (\<lambda>log e. log @ [e])) of
     Inl e \<Rightarrow> \<not> usable key
   | Inr callback \<Rightarrow> \<forall>msgs. (case foldl callback (NewRemoteRegistry [], []) msgs of
       (r, log) \<Rightarrow> r = NewRemoteRegistry [] \<and> entries r = [] \<and> length log = length msgs
         \<and> list_all (\<lambda>e. \<exists>t \<in> {ErrUnauthenticatedAnnouncement, ErrStaleAnnouncement, ErrOversizedAnnouncement,
              ErrMalformedAnnouncement, ErrUnusableAnnouncement, ErrAddrRefused}. errors_is t e) log)"
proof (cases "usable key")
  case True
  have allow: "allow (NewRemoteRegistry [] :: 'a RemoteRegistry) = None" by (simp add: NewRemoteRegistry_def)
  have refusal: "\<exists>e. verdict rt mc ct key None msg = Inl e \<and> (\<exists>t \<in> {ErrUnauthenticatedAnnouncement, ErrStaleAnnouncement,
      ErrOversizedAnnouncement, ErrMalformedAnnouncement, ErrUnusableAnnouncement, ErrAddrRefused}. errors_is t e)" for msg
    using open_error_classes [OF True, of rt mc "fst msg" "snd msg"]
    by (cases "openAnnouncement rt mc key (fst msg) (snd msg)") (auto simp: verdict_def allowed_def)
  have "accepted (map (verdict rt mc ct key None) msgs) = []
      \<and> length (refused (map (verdict rt mc ct key None) msgs)) = length msgs
      \<and> list_all (\<lambda>e. \<exists>t \<in> {ErrUnauthenticatedAnnouncement, ErrStaleAnnouncement, ErrOversizedAnnouncement,
          ErrMalformedAnnouncement, ErrUnusableAnnouncement, ErrAddrRefused}. errors_is t e)
        (refused (map (verdict rt mc ct key None) msgs))" for msgs
  proof (induction msgs)
    case (Cons m ms)
    obtain e where "verdict rt mc ct key None m = Inl e" and "\<exists>t \<in> {ErrUnauthenticatedAnnouncement, ErrStaleAnnouncement,
      ErrOversizedAnnouncement, ErrMalformedAnnouncement, ErrUnusableAnnouncement, ErrAddrRefused}. errors_is t e"
      using refusal by blast
    with Cons show ?case by simp
  qed simp
  with True show ?thesis by (simp add: Watch_installs watch_run allow) (simp add: NewRemoteRegistry_def)
qed (simp add: Watch_installs)


text \<open>
  C11: without credentials a connection is only ever built to this host: a dial that succeeds has
  a live context and an address with a port whose host is the name localhost, an IPv4 address
  (written plainly or mapped into IPv6) of the network 127.0.0.0/8, or the IPv6 address ::1, and
  it is the insecure connection to exactly that address.
\<close>

theorem plaintext_only_to_loopback:
  assumes "dialConn rt g ctxErr e None = Inr conn"
  shows "ctxErr = None \<and> NewClient g (entry_GrpcAddr e) (insecure_NewCredentials g) = Inr conn
    \<and> (\<exists>host port. (entry_GrpcAddr e = host @ '':'' @ port \<or> entry_GrpcAddr e = ''['' @ host @ '']:'' @ port)
        \<and> CHR '':'' \<notin> set port
        \<and> (host = ''localhost''
           \<or> (\<exists>b c d. ParseIP host = Some (mapped [127, b, c, d]) \<and> b < 256 \<and> c < 256 \<and> d < 256)
           \<or> ParseIP host = Some (replicate 15 0 @ [1])))"
proof -
  have live: "ctxErr = None" and loop: "requireLoopback rt (entry_GrpcAddr e) = None"
    and conn: "NewClient g (entry_GrpcAddr e) (insecure_NewCredentials g) = Inr conn"
    using assms by (auto simp: dialConn_def split: option.splits)
  obtain host port where hp: "SplitHostPort (entry_GrpcAddr e) = Inr (host, port)"
    and host: "host = ''localhost'' \<or> (\<exists>ip. ParseIP host = Some ip \<and> IsLoopback ip)"
    using loop by (auto simp: requireLoopback_None)
  have "(\<exists>b c d. ip = mapped [127, b, c, d] \<and> b < 256 \<and> c < 256 \<and> d < 256) \<or> ip = replicate 15 0 @ [1]"
    if "ParseIP host = Some ip" "IsLoopback ip" for ip
    using that ParseIP_octets [OF that(1)] IsLoopback_bytes [of ip] by (auto simp: mapped_def)
  with host have "host = ''localhost'' \<or> (\<exists>b c d. ParseIP host = Some (mapped [127, b, c, d]) \<and> b < 256 \<and> c < 256 \<and> d < 256)
      \<or> ParseIP host = Some (replicate 15 0 @ [1])" by blast
  with split_inverse [OF hp] live conn show ?thesis by blast
qed

definition sample_grpc :: "(string, bool, nat, string) grpc" where
  "sample_grpc = \<lparr> NewClient = (\<lambda>addr creds. Inr addr), insecure_NewCredentials = False,
     conn_Invoke = (\<lambda>conn s m env. (s, Inl (OpaqueError ''down''))),
     conn_streams = (\<lambda>conn. \<lparr> NewStream = (\<lambda>w m. (w, Some (OpaqueError ''down''))), SendMsg = (\<lambda>w m. (w, None)),
       CloseSend = (\<lambda>w. (w, None)), RecvMsg = (\<lambda>w. (w, Inl (Sentinel IoEOF))) \<rparr>),
     conn_Close = (\<lambda>conn s. (s, None)) \<rparr>"

lemma dotted_localhost: "dotted 127 0 0 1 = ''127.0.0.1''"
  by (simp add: dotted_def show_nat.simps digit_char_def char_of_eq_iff)

lemma sample_dial:
  "dialConn sample_runtime sample_grpc None (entry sample_announcement) None = Inr ''127.0.0.1:7000''"
proof -
  have "requireLoopback sample_runtime ''127.0.0.1:7000'' = None"
    using requireLoopback_dotted [of 127 0 0 1 "''7000''" sample_runtime, unfolded dotted_localhost]
    by (simp add: plain_def)
  then show ?thesis by (simp add: dialConn_def entry_def sample_announcement_def sample_grpc_def)
qed

theorem plaintext_only_to_loopback_witness:
  "\<exists>host port. (''127.0.0.1:7000'' = host @ '':'' @ port \<or> ''127.0.0.1:7000'' = ''['' @ host @ '']:'' @ port)
    \<and> CHR '':'' \<notin> set port
    \<and> (host = ''localhost''
       \<or> (\<exists>b c d. ParseIP host = Some (mapped [127, b, c, d]) \<and> b < 256 \<and> c < 256 \<and> d < 256)
       \<or> ParseIP host = Some (replicate 15 0 @ [1]))"
  using plaintext_only_to_loopback [OF sample_dial, THEN conjunct2, THEN conjunct2]
  unfolding entry_def sample_announcement_def RemoteEntry.select_convs announcement.select_convs .

text \<open>
  On an IPv4 address with a port the choice is exact: with credentials the address is dialled
  with them; without, it is dialled insecurely when its first octet is 127 and refused with the
  plaintext error naming the address otherwise, and nothing is dialled under a context that is
  done.
\<close>

theorem dial_ipv4:
  assumes "a < 256" "b < 256" "c < 256" "d < 256" and "plain port"
    and "entry_GrpcAddr e = dotted a b c d @ '':'' @ port"
  shows "dialConn rt g ctxErr e creds =
    (case (ctxErr, creds) of
       (Some cause, _) \<Rightarrow> Inl cause
     | (None, Some cr) \<Rightarrow> NewClient g (entry_GrpcAddr e) cr
     | (None, None) \<Rightarrow>
         if a = 127 then NewClient g (entry_GrpcAddr e) (insecure_NewCredentials g)
         else Inl (PlaintextDialError (entry_GrpcAddr e)))"
  using requireLoopback_dotted [OF assms(1-5), of rt] assms(6)
  by (cases ctxErr; cases creds; cases "a = 127") (simp_all add: dialConn_def)

theorem dial_ipv4_witness:
  "dialConn sample_runtime sample_grpc None
     \<lparr> entry_Manifest = ''memory'', entry_GrpcAddr = dotted 10 0 0 9 @ '':'' @ ''7000'', entry_InstanceID = ''m2'' \<rparr> None =
   Inl (PlaintextDialError (dotted 10 0 0 9 @ '':'' @ ''7000''))"
  using dial_ipv4 [of 10 0 0 9 "''7000''"
      "\<lparr> entry_Manifest = ''memory'', entry_GrpcAddr = dotted 10 0 0 9 @ '':'' @ ''7000'', entry_InstanceID = ''m2'' \<rparr>"
      sample_runtime sample_grpc None None]
  by (simp add: plain_def)

end
