(* ===== verification/Registry_Threads.thy ===== *)
theory Registry_Threads
  imports Registry Locks
begin

text \<open>
  The registry of \<^verbatim>\<open>remote_registry.go\<close> under its \<^verbatim>\<open>RWMutex\<close>: the NATS goroutine
  records announcements under the write lock while any number of goroutines query under the read
  lock. The checks of \<^verbatim>\<open>observe\<close> come before its lock and read only the announcement and
  the allowlist, which never changes; what remains for the lock is the store of the entry. A query
  walks over the entries, one statement for each. The whole registry is the subscription, which
  handles one message after the other, beside the goroutines that query.
\<close>

section \<open>The sections under the lock\<close>

datatype 'm registry_op = Put "'m announcement" | ByCategory string

fun registry_excl :: "'m registry_op \<Rightarrow> bool" where
  "registry_excl (Put a) \<longleftrightarrow> True"
| "registry_excl (ByCategory c) \<longleftrightarrow> False"

fun collect ::
  "'m contract_types \<Rightarrow> string \<Rightarrow> string list \<Rightarrow> 'm RemoteEntry list \<Rightarrow> ('m RemoteRegistry, 'm RemoteEntry list) body" where
  "collect ct c [] out = Return out"
| "collect ct c (k # ks) out = Stmt ''entry := r.entries[id]'' (\<lambda>r. (r,
     case get_entry r k of
       Some e \<Rightarrow> collect ct c ks (if manifest_Category ct (entry_Manifest e) = c then out @ [e] else out)
     | None \<Rightarrow> collect ct c ks out))"

fun registry_body :: "'m contract_types \<Rightarrow> 'm registry_op \<Rightarrow> ('m RemoteRegistry, 'm RemoteEntry list) body" where
  "registry_body ct (Put a) =
     Stmt ''r.entries[announcement.InstanceID] = announcement.entry()''
       (\<lambda>r. (put_entry (InstanceID a) (entry a) r, Return []))"
| "registry_body ct (ByCategory c) =
     Stmt ''for id := range r.entries'' (\<lambda>r. (r, collect ct c (map fst (entries r)) []))"

fun registry_spec ::
  "'m contract_types \<Rightarrow> 'm registry_op \<Rightarrow> 'm RemoteRegistry \<Rightarrow> 'm RemoteRegistry \<times> 'm RemoteEntry list" where
  "registry_spec ct (Put a) r = (put_entry (InstanceID a) (entry a) r, [])"
| "registry_spec ct (ByCategory c) r = (r, byCategory ct r c)"

text \<open>What is left of \<^const>\<open>observe\<close> once its checks are passed.\<close>

lemma observe_is_put:
  "usable_announcement ct a \<Longrightarrow> allowed (allow r) (GrpcAddr a) \<Longrightarrow>
     observe ct r a = (fst (registry_spec ct (Put a) r), None)"
  by (simp add: observe_cases)

lemma collect_reads: "read_only (collect ct c ks out)"
  by (induction ks arbitrary: out) (auto split: option.split)

lemma run_collect:
  assumes "distinct (map fst (entries r))"
  shows "set es \<subseteq> set (entries r) \<Longrightarrow> run_body (collect ct c (map fst es) out) r =
    (r, out @ filter (\<lambda>e. manifest_Category ct (entry_Manifest e) = c) (map snd es))"
proof (induction es arbitrary: out)
  case (Cons x es)
  obtain k e where x: "x = (k, e)" by fastforce
  with Cons.prems assms have "get_entry r k = Some e" by (simp add: get_entry_def)
  with Cons x show ?case by simp
qed simp

interpretation registry_monitor: monitor registry_excl "registry_body ct" "registry_spec ct" keyed for ct
proof unfold_locales
  fix op :: "'a registry_op" and r :: "'a RemoteRegistry"
  assume "keyed r"
  then have "distinct (map fst (entries r))" by (simp add: keyed_def)
  from run_collect [OF this, of "entries r"] show "run_body (registry_body ct op) r = registry_spec ct op r"
    by (cases op) (simp_all add: byCategory_def)
  show "keyed (fst (registry_spec ct op r))"
    using \<open>keyed r\<close> keyed_put [of r "entry a" for a] by (cases op) simp_all
next
  fix op :: "'a registry_op"
  show "\<not> registry_excl op \<Longrightarrow> read_only (registry_body ct op)" by (cases op) (simp_all add: collect_reads)
qed

section \<open>What a query sees\<close>

definition recorded :: "'m registry_op list \<Rightarrow> 'm RemoteEntry list" where
  "recorded ops = concat (map (\<lambda>op. case op of Put a \<Rightarrow> [entry a] | ByCategory c \<Rightarrow> []) ops)"

lemma seq_run_registry: "fst (seq_run (registry_spec ct) r ops) = put_all (recorded ops) r"
proof (induction ops arbitrary: r)
  case (Cons op ops)
  then show ?case by (cases op) (simp_all add: recorded_def case_prod_unfold)
qed (simp add: recorded_def)

section \<open>Watching while others query\<close>

text \<open>
  The whole registry at work: NATS runs the callback of the subscription for one message after the
  other, and goroutines query at any time. A message that opens under the key and passes the
  checks of \<^verbatim>\<open>observe\<close> goes to the lock; every other message is over with its call
  of the rejection hook. The next message comes when the callback has returned. The second
  component lists the messages delivered so far, each with the time of its delivery.
\<close>

type_synonym 'm registry_locks = "('m registry_op, 'm RemoteRegistry, 'm RemoteEntry list) lock_state"

definition under_way :: "'m registry_locks \<Rightarrow> 'm RemoteEntry list" where
  "under_way st = recorded (map fst (inside st) @ waiting st)"

inductive watched_step ::
  "'b runtime \<Rightarrow> 'm codec \<Rightarrow> 'm contract_types \<Rightarrow> AnnounceKey \<Rightarrow> (string \<Rightarrow> bool) option
   \<Rightarrow> 'm registry_locks \<times> (string \<times> int) list \<Rightarrow> 'm registry_locks \<times> (string \<times> int) list \<Rightarrow> bool"
  for rt mc ct key f where
  admitted: "under_way st = [] \<Longrightarrow> openAnnouncement rt mc key payload now = Inr a \<Longrightarrow>
     usable_announcement ct a \<Longrightarrow> allowed f (GrpcAddr a) \<Longrightarrow>
     watched_step rt mc ct key f (st, msgs) (invoked (Put a) st, msgs @ [(payload, now)])"
| rejected: "under_way st = [] \<Longrightarrow> verdict rt mc ct key f (payload, now) = Inl err \<Longrightarrow>
     watched_step rt mc ct key f (st, msgs) (st, msgs @ [(payload, now)])"
| asked: "watched_step rt mc ct key f (st, msgs) (invoked (ByCategory c) st, msgs)"
| locked: "lock_step registry_excl (registry_body ct) st st' \<Longrightarrow> watched_step rt mc ct key f (st, msgs) (st', msgs)"

abbreviation watched_run ::
  "'b runtime \<Rightarrow> 'm codec \<Rightarrow> 'm contract_types \<Rightarrow> AnnounceKey \<Rightarrow> (string \<Rightarrow> bool) option
   \<Rightarrow> 'm registry_locks \<times> (string \<times> int) list \<Rightarrow> 'm registry_locks \<times> (string \<times> int) list \<Rightarrow> bool" where
  "watched_run rt mc ct key f \<equiv> (watched_step rt mc ct key f)\<^sup>*\<^sup>*"

lemma recorded_simps [simp]:
  "recorded [] = []" "recorded (Put a # ops) = entry a # recorded ops"
  "recorded (ByCategory c # ops) = recorded ops" "recorded (ops @ ops') = recorded ops @ recorded ops'"
  by (simp_all add: recorded_def)

lemma recorded_remove1:
  "Put a \<in> set ops \<Longrightarrow> mset (recorded ops) = add_mset (entry a) (mset (recorded (remove1 (Put a) ops)))"
  "recorded (remove1 (ByCategory c) ops) = recorded ops"
proof (induction ops)
  case (Cons op ops)
  { case 1 with Cons.IH(1) show ?case by (cases op) auto }
  { case 2 with Cons.IH(2) show ?case by (cases op) auto }
qed simp_all

text \<open>
  Nothing gets lost between the callback and the entries: what has been recorded, followed by what
  is under way (one announcement at most), is what the delivered messages come to.
\<close>

definition watched_ok ::
  "'b runtime \<Rightarrow> 'm codec \<Rightarrow> 'm contract_types \<Rightarrow> AnnounceKey \<Rightarrow> (string \<Rightarrow> bool) option
   \<Rightarrow> 'm registry_locks \<times> (string \<times> int) list \<Rightarrow> bool" where
  "watched_ok rt mc ct key f c \<longleftrightarrow> length (under_way (fst c)) \<le> 1
     \<and> recorded (map fst (finished (fst c))) @ under_way (fst c) = accepted (map (verdict rt mc ct key f) (snd c))"

lemma accepted_append [simp]: "accepted (xs @ ys) = accepted xs @ accepted ys"
  by (simp add: accepted_def)

lemma watched_ok_locked:
  assumes "lock_step registry_excl (registry_body ct') st st'" and "length (under_way st) \<le> 1"
  shows "length (under_way st') \<le> 1
    \<and> recorded (map fst (finished st')) @ under_way st' = recorded (map fst (finished st)) @ under_way st"
  using assms(1)
proof (cases rule: lock_step.cases)
  case (lock op)
  then obtain a where a: "op = Put a" by (cases op) auto
  with lock assms(2) recorded_remove1(1) [of a "waiting st"]
  have "recorded (waiting st) = [entry a] \<and> recorded (remove1 (Put a) (waiting st)) = []"
    by (cases "recorded (waiting st)") (auto simp: under_way_def)
  with lock a show ?thesis by (simp add: under_way_def)
next
  case (rlock op)
  then obtain c where "op = ByCategory c" by (cases op) auto
  with rlock assms(2) show ?thesis by (simp add: under_way_def recorded_remove1(2))
next
  case (statement xs op l g ys s' b)
  with assms(2) show ?thesis by (cases op) (simp_all add: under_way_def)
next
  case (unlock xs op r ys)
  with assms(2) show ?thesis by (cases op) (auto simp: under_way_def)
qed

lemma watched_ok_step: "watched_step rt mc ct key f c c' \<Longrightarrow> watched_ok rt mc ct key f c \<Longrightarrow> watched_ok rt mc ct key f c'"
proof (induction rule: watched_step.induct)
  case (admitted st payload now a msgs)
  then show ?case by (auto simp: watched_ok_def under_way_def invoked_def verdict_def)
next
  case (locked st st' msgs)
  with watched_ok_locked [OF locked.hyps] show ?case by (auto simp: watched_ok_def)
qed (auto simp: watched_ok_def under_way_def invoked_def)

lemma watched_ok_run:
  assumes "watched_run rt mc ct key f c c'" and "watched_ok rt mc ct key f c"
  shows "watched_ok rt mc ct key f c'"
  using assms by (induction rule: rtranclp_induct) (auto intro: watched_ok_step)

lemma watched_is_monitor:
  assumes "watched_run rt mc ct key f c c'"
  shows "monitor_run registry_excl (registry_body ct) (fst c) (fst c') \<and> prefix (snd c) (snd c')"
  using assms
proof (induction rule: rtranclp_induct)
  case (step c' c'')
  from step.hyps(2) have "monitor_run registry_excl (registry_body ct) (fst c') (fst c'') \<and> prefix (snd c') (snd c'')"
    by (cases rule: watched_step.cases) (auto intro: monitor_step.intros)
  with step.IH show ?case by (auto intro: rtranclp_trans prefix_order.trans)
qed simp

text \<open>A point between two lists of accepted announcements is a point between the messages.\<close>

lemma accepted_between:
  "prefix (accepted (map v ms)) es \<Longrightarrow> prefix es (accepted (map v (ms @ later))) \<Longrightarrow>
     \<exists>ms'. prefix ms ms' \<and> prefix ms' (ms @ later) \<and> accepted (map v ms') = es"
proof (induction later rule: rev_induct)
  case Nil
  then show ?case by (intro exI [of _ ms]) (simp add: prefix_order.antisym)
next
  case (snoc m later)
  show ?case
  proof (cases "prefix es (accepted (map v (ms @ later)))")
    case True
    with snoc show ?thesis by (meson prefix_append append_assoc prefix_order.trans prefixI)
  next
    case False
    with snoc.prems(2) have "es = accepted (map v (ms @ later @ [m]))"
      by (cases "v m") (auto simp: prefix_snoc simp flip: append_assoc)
    then show ?thesis by (intro exI [of _ "ms @ later @ [m]"]) simp
  qed
qed

text \<open>
  A query is one step: what it returns is what it returns on the registry as a whole number of
  announcements leave it, in the order in which they were recorded, and every announcement that
  was recorded before the query was made is among them.
\<close>

lemma queries_are_atomic:
  assumes "keyed r" and "monitor_run registry_excl (registry_body ct) (idle r) st"
    and "ByCategory c \<notin># calls st" and "monitor_run registry_excl (registry_body ct) st st'"
    and "i < length (finished st')" and "finished st' ! i = (ByCategory c, out)"
  shows "\<exists>later. recorded (map fst (take i (finished st'))) = recorded (map fst (finished st)) @ later
    \<and> out = byCategory ct (put_all (recorded (map fst (finished st)) @ later) r) c"
proof -
  have "monitor_run registry_excl (registry_body ct) (idle r) st'" using assms(2,4) by (rule rtranclp_trans)
  from registry_monitor.linearizable [OF this assms(1)] obtain r' where
    "seq_run (registry_spec ct) r (map fst (finished st')) = (r', finished st')" by blast
  from seq_run_nth [OF this assms(5,6)]
  have out: "out = byCategory ct (put_all (recorded (map fst (take i (finished st')))) r) c"
    by (simp add: seq_run_registry take_map)
  obtain rest where st': "finished st' = finished st @ rest"
    using finished_grows [OF assms(4)] by (auto simp: prefix_def)
  have "ByCategory c \<notin> set (map fst (finished st))" using assms(3) by (auto simp: calls_def)
  then have "length (finished st) \<le> i"
    using assms(6) st' by (metis fst_conv in_set_conv_nth leI length_map nth_append nth_map)
  with out st' show ?thesis by (simp add: recorded_def)
qed

section \<open>Properties\<close>

text \<open>
  C19: a registry that watches while goroutines query is never stale and never torn: if no message
  is under way when a query is made, the query returns what a watch that handles its messages one
  at a time has after some number of the messages, with every message delivered before the query
  among them and only delivered ones, whatever is delivered and asked while the query walks over
  the entries.
\<close>

theorem watched_queries_are_current:
  assumes "keyed r" and "watched_run rt mc ct key (allow r) (idle r, []) (st, msgs)"
    and "under_way st = []" and "ByCategory c \<notin># calls st"
    and "watched_run rt mc ct key (allow r) (st, msgs) (st', msgs')"
    and "i < length (finished st')" and "finished st' ! i = (ByCategory c, out)"
  shows "\<exists>seen. prefix msgs seen \<and> prefix seen msgs'
    \<and> out = byCategory ct (fst (foldl (watch_step rt mc ct key reject) (r, s) seen)) c"
proof -
  let ?put = "\<lambda>ms. accepted (map (verdict rt mc ct key (allow r)) ms)"
  have "watched_ok rt mc ct key (allow r) (idle r, [])" by (simp add: watched_ok_def under_way_def idle_def)
  note ok = watched_ok_run [OF assms(2) this]
  note ok' = watched_ok_run [OF assms(5) ok]
  from queries_are_atomic [OF assms(1) _ assms(4) _ assms(6,7)] watched_is_monitor [OF assms(2)]
    watched_is_monitor [OF assms(5)]
  obtain later where later: "recorded (map fst (take i (finished st'))) = ?put msgs @ later"
    "out = byCategory ct (put_all (?put msgs @ later) r) c"
    using ok assms(3) by (auto simp: watched_ok_def)
  obtain rest where rest: "msgs' = msgs @ rest" using watched_is_monitor [OF assms(5)] by (auto simp: prefix_def)
  have "recorded (map fst (finished st'))
      = recorded (map fst (take i (finished st'))) @ recorded (map fst (drop i (finished st')))"
    by (metis append_take_drop_id map_append recorded_simps(4))
  with ok' later(1) have "prefix (?put msgs @ later) (?put msgs')"
    by (auto simp: watched_ok_def prefix_def) (metis append_assoc)
  with rest accepted_between [of "verdict rt mc ct key (allow r)" msgs "?put msgs @ later" rest]
  obtain seen where "prefix msgs seen" "prefix seen msgs'" "?put seen = ?put msgs @ later" by auto
  with later(2) show ?thesis by (intro exI [of _ seen]) (simp add: watch_registry)
qed

lemma sample_listed:
  "byCategory sample_types (put_entry (InstanceID sample_announcement) (entry sample_announcement) open_registry) ''memory'' = [entry sample_announcement]"
  by (simp add: byCategory_def put_entry_def NewRemoteRegistry_def WithAddrAllow_def entry_def
      sample_announcement_def sample_types_def)

lemma watched_locked:
  "(lock_step registry_excl (registry_body ct))\<^sup>*\<^sup>* st st' \<Longrightarrow> watched_run rt mc ct key f (st, msgs) (st', msgs)"
  by (induction rule: rtranclp_induct) (auto intro: watched_step.locked rtranclp.rtrancl_into_rtrancl)

lemma sample_heard:
  "\<exists>msg st. watched_run sample_runtime string_codec sample_types sample_key (allow open_registry)
      (idle open_registry, []) (st, [msg])
    \<and> inside st = [] \<and> waiting st = [] \<and> map fst (finished st) = [Put sample_announcement]
    \<and> verdict sample_runtime string_codec sample_types sample_key (allow open_registry) msg = Inr (entry sample_announcement)"
proof -
  let ?step = "watched_step sample_runtime string_codec sample_types sample_key (allow open_registry)"
  obtain payload where p: "openAnnouncement sample_runtime string_codec sample_key payload 5 = Inr sample_announcement"
    using sample_accepted_times by blast
  have ok: "usable_announcement sample_types sample_announcement" "allowed (allow open_registry) (GrpcAddr sample_announcement)"
    by (rule sample_is_usable) (simp add: NewRemoteRegistry_def WithAddrAllow_def allowed_def)
  have "?step (idle open_registry, []) (invoked (Put sample_announcement) (idle open_registry), [(payload, 5)])"
    using watched_step.admitted [OF _ p ok, of "idle open_registry" "[]"] by (simp add: under_way_def idle_def)
  moreover obtain st where st: "(lock_step registry_excl (registry_body sample_types))\<^sup>*\<^sup>*
      (invoked (Put sample_announcement) (idle open_registry)) st" "inside st = []" "waiting st = []"
    "map fst (finished st) = [Put sample_announcement]"
    using next_call [of "idle open_registry" registry_excl "registry_body sample_types" "Put sample_announcement"]
    by (auto simp: idle_def)
  moreover have "verdict sample_runtime string_codec sample_types sample_key (allow open_registry) (payload, 5)
      = Inr (entry sample_announcement)"
    using ok by (simp add: verdict_def p)
  ultimately show ?thesis by (meson converse_rtranclp_into_rtranclp watched_locked)
qed

theorem watched_queries_are_current_witness:
  "\<exists>msg st. watched_run sample_runtime string_codec sample_types sample_key (allow open_registry)
      (idle open_registry, []) (st, [msg])
    \<and> map snd (drop 1 (finished st)) = [[entry sample_announcement]]"
proof -
  let ?run = "watched_run sample_runtime string_codec sample_types sample_key (allow open_registry)"
  obtain msg st where st: "?run (idle open_registry, []) (st, [msg])" "inside st = []" "waiting st = []"
    "map fst (finished st) = [Put sample_announcement]"
    and v: "verdict sample_runtime string_codec sample_types sample_key (allow open_registry) msg = Inr (entry sample_announcement)"
    by (rule exE [OF sample_heard], elim exE conjE, rule that)
  obtain st' out where st': "(lock_step registry_excl (registry_body sample_types))\<^sup>*\<^sup>* (invoked (ByCategory ''memory'') st) st'"
    "finished st' = finished st @ [(ByCategory ''memory'', out)]"
    using next_call [OF st(2,3), of registry_excl "registry_body sample_types" "ByCategory ''memory''"] by blast
  have run: "?run (st, [msg]) (st', [msg])"
    by (meson converse_rtranclp_into_rtranclp watched_locked st'(1) watched_step.asked)
  have one: "length (finished st) = 1" using arg_cong [OF st(4), of length] by simp
  from st st'(2) one have "keyed open_registry" "under_way st = []" "ByCategory ''memory'' \<notin># calls st"
    "1 < length (finished st')" "finished st' ! 1 = (ByCategory ''memory'', out)"
    by (simp_all add: keyed_def NewRemoteRegistry_def WithAddrAllow_def under_way_def calls_def nth_append)
  from watched_queries_are_current [OF this(1) st(1) this(2,3) run this(4,5), of "\<lambda>s e. s" "()"]
  have "out = byCategory sample_types (fst (watch_step sample_runtime string_codec sample_types sample_key (\<lambda>s e. s)
      (open_registry, ()) msg)) ''memory''"
    by (auto simp: prefix_def)
  then have "out = [entry sample_announcement]" by (simp add: watch_step_verdict(2) [OF v] sample_listed)
  with st'(2) one have "map snd (drop 1 (finished st')) = [[entry sample_announcement]]" by simp
  with st(1) run show ?thesis by (meson rtranclp_trans)
qed

end
