(* ===== verification/Turn_Threads.thy ===== *)
theory Turn_Threads
  imports Backend Locks
begin

text \<open>
  The turn of \<^verbatim>\<open>backend_stream.go\<close> with its goroutines: the handler, which waits for the
  real backend and then closes the turn, and the goroutines of the backend, which may call
  \<^verbatim>\<open>onEvent\<close> at any time, several at once, and even after the handler has returned.
  The sections under \<^verbatim>\<open>sendLock\<close> are written statement by statement; the last frame
  is sent outside of the lock, as the code does.

  The theory shows that the definition of \<^const>\<open>respond\<close>, in which every call of
  \<^verbatim>\<open>onEvent\<close> is a single step, is what each interleaving of the statements comes to,
  and what of it reaches the receive loop of the proxy.
\<close>

section \<open>The sections under the lock\<close>

datatype 'e send_op = OnEvent 'e | Shut

definition onEvent_body ::
  "'e codec \<Rightarrow> ('w, 'b) send \<Rightarrow> 'e \<Rightarrow> (('w, 'b) send_state, 'b go_error option) body" where
  "onEvent_body ec send event =
     Stmt ''if closed || sendErr != nil'' (\<lambda>st. (st,
       if stream_closed st \<or> sendErr st \<noteq> None then Return None
       else Stmt ''Marshal'' (\<lambda>st.
         case Marshal (frame_codec ec) (event_frame event) of
           Inl err \<Rightarrow> (st, Stmt ''sendErr = err'' (\<lambda>st. (st\<lparr>sendErr := Some err\<rparr>, Return None)))
         | Inr payload \<Rightarrow> (st, Stmt ''stream.SendMsg'' (\<lambda>st.
             case send_payload send (out_stream st) payload of
               (w, None) \<Rightarrow> (st\<lparr>out_stream := w\<rparr>, Return None)
             | (w, Some err) \<Rightarrow> (st\<lparr>out_stream := w\<rparr>,
                 Stmt ''sendErr = err'' (\<lambda>st. (st\<lparr>sendErr := Some err\<rparr>, Return None))))))))"

definition shut_body :: "(('w, 'b) send_state, 'b go_error option) body" where
  "shut_body =
     Stmt ''closed = true'' (\<lambda>st. (st\<lparr>stream_closed := True\<rparr>,
       Stmt ''streamErr := sendErr'' (\<lambda>st. (st, Return (sendErr st)))))"

fun turn_body :: "'e codec \<Rightarrow> ('w, 'b) send \<Rightarrow> 'e send_op \<Rightarrow> (('w, 'b) send_state, 'b go_error option) body" where
  "turn_body ec send (OnEvent event) = onEvent_body ec send event"
| "turn_body ec send Shut = shut_body"

fun turn_spec ::
  "'e codec \<Rightarrow> ('w, 'b) send \<Rightarrow> 'e send_op \<Rightarrow> ('w, 'b) send_state \<Rightarrow> ('w, 'b) send_state \<times> 'b go_error option" where
  "turn_spec ec send (OnEvent event) st = (on_event ec send st event, None)"
| "turn_spec ec send Shut st = (st\<lparr>stream_closed := True\<rparr>, sendErr st)"

abbreviation always :: "'a \<Rightarrow> bool" where
  "always \<equiv> \<lambda>_. True"

interpretation turn_monitor: monitor always "turn_body ec send" "turn_spec ec send" always for ec send
proof unfold_locales
  fix op st
  show "run_body (turn_body ec send op) st = turn_spec ec send op st"
    by (cases op) (simp_all add: onEvent_body_def shut_body_def on_event_def split: sum.split prod.split option.split)
qed simp_all

section \<open>The handler and the backend's goroutines\<close>

text \<open>
  The handler: inside the real backend's \<^verbatim>\<open>Respond\<close>; closing the turn, with the
  reply and the error it got; at the sending of the last frame; returned. The backend may return
  any reply and error at any time.
\<close>

datatype 'b handler =
    Responding
  | Closing string "'b go_error option"
  | is_Replying: Replying string "'b go_error option" string
  | Returned string "'b go_error option" "'b go_error option"

type_synonym ('w, 'b, 'e) turn_state =
  "('e send_op, ('w, 'b) send_state, 'b go_error option) lock_state \<times> 'b handler"

inductive turn_step ::
  "'b runtime \<Rightarrow> 'e codec \<Rightarrow> ('w, 'b) send \<Rightarrow> ('w, 'b, 'e) turn_state \<Rightarrow> ('w, 'b, 'e) turn_state \<Rightarrow> bool"
  for rt ec send where
  emit: "turn_step rt ec send (st, m) (invoked (OnEvent event) st, m)"
| locked: "lock_step always (turn_body ec send) st st' \<Longrightarrow> turn_step rt ec send (st, m) (st', m)"
| backend_returns: "turn_step rt ec send (st, Responding) (invoked Shut st, Closing reply respErr)"
| lost_event: "(Shut, Some err) \<in> set (finished st) \<Longrightarrow>
     turn_step rt ec send (st, Closing reply respErr)
       (st, Returned reply respErr (Some (wrap rt ''transport: backend event stream'' err)))"
| not_encoded: "(Shut, None) \<in> set (finished st) \<Longrightarrow>
     Marshal (frame_codec ec) (done_frame reply (errString rt respErr)) = Inl err \<Longrightarrow>
     turn_step rt ec send (st, Closing reply respErr)
       (st, Returned reply respErr (Some (wrap rt ''transport: encode backend reply'' err)))"
| encoded: "(Shut, None) \<in> set (finished st) \<Longrightarrow>
     Marshal (frame_codec ec) (done_frame reply (errString rt respErr)) = (Inr payload :: ('b, string) result) \<Longrightarrow>
     turn_step rt ec send (st, Closing reply respErr) (st, Replying reply respErr payload)"
| sent: "send_payload send (out_stream (guarded st)) payload = (w, err) \<Longrightarrow>
     turn_step rt ec send (st, Replying reply respErr payload)
       (st\<lparr>guarded := (guarded st)\<lparr>out_stream := w\<rparr>\<rparr>,
        Returned reply respErr (map_option (wrap rt ''transport: send backend reply'') err))"

definition fresh_send :: "'w \<Rightarrow> ('w, 'b) send_state" where
  "fresh_send w = \<lparr> out_stream = w, sendErr = None, stream_closed = False \<rparr>"

abbreviation turn_run ::
  "'b runtime \<Rightarrow> 'e codec \<Rightarrow> ('w, 'b) send \<Rightarrow> ('w, 'b, 'e) turn_state \<Rightarrow> ('w, 'b, 'e) turn_state \<Rightarrow> bool" where
  "turn_run rt ec send \<equiv> (turn_step rt ec send)\<^sup>*\<^sup>*"

abbreviation turn_start :: "'w \<Rightarrow> ('w, 'b, 'e) turn_state" where
  "turn_start w \<equiv> (idle (fresh_send w), Responding)"

fun at_stmt :: "string \<Rightarrow> ('s, 'r) body \<Rightarrow> bool" where
  "at_stmt l (Stmt l' f) \<longleftrightarrow> l = l'"
| "at_stmt l (Return r) \<longleftrightarrow> False"

section \<open>The invariant\<close>

abbreviation after_events :: "'e codec \<Rightarrow> ('w, 'b) send \<Rightarrow> 'w \<Rightarrow> 'e list \<Rightarrow> ('w, 'b) send_state" where
  "after_events ec send w es \<equiv> foldl (on_event ec send) (fresh_send w) es"

abbreviation emitted :: "'e list \<Rightarrow> ('e send_op \<times> 'b go_error option) list" where
  "emitted \<equiv> map (\<lambda>e. (OnEvent e, None))"

text \<open>Until the turn is closed, the events that got the lock have been sent one after the other.\<close>

definition turn_open ::
  "'e codec \<Rightarrow> ('w, 'b) send \<Rightarrow> 'w \<Rightarrow> ('e send_op, ('w, 'b) send_state, 'b go_error option) lock_state \<Rightarrow> bool" where
  "turn_open ec send w st \<longleftrightarrow>
     (\<exists>es. finished st = emitted es \<and> consistent always (turn_spec ec send) always (after_events ec send w es) st)"

text \<open>From then on nobody but the handler touches the stream: a late call only finds it closed.\<close>

definition turn_shut ::
  "'e codec \<Rightarrow> ('w, 'b) send \<Rightarrow> 'w \<Rightarrow> 'e list \<Rightarrow> 'e list \<Rightarrow> 'w
   \<Rightarrow> ('e send_op, ('w, 'b) send_state, 'b go_error option) lock_state \<Rightarrow> bool" where
  "turn_shut ec send w es late w' st \<longleftrightarrow>
     finished st = emitted es @ (Shut, sendErr (after_events ec send w es)) # emitted late
     \<and> guarded st = (after_events ec send w es)\<lparr>stream_closed := True, out_stream := w'\<rparr>
     \<and> (inside st = [] \<or> (\<exists>e. inside st = [(OnEvent e, onEvent_body ec send e)] \<or> inside st = [(OnEvent e, Return None)]))"

text \<open>What the handler does once the turn is closed.\<close>

definition closing_result ::
  "'b runtime \<Rightarrow> 'e codec \<Rightarrow> ('w, 'b) send \<Rightarrow> ('w, 'b) send_state \<Rightarrow> string \<Rightarrow> 'b go_error option \<Rightarrow> 'w \<times> 'b go_error option" where
  "closing_result rt ec send st reply respErr =
     (case sendErr st of
        Some err \<Rightarrow> (out_stream st, Some (wrap rt ''transport: backend event stream'' err))
      | None \<Rightarrow>
        (case Marshal (frame_codec ec) (done_frame reply (errString rt respErr)) of
           Inl err \<Rightarrow> (out_stream st, Some (wrap rt ''transport: encode backend reply'' err))
         | Inr payload \<Rightarrow>
           (case send_payload send (out_stream st) payload of
              (w, err) \<Rightarrow> (w, map_option (wrap rt ''transport: send backend reply'') err))))"

fun turn_ok :: "'b runtime \<Rightarrow> 'e codec \<Rightarrow> ('w, 'b) send \<Rightarrow> 'w \<Rightarrow> ('w, 'b, 'e) turn_state \<Rightarrow> bool" where
  "turn_ok rt ec send w (st, Responding) \<longleftrightarrow> count (calls st) Shut = 0 \<and> turn_open ec send w st"
| "turn_ok rt ec send w (st, Closing reply respErr) \<longleftrightarrow> count (calls st) Shut = 1
     \<and> (turn_open ec send w st \<or> (\<exists>es late. turn_shut ec send w es late (out_stream (after_events ec send w es)) st))"
| "turn_ok rt ec send w (st, Replying reply respErr payload) \<longleftrightarrow> count (calls st) Shut = 1
     \<and> Marshal (frame_codec ec) (done_frame reply (errString rt respErr)) = (Inr payload :: ('b, string) result)
     \<and> (\<exists>es late. turn_shut ec send w es late (out_stream (after_events ec send w es)) st
          \<and> sendErr (after_events ec send w es) = None)"
| "turn_ok rt ec send w (st, Returned reply respErr res) \<longleftrightarrow> count (calls st) Shut = 1
     \<and> (\<exists>es late w'. turn_shut ec send w es late w' st
          \<and> closing_result rt ec send (after_events ec send w es) reply respErr = (w', res))"

section \<open>Every step keeps the invariant\<close>

lemma shut_calls:
  fixes ec :: "'e codec"
  assumes "turn_shut ec send w es late w' st"
  shows "count (calls st) Shut = Suc (count (mset (waiting st)) Shut)"
proof -
  note assms
  moreover have "calls st = mset (waiting st) + mset (map fst (inside st) @ map fst (finished st))" by (simp add: calls_def)
  moreover have "count_list (map (fst \<circ> (\<lambda>e. (OnEvent e, None))) xs) Shut = 0" for xs :: "'e list"
    by (induction xs) auto
  ultimately show ?thesis by (auto simp: turn_shut_def count_mset simp del: mset_append mset_map)
qed

lemma onEvent_closed:
  assumes "turn_shut ec send w es late w' st" and "count (calls st) Shut = 1" and "lock_step always (turn_body ec send) st st'"
  shows "\<exists>late'. turn_shut ec send w es late' w' st'"
  using assms(3)
proof (cases rule: lock_step.cases)
  case (lock op)
  have "Shut \<notin> set (waiting st)" using assms(2) shut_calls [OF assms(1)] by simp
  with lock(2) obtain e where "op = OnEvent e" by (metis send_op.exhaust)
  with lock assms(1) show ?thesis by (auto simp: turn_shut_def)
next
  case (statement xs op l f ys s' b)
  with assms(1) obtain e where "xs = []" "ys = []" "op = OnEvent e" "Stmt l f = onEvent_body ec send e"
    by (auto simp: turn_shut_def append_eq_Cons_conv)
  with statement assms(1) show ?thesis by (auto simp: turn_shut_def onEvent_body_def)
next
  case (unlock xs op r ys)
  with assms(1) obtain e where "xs = []" "ys = []" "op = OnEvent e" "r = None"
    by (auto simp: turn_shut_def append_eq_Cons_conv onEvent_body_def)
  with unlock assms(1) show ?thesis by (intro exI [of _ "late @ [e]"]) (auto simp: turn_shut_def)
qed simp

lemma turn_open_step:
  assumes "turn_open ec send w st" and "lock_step always (turn_body ec send) st st'"
  shows "turn_open ec send w st' \<or> (\<exists>es. turn_shut ec send w es [] (out_stream (after_events ec send w es)) st')"
proof -
  obtain es where es: "finished st = emitted es"
    "consistent always (turn_spec ec send) always (after_events ec send w es) st"
    using assms(1) by (auto simp: turn_open_def)
  from turn_monitor.simulation [OF assms(2) es(2)] show ?thesis
  proof (elim disjE exE conjE)
    fix op r s'
    assume step: "finished st' = finished st @ [(op, r)]" "turn_spec ec send op (after_events ec send w es) = (s', r)"
      "consistent always (turn_spec ec send) always s' st'" "True \<longrightarrow> inside st' = []"
    show ?thesis
    proof (cases op)
      case (OnEvent e)
      with step es(1) show ?thesis unfolding turn_open_def by (intro disjI1 exI [of _ "es @ [e]"]) auto
    next
      case Shut
      with step(2) have "s' = (after_events ec send w es)\<lparr>stream_closed := True, out_stream := out_stream (after_events ec send w es)\<rparr>"
        by auto
      with Shut step es(1) consistent_free [OF step(3)] show ?thesis
        by (intro disjI2 exI [of _ es]) (auto simp: turn_shut_def)
    qed
  qed (use es in \<open>auto simp: turn_open_def\<close>)
qed

lemma turn_ok_locked:
  assumes "turn_ok rt ec send w (st, m)" and "lock_step always (turn_body ec send) st st'"
  shows "turn_ok rt ec send w (st', m)"
proof (cases m)
  case Responding
  with assms turn_open_step [OF _ assms(2), of w] calls_kept [OF assms(2)] show ?thesis
    by (auto dest: shut_calls)
next
  case (Closing reply respErr)
  with assms(1) calls_kept [OF assms(2)]
  have "turn_open ec send w st \<or> (\<exists>es late. turn_shut ec send w es late (out_stream (after_events ec send w es)) st)"
    and one: "count (calls st) Shut = 1" "count (calls st') Shut = 1" by simp_all
  with turn_open_step [OF _ assms(2), of w] onEvent_closed [OF _ one(1) assms(2)]
  have "turn_open ec send w st' \<or> (\<exists>es late. turn_shut ec send w es late (out_stream (after_events ec send w es)) st')"
    by blast
  with Closing one show ?thesis by simp
next
  case (Replying reply respErr payload)
  with assms onEvent_closed [OF _ _ assms(2)] calls_kept [OF assms(2)] show ?thesis by fastforce
next
  case (Returned reply respErr res)
  with assms onEvent_closed [OF _ _ assms(2)] calls_kept [OF assms(2)] show ?thesis by fastforce
qed

lemma invoked_turn [simp]:
  "turn_open ec send w (invoked op st) = turn_open ec send w st"
  "turn_shut ec send w es late w' (invoked op st) = turn_shut ec send w es late w' st"
  "count (calls (invoked op st)) Shut = count (calls st) Shut + (if op = Shut then 1 else 0)"
  by (simp_all add: turn_open_def turn_shut_def invoked_def consistent_def calls_def)

lemma turn_ok_emit: "turn_ok rt ec send w (st, m) \<Longrightarrow> turn_ok rt ec send w (invoked (OnEvent e) st, m)"
  by (cases m) auto

lemma finished_Shut:
  assumes "(Shut, r) \<in> set (finished st)" and "turn_ok rt ec send w (st, Closing reply respErr)"
  obtains es late where "turn_shut ec send w es late (out_stream (after_events ec send w es)) st"
    and "sendErr (after_events ec send w es) = r" and "count (calls st) Shut = 1"
proof -
  have "\<not> turn_open ec send w st" using assms(1) by (auto simp: turn_open_def)
  with assms that show ?thesis by (fastforce simp: turn_shut_def)
qed

lemma turn_ok_step: "turn_step rt ec send c c' \<Longrightarrow> turn_ok rt ec send w c \<Longrightarrow> turn_ok rt ec send w c'"
proof (induction rule: turn_step.induct)
  case (emit st m event)
  then show ?case by (rule turn_ok_emit)
next
  case (locked st st' m)
  from turn_ok_locked [OF locked.prems locked.hyps] show ?case .
next
  case (lost_event err st reply respErr)
  then show ?case by - (rule finished_Shut, assumption+, fastforce simp: closing_result_def)
next
  case (not_encoded st reply respErr err)
  then show ?case by - (rule finished_Shut, assumption+, fastforce simp: closing_result_def)
next
  case (encoded st reply respErr payload)
  then show ?case by - (rule finished_Shut, assumption+, auto)
next
  case (sent st payload w' err reply respErr)
  then obtain es late where
    "turn_shut ec send w es late (out_stream (after_events ec send w es)) st" "sendErr (after_events ec send w es) = None"
    by auto
  then have "turn_shut ec send w es late w' (st\<lparr>guarded := (guarded st)\<lparr>out_stream := w'\<rparr>\<rparr>)"
    "closing_result rt ec send (after_events ec send w es) reply respErr =
      (w', map_option (wrap rt ''transport: send backend reply'') err)"
    using sent by (auto simp: turn_shut_def closing_result_def)
  with sent.prems show ?case by (auto simp: calls_def)
qed simp

lemma turn_ok_run: "turn_run rt ec send (turn_start w) c \<Longrightarrow> turn_ok rt ec send w c"
proof (induction rule: rtranclp_induct)
  case base
  show ?case by (simp add: idle_def calls_def turn_open_def consistent_def)
qed (rule turn_ok_step)

section \<open>The handler and the single steps\<close>

lemma respond_closing:
  assumes "Port req = PortBackend" and "decodeArgs rt (JsonPayload req) [whole pc] (zero_val pc) = Inr prompt"
    and "real s prompt = \<lparr> after_turn = s', turn_events = es, late_events = late, turn_reply = reply, turn_err = respErr \<rparr>"
  shows "respond rt pc ec real send s req w =
    (s', closing_result rt ec send (after_events ec send w es) reply respErr)"
  using assms
  by (simp add: respond_def closing_result_def Let_def on_events_stopped fresh_send_def split: option.split sum.split prod.split)

text \<open>The steps of the lock are steps of the turn.\<close>

lemma turn_run_locked: "(lock_step always (turn_body ec send))\<^sup>*\<^sup>* st st' \<Longrightarrow> turn_run rt ec send (st, m) (st', m)"
  by (induction rule: rtranclp_induct) (auto intro: turn_step.locked rtranclp.rtrancl_into_rtrancl)

text \<open>A handler that has seen the turn closed needs nobody else to return.\<close>

lemma closed_returns:
  fixes rt :: "'b runtime"
  assumes "(Shut, r) \<in> set (finished st)"
  shows "\<exists>s' res. turn_run rt ec send (st, Closing reply respErr) (st\<lparr>guarded := s'\<rparr>, Returned reply respErr res)"
proof (cases r)
  case (Some err)
  with assms have "(Shut, Some err) \<in> set (finished st)" by simp
  from turn_step.lost_event [OF this] have "turn_step rt ec send (st, Closing reply respErr)
      (st\<lparr>guarded := guarded st\<rparr>, Returned reply respErr (Some (wrap rt ''transport: backend event stream'' err)))"
    by simp
  then show ?thesis by blast
next
  case None
  with assms have shut: "(Shut, None) \<in> set (finished st)" by simp
  show ?thesis
  proof (cases "Marshal (frame_codec ec) (done_frame reply (errString rt respErr)) :: ('b, string) result")
    case (Inl err)
    from turn_step.not_encoded [OF shut this] have "turn_step rt ec send (st, Closing reply respErr)
        (st\<lparr>guarded := guarded st\<rparr>, Returned reply respErr (Some (wrap rt ''transport: encode backend reply'' err)))"
      by simp
    then show ?thesis by blast
  next
    case (Inr payload)
    obtain w err where "send_payload send (out_stream (guarded st)) payload = (w, err)" by fastforce
    from turn_step.encoded [OF shut Inr, of send] turn_step.sent [OF this, of rt ec reply respErr]
    show ?thesis by (meson converse_rtranclp_into_rtranclp r_into_rtranclp)
  qed
qed

lemma closing_returns:
  assumes "turn_ok rt ec send w (st, Closing reply respErr)"
  shows "\<exists>st' res. turn_run rt ec send (st, Closing reply respErr) (st', Returned reply respErr res)
    \<and> waiting st' = [] \<and> inside st' = [] \<and> calls st' = calls st"
proof -
  obtain st1 where st1: "(lock_step always (turn_body ec send))\<^sup>*\<^sup>* st st1" "inside st1 = []" "waiting st1 = []"
    using calls_end by blast
  have "count (calls st1) Shut = 1" using calls_kept_run [OF st1(1)] assms by simp
  then have "Shut \<in># calls st1" by (simp add: count_greater_zero_iff [symmetric] del: count_greater_zero_iff)
  with st1(2,3) obtain r where "(Shut, r) \<in> set (finished st1)" by (auto simp: calls_def)
  from closed_returns [OF this, where rt = rt and ec = ec and send = send and reply = reply and respErr = respErr]
  obtain s' res where "turn_run rt ec send (st1, Closing reply respErr) (st1\<lparr>guarded := s'\<rparr>, Returned reply respErr res)"
    by blast
  with turn_run_locked [OF st1(1)] have "turn_run rt ec send (st, Closing reply respErr) (st1\<lparr>guarded := s'\<rparr>, Returned reply respErr res)"
    by (meson rtranclp_trans)
  moreover have "calls (st1\<lparr>guarded := s'\<rparr>) = calls st" using calls_kept_run [OF st1(1)] by (simp add: calls_def)
  ultimately show ?thesis using st1 by (intro exI [of _ "st1\<lparr>guarded := s'\<rparr>"] exI [of _ res]) simp
qed

section \<open>Properties\<close>

text \<open>
  C7: whatever the goroutines of a backend do, the turn comes to a run of the handler in which
  every event is a single step: the events that got the lock before the turn was closed are the
  events of that run, in the order in which they got it, those after it are its late ones, and
  the stream and the returned error are those of the run.
\<close>

theorem interleaved_turn_is_respond:
  assumes "turn_run rt ec send (turn_start w) (st, Returned reply respErr res)"
    and "Port req = PortBackend" and "decodeArgs rt (JsonPayload req) [whole pc] (zero_val pc) = Inr prompt"
  shows "\<exists>es late. map fst (finished st) = map OnEvent es @ Shut # map OnEvent late
    \<and> respond rt pc ec
        (\<lambda>s p. \<lparr> after_turn = s', turn_events = es, late_events = late, turn_reply = reply, turn_err = respErr \<rparr>)
        send s req w = (s', out_stream (guarded st), res)"
proof -
  obtain es late w' where "turn_shut ec send w es late w' st"
    and res: "closing_result rt ec send (after_events ec send w es) reply respErr = (w', res)"
    using turn_ok_run [OF assms(1)] by auto
  then have "map fst (finished st) = map OnEvent es @ Shut # map OnEvent late" "out_stream (guarded st) = w'"
    by (simp_all add: turn_shut_def)
  moreover have "respond rt pc ec
      (\<lambda>s p. \<lparr> after_turn = s', turn_events = es, late_events = late, turn_reply = reply, turn_err = respErr \<rparr>)
      send s req w = (s', w', res)"
    unfolding res [symmetric] by (rule respond_closing [OF assms(2,3)]) (rule refl)
  ultimately show ?thesis by blast
qed

lemma sample_closing:
  "turn_run sample_runtime string_codec record_send (turn_start [])
     (invoked Shut (invoked (OnEvent ''hi'') (idle (fresh_send []))), Closing ''ok'' None)"
  by (meson converse_rtranclp_into_rtranclp rtranclp.rtrancl_refl turn_step.emit turn_step.backend_returns)

lemma sample_calls: "calls (invoked Shut (invoked (OnEvent e) (idle s))) = {#Shut, OnEvent e#}"
  by (simp add: calls_def invoked_def idle_def)

lemma sample_run:
  "\<exists>st res. turn_run sample_runtime string_codec record_send (turn_start []) (st, Returned ''ok'' None res)
    \<and> calls st = {#Shut, OnEvent ''hi''#}"
proof -
  obtain st res where run: "turn_run sample_runtime string_codec record_send
      (invoked Shut (invoked (OnEvent ''hi'') (idle (fresh_send []))), Closing ''ok'' None) (st, Returned ''ok'' None res)"
    and calls: "calls st = {#Shut, OnEvent ''hi''#}"
    using closing_returns [OF turn_ok_run [OF sample_closing]] unfolding sample_calls by blast
  from rtranclp_trans [OF sample_closing run] calls show ?thesis by blast
qed

theorem interleaved_turn_is_respond_witness:
  "\<exists>st res q. turn_run sample_runtime string_codec record_send (turn_start []) (st, Returned ''ok'' None res)
    \<and> (\<exists>es late. map fst (finished st) = map OnEvent es @ Shut # map OnEvent late
      \<and> respond sample_runtime string_codec string_codec
          (\<lambda>s p. \<lparr> after_turn = 1, turn_events = es, late_events = late, turn_reply = ''ok'', turn_err = None \<rparr>)
          record_send (0 :: nat) \<lparr> Port = ''backend'', Method = [], JsonPayload = q \<rparr> [] = (1, out_stream (guarded st), res))"
proof -
  have "valid_utf8 ''hi''" by (simp add: valid_utf8_ascii)
  then obtain q where q: "decodeArgs sample_runtime q [whole string_codec] (zero_val string_codec) = Inr ''hi''"
    using wire_args_single [OF wire_codec_string, of "''hi''" sample_runtime] by metis
  obtain st res where run: "turn_run sample_runtime string_codec record_send (turn_start []) (st, Returned ''ok'' None res)"
    using sample_run by blast
  have "\<exists>es late. map fst (finished st) = map OnEvent es @ Shut # map OnEvent late
      \<and> respond sample_runtime string_codec string_codec
          (\<lambda>s p. \<lparr> after_turn = 1, turn_events = es, late_events = late, turn_reply = ''ok'', turn_err = None \<rparr>)
          record_send (0 :: nat) \<lparr> Port = ''backend'', Method = [], JsonPayload = q \<rparr> [] = (1, out_stream (guarded st), res)"
    by (rule interleaved_turn_is_respond [OF run]) (simp_all add: q PortBackend_def)
  with run show ?thesis by blast
qed

text \<open>On a stream that takes every message, the frames of a run are the events before the end, then the reply.\<close>

lemma closing_recorded:
  fixes rt :: "'b runtime"
  assumes "wire_struct ec fit" and "list_all fit es" and "frame_fit fit (done_frame reply (errString rt respErr))"
  shows "closing_result rt ec record_send (after_events ec record_send [] es) reply respErr =
    (map (frame_envelope ec \<circ> event_frame) es @ [frame_envelope ec (done_frame reply (errString rt respErr))], None)"
proof -
  obtain p where p: "Marshal (frame_codec ec) (done_frame reply (errString rt respErr)) = (Inr p :: ('b, string) result)"
    using wire_frame [OF assms(1,3)] by blast
  then show ?thesis
    using on_events_recorded [OF assms(1,2), of "[]", where 'b = 'b]
    by (simp add: closing_result_def fresh_send_def send_payload_def record_send_def frame_envelope_sent [OF p])
qed

lemma before_Shut: "takeWhile (\<lambda>op. op \<noteq> Shut) (map OnEvent es @ Shut # ops) = map OnEvent es"
  by (induction es) simp_all

lemma shut_finished: "turn_shut ec send w es late w' st \<Longrightarrow> map fst (finished st) = map OnEvent es @ Shut # map OnEvent late"
  by (simp add: turn_shut_def comp_def)

lemma turn_finished_grows: "turn_run rt ec send (st, m) (st', m') \<Longrightarrow> prefix (finished st) (finished st')"
proof (induction rule: rtranclp_induct2)
  case (step st1 m1 st2 m2)
  from step.hyps(2) have "prefix (finished st1) (finished st2)"
    by (cases rule: turn_step.cases) (auto simp: invoked_def elim!: lock_stepE)
  with step.IH show ?case by (rule prefix_order.trans)
qed simp

text \<open>An event that is emitted after another call of the hook has returned comes after it.\<close>

lemma events_in_program_order:
  assumes "turn_run rt ec send (st1, m1) (st, m)" and "OnEvent a \<in> set (map fst (finished st1))"
    and "OnEvent b \<notin># calls st1" and "map fst (finished st) = map OnEvent es @ Shut # map OnEvent late" and "b \<in> set es"
  shows "\<exists>xs ys. es = xs @ ys \<and> a \<in> set xs \<and> b \<notin> set xs"
proof -
  obtain rest where "finished st = finished st1 @ rest"
    using turn_finished_grows [OF assms(1)] by (auto simp: prefix_def)
  then have "map fst (finished st1) @ map fst rest = map OnEvent es @ Shut # map OnEvent late" using assms(4) by simp
  then obtain us where "map fst (finished st1) @ us = map OnEvent es \<or> map fst (finished st1) = map OnEvent es @ us"
    unfolding append_eq_append_conv2 by blast
  moreover have b: "OnEvent b \<notin> set (map fst (finished st1))" using assms(3) by (simp add: calls_def)
  moreover have "OnEvent b \<in> set (map OnEvent es)" using assms(5) by simp
  ultimately have "map OnEvent es = map fst (finished st1) @ us" by (metis Un_iff set_append)
  then obtain xs ys where es: "es = xs @ ys" "map fst (finished st1) = map OnEvent xs" by (auto simp: map_eq_append_conv)
  with assms(2) b have "a \<in> set xs" "b \<notin> set xs" by auto
  with es(1) show ?thesis by blast
qed

text \<open>
  C8: a turn reaches the host whole, whatever the goroutines on the backend's side do: on a stream
  that takes every message and delivers them in order, the proxy's receive loop returns, its hook
  has been called for exactly the events that got the send lock before the handler closed the
  turn, each once and in the order of the lock, no event comes after the reply, the reply is the
  backend's, and the error is the text of the backend's error, if it has one. The order keeps that
  of every goroutine: an event emitted after the hook has returned for another one comes after it.
\<close>

theorem concurrent_turn_reaches_host:
  assumes "wire_struct ec fit"
    and "turn_run rt ec record_send (turn_start []) (st, Returned reply respErr res)"
    and "map fst (finished st) = map OnEvent es @ Shut # map OnEvent late"
    and "list_all fit es" and "valid_utf8 reply" and "valid_utf8 (errString rt respErr)"
    and "delivers recv (out_stream (guarded st)) (status_error rt res) w"
  shows "res = None \<and> (\<exists>w'. receive_loop rt ec recv onEvent w h =
    Some (w', foldl (hook onEvent) h es, reply,
      if errString rt respErr = [] then None else Some (RemoteError (errString rt respErr))))
    \<and> (\<forall>st1 m1 a b. turn_run rt ec record_send (st1, m1) (st, Returned reply respErr res) \<longrightarrow>
         OnEvent a \<in> set (map fst (finished st1)) \<longrightarrow> OnEvent b \<notin># calls st1 \<longrightarrow> b \<in> set es \<longrightarrow>
         (\<exists>xs ys. es = xs @ ys \<and> a \<in> set xs \<and> b \<notin> set xs))"
proof -
  obtain es' late' w' where shut: "turn_shut ec record_send [] es' late' w' st"
    and res: "closing_result rt ec record_send (after_events ec record_send [] es') reply respErr = (w', res)"
    using turn_ok_run [OF assms(2)] by auto
  then have "map OnEvent es' @ Shut # map OnEvent late' = map OnEvent es @ Shut # map OnEvent late"
    using assms(3) shut_finished by metis
  from arg_cong [OF this, of "takeWhile (\<lambda>op. op \<noteq> Shut)"] have "es' = es"
    unfolding before_Shut by (auto dest: map_injective simp: inj_def)
  have fits: "frame_fit fit (done_frame reply (errString rt respErr))"
    using assms(5,6) by (simp add: frame_fit_def done_frame_def)
  from res \<open>es' = es\<close> closing_recorded [OF assms(1,4) fits]
  have "w' = map (frame_envelope ec \<circ> event_frame) es @ [frame_envelope ec (done_frame reply (errString rt respErr))]"
    "res = None" by simp_all
  with shut assms(7)
  have d: "delivers recv (map (frame_envelope ec \<circ> event_frame) es
      @ [frame_envelope ec (done_frame reply (errString rt respErr))]) (Sentinel IoEOF) w"
    by (simp add: turn_shut_def status_error_def)
  obtain w1 where w1: "delivers recv [frame_envelope ec (done_frame reply (errString rt respErr))] (Sentinel IoEOF) w1"
    "receive_loop rt ec recv onEvent w h = receive_loop rt ec recv onEvent w1 (foldl (hook onEvent) h es)"
    using receive_events [OF assms(1,4) d, of rt onEvent h] by blast
  from receive_done [OF assms(1) fits w1(1), of rt onEvent "foldl (hook onEvent) h es"] \<open>res = None\<close>
    events_in_program_order [OF _ _ _ assms(3), of rt ec record_send]
  show ?thesis unfolding w1(2) by blast
qed

theorem concurrent_turn_reaches_host_witness:
  "\<exists>st res es late w'. turn_run sample_runtime string_codec record_send (turn_start []) (st, Returned ''ok'' None res)
    \<and> map fst (finished st) = map OnEvent es @ Shut # map OnEvent late \<and> set es \<subseteq> {''hi''}
    \<and> receive_loop sample_runtime string_codec queue_recv (Some (\<lambda>seen e. seen @ [e])) (out_stream (guarded st), Sentinel IoEOF) []
      = Some (w', es, ''ok'', None)"
proof -
  obtain st res where run: "turn_run sample_runtime string_codec record_send (turn_start []) (st, Returned ''ok'' None res)"
    and calls: "calls st = {#Shut, OnEvent ''hi''#}"
    using sample_run by blast
  from turn_ok_run [OF run] obtain es late where fin: "map fst (finished st) = map OnEvent es @ Shut # map OnEvent late"
    by (auto dest: shut_finished)
  then have "set (map OnEvent es) \<subseteq> set_mset (calls st)" by (auto simp: calls_def simp flip: set_map)
  then have es: "set es \<subseteq> {''hi''}" unfolding calls by auto
  have fold: "foldl (hook (Some (\<lambda>seen e. seen @ [e]))) seen xs = seen @ xs" for seen xs :: "string list"
    by (induction xs arbitrary: seen) (simp_all add: hook_def)
  have texts: "list_all valid_utf8 es" "valid_utf8 ''ok''" "valid_utf8 (errString sample_runtime None)"
    using es by (auto simp: list_all_iff valid_utf8_ascii errString_def)
  from concurrent_turn_reaches_host [OF wire_struct_string run fin texts queue_delivers, of "Some (\<lambda>seen e. seen @ [e])" "[]"]
  obtain w' where "res = None" "receive_loop sample_runtime string_codec queue_recv (Some (\<lambda>seen e. seen @ [e]))
      (out_stream (guarded st), status_error sample_runtime res) [] = Some (w', es, ''ok'', None)"
    by (auto simp: fold errString_def)
  with run fin es show ?thesis
    by (intro exI [of _ st] exI [of _ res] exI [of _ es] exI [of _ late] exI [of _ w']) (simp add: status_error_def)
qed

text \<open>
  C9: gRPC forbids two goroutines to send on a stream at once, and here they never do: at most one
  is inside a section of the send lock, and while the handler sends the last frame, which it does
  without the lock, no call of the event hook is at its own send.
\<close>

theorem sends_never_overlap:
  assumes "turn_run rt ec send (turn_start w) (st, m)"
  shows "length (inside st) \<le> 1
    \<and> length (filter (\<lambda>(op, b). at_stmt ''stream.SendMsg'' b) (inside st)) + (if is_Replying m then 1 else 0) \<le> 1"
proof -
  have one: "length (inside st) \<le> 1" if "turn_open ec send w st \<or> turn_shut ec send w es late w' st" for es late w'
    using that by (cases "inside st") (auto simp: turn_open_def turn_shut_def consistent_def)
  have quiet: "filter (\<lambda>(op, b). at_stmt ''stream.SendMsg'' b) (inside st) = []" if "turn_shut ec send w es late w' st" for es late w'
    using that by (auto simp: turn_shut_def onEvent_body_def)
  from turn_ok_run [OF assms] one quiet show ?thesis
    by (cases m) (auto intro: order_trans [OF length_filter_le])
qed

theorem sends_never_overlap_witness:
  "\<exists>st res. turn_run sample_runtime string_codec record_send (turn_start []) (st, Returned ''ok'' None res)
    \<and> length (inside st) \<le> 1"
  using sample_run sends_never_overlap by meson



end
