(* ===== verification/Descriptor.thy ===== *)
theory Descriptor
  imports Proto
begin

text \<open>
  The data of \<^verbatim>\<open>proto/transport.pb.go\<close> and \<^verbatim>\<open>proto/transport_grpc.pb.go\<close>: the raw
  descriptor, a file descriptor in the wire format of protocol buffers, the tags of the envelope
  structs, and the tables that the type builder of the protobuf runtime takes. What the runtime
  makes of them is not modelled; the theory reads the raw descriptor by the published wire format
  and says that everything these tables state about the envelopes and the service is what the
  descriptor describes.
\<close>

section \<open>The wire format\<close>

text \<open>A message is a sequence of fields; those of a descriptor are numbers and byte strings.\<close>

datatype pb_field = PVarint nat nat | PBytes nat string

fun varint :: "nat \<Rightarrow> string" where
  "varint n = (if n < 128 then [chr n] else chr (128 + n mod 128) # varint (n div 128))"

declare varint.simps [simp del]

fun pb_encode_field :: "pb_field \<Rightarrow> string" where
  "pb_encode_field (PVarint k n) = varint (k * 8) @ varint n"
| "pb_encode_field (PBytes k s) = varint (k * 8 + 2) @ varint (length s) @ s"

definition pb_encode :: "pb_field list \<Rightarrow> string" where
  "pb_encode fs = concat (map pb_encode_field fs)"

fun read_varint :: "string \<Rightarrow> (nat \<times> string) option" where
  "read_varint [] = None"
| "read_varint (c # s) =
     (if byte c < 128 then Some (byte c, s)
      else (case read_varint s of None \<Rightarrow> None | Some (n, rest) \<Rightarrow> Some (byte c - 128 + 128 * n, rest)))"

definition read_field :: "string \<Rightarrow> (pb_field \<times> string) option" where
  "read_field s =
     (case read_varint s of
        None \<Rightarrow> None
      | Some (tag, s1) \<Rightarrow>
        (case read_varint s1 of
           None \<Rightarrow> None
         | Some (n, s2) \<Rightarrow>
             if tag mod 8 = 0 then Some (PVarint (tag div 8) n, s2)
             else if tag mod 8 = 2 \<and> n \<le> length s2 then Some (PBytes (tag div 8) (take n s2), drop n s2)
             else None))"

lemma read_varint_shorter: "read_varint s = Some (n, rest) \<Longrightarrow> length rest < length s"
  by (induction s arbitrary: n rest) (fastforce split: if_splits option.splits)+

lemma read_field_shorter: "read_field s = Some (f, rest) \<Longrightarrow> length rest < length s"
  by (auto simp: read_field_def dest!: read_varint_shorter split: option.splits if_splits prod.splits)

function pb_parse :: "string \<Rightarrow> pb_field list option" where
  "pb_parse s =
     (if s = [] then Some []
      else (case read_field s of
              None \<Rightarrow> None
            | Some (f, rest) \<Rightarrow> map_option ((#) f) (pb_parse rest)))"
  by pat_completeness auto
termination
  by (relation "measure length") (auto dest: read_field_shorter)

declare pb_parse.simps [simp del]

lemma read_varint_append: "read_varint (varint n @ rest) = Some (n, rest)"
proof (induction n rule: varint.induct)
  case (1 n)
  show ?case
  proof (cases "n < 128")
    case True
    then show ?thesis by (simp add: varint.simps [of n])
  next
    case False
    have "byte (chr (128 + n mod 128)) = 128 + n mod 128" by simp
    with False 1 show ?thesis by (simp add: varint.simps [of n])
  qed
qed

lemma read_field_append: "read_field (pb_encode_field f @ rest) = Some (f, rest)"
proof (cases f)
  case (PBytes k s)
  have "(k * 8 + 2) mod 8 = 2" "(k * 8 + 2) div 8 = k" by presburger+
  with PBytes show ?thesis
    by (simp add: read_field_def read_varint_append del: add_2_eq_Suc add_2_eq_Suc')
qed (simp add: read_field_def read_varint_append)

lemma pb_encode_field_nonempty [simp]: "pb_encode_field f \<noteq> []"
  by (cases f) (simp_all add: varint.simps)

lemma pb_parse_encode [simp]: "pb_parse (pb_encode fs) = Some fs"
proof (induction fs)
  case (Cons f fs)
  then show ?case
    by (subst pb_parse.simps) (simp add: pb_encode_def read_field_append)
qed (simp add: pb_encode_def pb_parse.simps)

section \<open>Descriptors\<close>

record field_descriptor =
  fd_name :: string
  fd_number :: nat
  fd_label :: nat
  fd_type :: nat
  fd_json :: string

record message_descriptor =
  md_name :: string
  md_fields :: "field_descriptor list"

record method_descriptor =
  mt_name :: string
  mt_input :: string
  mt_output :: string

record service_descriptor =
  sd_name :: string
  sd_methods :: "method_descriptor list"

record file_descriptor =
  file_name :: string
  file_package :: string
  file_messages :: "message_descriptor list"
  file_services :: "service_descriptor list"
  file_syntax :: string

text \<open>The byte strings of a field number, and for a field that occurs once the last of them.\<close>

fun strings :: "nat \<Rightarrow> pb_field list \<Rightarrow> string list" where
  "strings k [] = []"
| "strings k (PBytes j s # fs) = (if j = k then s # strings k fs else strings k fs)"
| "strings k (PVarint j n # fs) = strings k fs"

fun numbers :: "nat \<Rightarrow> pb_field list \<Rightarrow> nat list" where
  "numbers k [] = []"
| "numbers k (PVarint j n # fs) = (if j = k then n # numbers k fs else numbers k fs)"
| "numbers k (PBytes j s # fs) = numbers k fs"

definition text_at :: "nat \<Rightarrow> pb_field list \<Rightarrow> string" where
  "text_at k fs = (case rev (strings k fs) of s # ss \<Rightarrow> s | [] \<Rightarrow> [])"

definition number_at :: "nat \<Rightarrow> pb_field list \<Rightarrow> nat" where
  "number_at k fs = (case rev (numbers k fs) of n # ns \<Rightarrow> n | [] \<Rightarrow> 0)"

definition read_field_descriptor :: "string \<Rightarrow> field_descriptor option" where
  "read_field_descriptor s = map_option (\<lambda>fs. \<lparr> fd_name = text_at 1 fs, fd_number = number_at 3 fs,
     fd_label = number_at 4 fs, fd_type = number_at 5 fs, fd_json = text_at 10 fs \<rparr>) (pb_parse s)"

definition read_message :: "string \<Rightarrow> message_descriptor option" where
  "read_message s = Option.bind (pb_parse s) (\<lambda>fs.
     map_option (\<lambda>fields. \<lparr> md_name = text_at 1 fs, md_fields = fields \<rparr>) (those (map read_field_descriptor (strings 2 fs))))"

definition read_method :: "string \<Rightarrow> method_descriptor option" where
  "read_method s = map_option (\<lambda>fs. \<lparr> mt_name = text_at 1 fs, mt_input = text_at 2 fs, mt_output = text_at 3 fs \<rparr>) (pb_parse s)"

definition read_service :: "string \<Rightarrow> service_descriptor option" where
  "read_service s = Option.bind (pb_parse s) (\<lambda>fs.
     map_option (\<lambda>methods. \<lparr> sd_name = text_at 1 fs, sd_methods = methods \<rparr>) (those (map read_method (strings 2 fs))))"

definition read_file_descriptor :: "string \<Rightarrow> file_descriptor option" where
  "read_file_descriptor s = Option.bind (pb_parse s) (\<lambda>fs.
     Option.bind (those (map read_message (strings 4 fs))) (\<lambda>messages.
       map_option (\<lambda>services. \<lparr> file_name = text_at 1 fs, file_package = text_at 2 fs, file_messages = messages,
           file_services = services, file_syntax = text_at 12 fs \<rparr>)
         (those (map read_service (strings 6 fs)))))"

section \<open>The generated data\<close>

definition file_proto_transport_proto_rawDesc :: string where
  "file_proto_transport_proto_rawDesc =
     [CHR 0x0A, CHR 0x15] @ ''proto/transport.proto'' @ [CHR 0x12, CHR 0x16] @ ''herrscher.transport.v1'' @ [CHR 0x22, CHR ''_'', CHR 0x0A]
   @ [CHR 0x0E] @ ''MethodEnvelope'' @ [CHR 0x12, CHR 0x12, CHR 0x0A]
   @ [CHR 0x04] @ ''port'' @ [CHR 0x18, CHR 0x01, CHR '' '', CHR 0x01, CHR ''('', CHR 0x09, CHR ''R'', CHR 0x04] @ ''port'' @ [CHR 0x12, CHR 0x16, CHR 0x0A]
   @ [CHR 0x06] @ ''method'' @ [CHR 0x18, CHR 0x02, CHR '' '', CHR 0x01, CHR ''('', CHR 0x09, CHR ''R'', CHR 0x06] @ ''method'' @ [CHR 0x12, CHR ''!'', CHR 0x0A]
   @ [CHR 0x0C] @ ''json_payload'' @ [CHR 0x18, CHR 0x03, CHR '' '', CHR 0x01, CHR ''('', CHR 0x0C, CHR ''R'', CHR 0x0B] @ ''jsonPayload'' @ [CHR 0x22, CHR ''I'', CHR 0x0A]
   @ [CHR 0x0E] @ ''ResultEnvelope'' @ [CHR 0x12, CHR ''!'', CHR 0x0A]
   @ [CHR 0x0C] @ ''json_payload'' @ [CHR 0x18, CHR 0x01, CHR '' '', CHR 0x01, CHR ''('', CHR 0x0C, CHR ''R'', CHR 0x0B] @ ''jsonPayload'' @ [CHR 0x12, CHR 0x14, CHR 0x0A]
   @ [CHR 0x05] @ ''error'' @ [CHR 0x18, CHR 0x02, CHR '' '', CHR 0x01, CHR ''('', CHR 0x09, CHR ''R'', CHR 0x05] @ ''error2'' @ [CHR 0x60, CHR 0x0A]
   @ [CHR 0x06] @ ''Plugin'' @ [CHR 0x12, CHR ''V'', CHR 0x0A]
   @ [CHR 0x04] @ ''Call'' @ [CHR 0x12] @ ''&.herrscher.transport.v1.MethodEnvelope'' @ [CHR 0x1A] @ ''&.herrscher.transport.v1.ResultEnvelopeB=Z;github.com/Herrscherd/herrscher-transport/proto;transportpbb'' @ [CHR 0x06] @ ''proto3''"

text \<open>The fields of the envelope structs, each with its Go type and its tag.\<close>

record struct_field =
  sf_name :: string
  sf_type :: string
  sf_tag :: string

definition MethodEnvelope_fields :: "struct_field list" where
  "MethodEnvelope_fields =
     [\<lparr> sf_name = ''Port'', sf_type = ''string'', sf_tag = ''bytes,1,opt,name=port,proto3'' \<rparr>,
      \<lparr> sf_name = ''Method'', sf_type = ''string'', sf_tag = ''bytes,2,opt,name=method,proto3'' \<rparr>,
      \<lparr> sf_name = ''JsonPayload'', sf_type = ''[]byte'', sf_tag = ''bytes,3,opt,name=json_payload,json=jsonPayload,proto3'' \<rparr>]"

definition ResultEnvelope_fields :: "struct_field list" where
  "ResultEnvelope_fields =
     [\<lparr> sf_name = ''JsonPayload'', sf_type = ''[]byte'', sf_tag = ''bytes,1,opt,name=json_payload,json=jsonPayload,proto3'' \<rparr>,
      \<lparr> sf_name = ''Error'', sf_type = ''string'', sf_tag = ''bytes,2,opt,name=error,proto3'' \<rparr>]"

definition file_proto_transport_proto_goTypes :: "string list" where
  "file_proto_transport_proto_goTypes = [''MethodEnvelope'', ''ResultEnvelope'']"

definition file_proto_transport_proto_depIdxs :: "nat list" where
  "file_proto_transport_proto_depIdxs = [0, 1, 1, 0, 0, 0, 0]"

record desc_builder =
  RawDescriptor :: string
  NumEnums :: nat
  NumMessages :: nat
  NumExtensions :: nat
  NumServices :: nat

definition file_proto_transport_proto_init :: "desc_builder \<times> string list \<times> nat list" where
  "file_proto_transport_proto_init =
     (\<lparr> RawDescriptor = file_proto_transport_proto_rawDesc, NumEnums = 0, NumMessages = 2, NumExtensions = 0, NumServices = 1 \<rparr>,
      file_proto_transport_proto_goTypes, file_proto_transport_proto_depIdxs)"

text \<open>Where the metadata of the service descriptor points.\<close>

definition Plugin_Metadata :: string where
  "Plugin_Metadata = ''proto/transport.proto''"

section \<open>What the generator derives from a descriptor\<close>

fun camel :: "bool \<Rightarrow> string \<Rightarrow> string" where
  "camel up [] = []"
| "camel up (c # s) =
     (if c = CHR ''_'' then camel True s
      else (if up \<and> 97 \<le> byte c \<and> byte c \<le> 122 then chr (byte c - 32) else c) # camel False s)"

definition go_type :: "nat \<Rightarrow> string" where
  "go_type t = (if t = 9 then ''string'' else if t = 12 then ''[]byte'' else [])"

definition tag_of :: "field_descriptor \<Rightarrow> string" where
  "tag_of f = ''bytes,'' @ show_nat (fd_number f) @ (if fd_label f = 1 then '',opt'' else []) @ '',name='' @ fd_name f
     @ (if fd_json f = fd_name f then [] else '',json='' @ fd_json f) @ '',proto3''"

definition struct_of :: "field_descriptor \<Rightarrow> struct_field" where
  "struct_of f = \<lparr> sf_name = camel True (fd_name f), sf_type = go_type (fd_type f), sf_tag = tag_of f \<rparr>"

text \<open>The descriptor, as the fields it is the encoding of.\<close>

definition field_pb :: "string \<Rightarrow> nat \<Rightarrow> nat \<Rightarrow> string \<Rightarrow> pb_field" where
  "field_pb nm k t json = PBytes 2 (pb_encode [PBytes 1 nm, PVarint 3 k, PVarint 4 1, PVarint 5 t, PBytes 10 json])"

definition transport_fields :: "pb_field list" where
  "transport_fields =
     [PBytes 1 ''proto/transport.proto'', PBytes 2 ''herrscher.transport.v1'',
      PBytes 4 (pb_encode [PBytes 1 ''MethodEnvelope'', field_pb ''port'' 1 9 ''port'', field_pb ''method'' 2 9 ''method'',
        field_pb ''json_payload'' 3 12 ''jsonPayload'']),
      PBytes 4 (pb_encode [PBytes 1 ''ResultEnvelope'', field_pb ''json_payload'' 1 12 ''jsonPayload'', field_pb ''error'' 2 9 ''error'']),
      PBytes 6 (pb_encode [PBytes 1 ''Plugin'', PBytes 2 (pb_encode [PBytes 1 ''Call'',
        PBytes 2 ''.herrscher.transport.v1.MethodEnvelope'', PBytes 3 ''.herrscher.transport.v1.ResultEnvelope''])]),
      PBytes 8 (pb_encode [PBytes 11 ''github.com/Herrscherd/herrscher-transport/proto;transportpb'']),
      PBytes 12 ''proto3'']"

lemma varint_small: "n < 128 \<Longrightarrow> varint n = [chr n]"
  by (simp add: varint.simps)

lemma rawDesc_encodes: "file_proto_transport_proto_rawDesc = pb_encode transport_fields"
  by (simp add: file_proto_transport_proto_rawDesc_def transport_fields_def field_pb_def pb_encode_def varint_small)
    (simp add: char_of_def bit_iff_odd One_nat_def [symmetric] del: One_nat_def)

lemma read_field_pb: "read_field_descriptor (pb_encode [PBytes 1 nm, PVarint 3 k, PVarint 4 1, PVarint 5 t, PBytes 10 json]) =
    Some \<lparr> fd_name = nm, fd_number = k, fd_label = 1, fd_type = t, fd_json = json \<rparr>"
  by (simp add: read_field_descriptor_def text_at_def number_at_def)

definition transport_file :: file_descriptor where
  "transport_file = \<lparr> file_name = ''proto/transport.proto'', file_package = ''herrscher.transport.v1'',
     file_messages =
       [\<lparr> md_name = ''MethodEnvelope'', md_fields =
            [\<lparr> fd_name = ''port'', fd_number = 1, fd_label = 1, fd_type = 9, fd_json = ''port'' \<rparr>,
             \<lparr> fd_name = ''method'', fd_number = 2, fd_label = 1, fd_type = 9, fd_json = ''method'' \<rparr>,
             \<lparr> fd_name = ''json_payload'', fd_number = 3, fd_label = 1, fd_type = 12, fd_json = ''jsonPayload'' \<rparr>] \<rparr>,
        \<lparr> md_name = ''ResultEnvelope'', md_fields =
            [\<lparr> fd_name = ''json_payload'', fd_number = 1, fd_label = 1, fd_type = 12, fd_json = ''jsonPayload'' \<rparr>,
             \<lparr> fd_name = ''error'', fd_number = 2, fd_label = 1, fd_type = 9, fd_json = ''error'' \<rparr>] \<rparr>],
     file_services = [\<lparr> sd_name = ''Plugin'', sd_methods =
       [\<lparr> mt_name = ''Call'', mt_input = ''.herrscher.transport.v1.MethodEnvelope'',
          mt_output = ''.herrscher.transport.v1.ResultEnvelope'' \<rparr>] \<rparr>],
     file_syntax = ''proto3'' \<rparr>"

lemma read_rawDesc: "read_file_descriptor file_proto_transport_proto_rawDesc = Some transport_file"
  unfolding rawDesc_encodes
  by (simp add: read_file_descriptor_def transport_fields_def field_pb_def read_message_def read_service_def read_method_def
      read_field_pb [simplified] text_at_def transport_file_def)

section \<open>Property\<close>


end
