(* ===== verification/Tls.thy ===== *)
theory Tls
  imports Errors
begin

text \<open>
  \<^verbatim>\<open>tls.go\<close>: which TLS settings are accepted and what the credentials are built from.
  Reading files, X.509 and the credentials themselves belong to the operating system, the standard
  library's certificate code and gRPC: they are parameters. A \<^verbatim>\<open>tls.Config\<close> is a
  record of the fields the sources set.
\<close>

section \<open>Settings\<close>

record TLSConfig =
  CAFile :: string
  CertFile :: string
  KeyFile :: string

definition Enabled :: "TLSConfig \<Rightarrow> bool" where
  "Enabled c \<longleftrightarrow> CAFile c \<noteq> [] \<or> CertFile c \<noteq> [] \<or> KeyFile c \<noteq> []"

definition Validate :: "TLSConfig \<Rightarrow> 'b go_error option" where
  "Validate c =
     (if \<not> Enabled c then None
      else
        (let missing = (if CAFile c = [] then [EnvTLSCA] else [])
                       @ (if CertFile c = [] then [EnvTLSCert] else [])
                       @ (if KeyFile c = [] then [EnvTLSKey] else [])
         in if 0 < length missing then Some (TLSHalfConfiguredError missing) else None))"

section \<open>Credentials\<close>

record ('cert, 'pool, 'b) tls_files =
  LoadX509KeyPair :: "string \<Rightarrow> string \<Rightarrow> ('b, 'cert) result"
  ReadFile :: "string \<Rightarrow> ('b, string) result"
  AppendCertsFromPEM :: "string \<Rightarrow> 'pool option"

definition loadCertAndPool ::
  "'b runtime \<Rightarrow> ('cert, 'pool, 'b) tls_files \<Rightarrow> TLSConfig \<Rightarrow> ('b, 'cert \<times> 'pool) result" where
  "loadCertAndPool rt fs c =
     (if \<not> Enabled c then Inl (Sentinel ErrTLSNotConfigured)
      else
        (case Validate c of
           Some err \<Rightarrow> Inl err
         | None \<Rightarrow>
           (case LoadX509KeyPair fs (CertFile c) (KeyFile c) of
              Inl err \<Rightarrow> Inl (wrap rt ''transport: load keypair'' err)
            | Inr cert \<Rightarrow>
              (case ReadFile fs (CAFile c) of
                 Inl err \<Rightarrow> Inl (wrap rt ''transport: read CA'' err)
               | Inr caPEM \<Rightarrow>
                 (case AppendCertsFromPEM fs caPEM of
                    None \<Rightarrow> Inl (CAFileError (CAFile c))
                  | Some pool \<Rightarrow> Inr (cert, pool))))))"

datatype client_auth = NoClientCert | RequireAndVerifyClientCert

record ('cert, 'pool) tls_Config =
  Certificates :: "'cert list"
  ClientCAs :: "'pool option"
  RootCAs :: "'pool option"
  ClientAuth :: client_auth
  MinVersion :: nat

definition VersionTLS12 :: nat where "VersionTLS12 = 0x0303"

definition ServerCredentials ::
  "'b runtime \<Rightarrow> ('cert, 'pool, 'b) tls_files \<Rightarrow> TLSConfig \<Rightarrow> ('b, ('cert, 'pool) tls_Config) result" where
  "ServerCredentials rt fs c =
     (case loadCertAndPool rt fs c of
        Inl err \<Rightarrow> Inl err
      | Inr (cert, pool) \<Rightarrow>
          Inr \<lparr> Certificates = [cert], ClientCAs = Some pool, RootCAs = None,
                ClientAuth = RequireAndVerifyClientCert, MinVersion = VersionTLS12 \<rparr>)"

definition ClientCredentials ::
  "'b runtime \<Rightarrow> ('cert, 'pool, 'b) tls_files \<Rightarrow> TLSConfig \<Rightarrow> ('b, ('cert, 'pool) tls_Config) result" where
  "ClientCredentials rt fs c =
     (case loadCertAndPool rt fs c of
        Inl err \<Rightarrow> Inl err
      | Inr (cert, pool) \<Rightarrow>
          Inr \<lparr> Certificates = [cert], ClientCAs = None, RootCAs = Some pool,
                ClientAuth = NoClientCert, MinVersion = VersionTLS12 \<rparr>)"

section \<open>Lemmas\<close>

definition settings :: "TLSConfig \<Rightarrow> (string \<times> string) list" where
  "settings c = [(EnvTLSCA, CAFile c), (EnvTLSCert, CertFile c), (EnvTLSKey, KeyFile c)]"

lemma Validate_cases:
  "Validate c =
     (if list_ex (\<lambda>(v, f). f \<noteq> []) (settings c) \<and> list_ex (\<lambda>(v, f). f = []) (settings c)
      then Some (TLSHalfConfiguredError (map fst (filter (\<lambda>(v, f). f = []) (settings c)))) else None)"
  by (simp add: Validate_def Enabled_def settings_def)

lemma loadCertAndPool_complete:
  "loadCertAndPool rt fs c = Inr (cert, pool) \<Longrightarrow> CAFile c \<noteq> [] \<and> CertFile c \<noteq> [] \<and> KeyFile c \<noteq> []"
  by (auto simp: loadCertAndPool_def Validate_def split: if_splits)

section \<open>Properties\<close>

text \<open>
  C26: a configuration is valid exactly when all three settings are set or none is; a partial one
  is refused with the names of exactly the missing settings, in the order CA, certificate, key,
  and neither side ever gets credentials from it, whatever the files hold.
\<close>

theorem tls_fails_closed:
  "Validate c =
     (if list_ex (\<lambda>(v, f). f \<noteq> []) (settings c) \<and> list_ex (\<lambda>(v, f). f = []) (settings c)
      then Some (TLSHalfConfiguredError (map fst (filter (\<lambda>(v, f). f = []) (settings c)))) else None)
   \<and> (list_all (\<lambda>(v, f). f \<noteq> []) (settings c)
      \<or> isl (ServerCredentials rt fs c) \<and> isl (ClientCredentials rt fs c))"
proof -
  have "isl (loadCertAndPool rt fs c)" if "\<not> list_all (\<lambda>(v, f). f \<noteq> []) (settings c)"
    using that loadCertAndPool_complete [of rt fs c]
    by (cases "loadCertAndPool rt fs c") (auto simp: settings_def)
  then show ?thesis
    unfolding Validate_cases
    by (cases "list_all (\<lambda>(v, f). f \<noteq> []) (settings c)"; cases "loadCertAndPool rt fs c")
      (simp_all add: ServerCredentials_def ClientCredentials_def)
qed

text \<open>
  The credentials of both sides come from the same certificate and pool and accept no TLS
  below 1.2; the server requires and verifies a client certificate against the pool, and the
  client verifies the server against it. Both sides fail alike.
\<close>

theorem tls_is_mutual:
  "case (ServerCredentials rt fs c, ClientCredentials rt fs c) of
     (Inr srv, Inr cl) \<Rightarrow> Certificates srv = Certificates cl \<and> ClientCAs srv = RootCAs cl \<and> ClientCAs srv \<noteq> None
       \<and> ClientAuth srv = RequireAndVerifyClientCert \<and> MinVersion srv = 771 \<and> MinVersion cl = 771
       \<and> LoadX509KeyPair fs (CertFile c) (KeyFile c) = Inr (hd (Certificates srv))
   | (Inl e, Inl e') \<Rightarrow> e = e'
   | _ \<Rightarrow> False"
  by (auto simp: ServerCredentials_def ClientCredentials_def loadCertAndPool_def VersionTLS12_def
      split: sum.split option.splits if_splits prod.split)

end
