(* ===== verification/Tools.thy ===== *)
theory Tools
  imports Errors
begin

text \<open>
  Ground shared by the two development tools: error trees over a tool's own sentinels, the verb
  \<^verbatim>\<open>%q\<close>, and Go's \<^verbatim>\<open>path/filepath\<close> on Unix (\<^verbatim>\<open>Clean\<close>,
  \<^verbatim>\<open>Join\<close>, \<^verbatim>\<open>Base\<close>, \<^verbatim>\<open>Dir\<close>, \<^verbatim>\<open>Ext\<close>).
\<close>

section \<open>Errors\<close>

datatype 't tool_error = Known 't | Wrapped string "'t tool_error list" | Foreign string

fun tool_is :: "'t \<Rightarrow> 't tool_error \<Rightarrow> bool" where
  "tool_is t (Known x) = (x = t)"
| "tool_is t (Wrapped msg causes) = list_ex (tool_is t) causes"
| "tool_is t (Foreign msg) = False"

fun tool_text :: "('t \<Rightarrow> string) \<Rightarrow> 't tool_error \<Rightarrow> string" where
  "tool_text txt (Known x) = txt x"
| "tool_text txt (Wrapped msg causes) = msg"
| "tool_text txt (Foreign msg) = msg"

definition quoted :: "(nat \<Rightarrow> bool) \<Rightarrow> string \<Rightarrow> string" where
  "quoted printable_rune s = DQ # quote_runes printable_rune s @ [DQ]"

section \<open>Paths\<close>

abbreviation SLASH :: char where "SLASH \<equiv> CHR ''/''"

fun split_on :: "char \<Rightarrow> string \<Rightarrow> string list" where
  "split_on d [] = [[]]"
| "split_on d (c # s) =
     (if c = d then [] # split_on d s
      else (case split_on d s of x # xs \<Rightarrow> (c # x) # xs | [] \<Rightarrow> [[c]]))"

text \<open>The elements of a cleaned path, last first.\<close>

fun clean_elems :: "bool \<Rightarrow> string list \<Rightarrow> string list \<Rightarrow> string list" where
  "clean_elems rooted st [] = st"
| "clean_elems rooted st (x # xs) =
     (if x = [] \<or> x = ''.'' then clean_elems rooted st xs
      else if x = ''..'' then
        (case st of
           y # ys \<Rightarrow> if y = ''..'' then clean_elems rooted (x # st) xs else clean_elems rooted ys xs
         | [] \<Rightarrow> clean_elems rooted (if rooted then [] else [x]) xs)
      else clean_elems rooted (x # st) xs)"

definition rooted :: "string \<Rightarrow> bool" where
  "rooted p \<longleftrightarrow> p \<noteq> [] \<and> hd p = SLASH"

definition filepath_Clean :: "string \<Rightarrow> string" where
  "filepath_Clean p =
     (let out = (if rooted p then [SLASH] else [])
                @ join_with [SLASH] (rev (clean_elems (rooted p) [] (split_on SLASH p)))
      in if out = [] then ''.'' else out)"

definition filepath_Join :: "string list \<Rightarrow> string" where
  "filepath_Join elems =
     (case dropWhile (\<lambda>e. e = []) elems of
        [] \<Rightarrow> []
      | es \<Rightarrow> filepath_Clean (join_with [SLASH] es))"

definition filepath_Base :: "string \<Rightarrow> string" where
  "filepath_Base p =
     (if p = [] then ''.''
      else
        (let q = rev (dropWhile (\<lambda>c. c = SLASH) (rev p)); b = rev (takeWhile (\<lambda>c. c \<noteq> SLASH) (rev q))
         in if b = [] then [SLASH] else b))"

definition filepath_Dir :: "string \<Rightarrow> string" where
  "filepath_Dir p = filepath_Clean (rev (dropWhile (\<lambda>c. c \<noteq> SLASH) (rev p)))"

text \<open>The suffix that begins at the final dot of the final element.\<close>

definition filepath_Ext :: "string \<Rightarrow> string" where
  "filepath_Ext p =
     (let e = takeWhile (\<lambda>c. c \<noteq> SLASH) (rev p) in
      if CHR ''.'' \<in> set e then rev (takeWhile (\<lambda>c. c \<noteq> CHR ''.'') e @ ''.'') else [])"

section \<open>Going up a path ends\<close>

text \<open>
  A path with a trailing slash gets shorter when it is cleaned, so taking the directory of a path
  again and again arrives at a path that is its own directory.
\<close>

definition weight :: "string list \<Rightarrow> nat" where
  "weight xs = sum_list (map (\<lambda>x. Suc (length x)) xs)"

definition empties :: "string list \<Rightarrow> nat" where
  "empties xs = length (filter (\<lambda>x. x = []) xs)"

lemma weight_simps [simp]:
  "weight [] = 0" "weight (x # xs) = Suc (length x) + weight xs" "weight (xs @ ys) = weight xs + weight ys"
  "weight (rev xs) = weight xs"
  by (simp_all add: weight_def flip: rev_map)

lemma empties_simps [simp]:
  "empties [] = 0" "empties ([] # xs) = Suc (empties xs)" "x \<noteq> [] \<Longrightarrow> empties (x # xs) = empties xs"
  "empties (xs @ ys) = empties xs + empties ys"
  by (simp_all add: empties_def)

lemma split_on_not_Nil [simp]: "split_on d s \<noteq> []"
  by (induction s) (auto split: list.split)

lemma weight_split_on: "weight (split_on d s) = Suc (length s)"
  by (induction s) (auto split: list.split)

lemma split_on_snoc: "split_on d (s @ [d]) = split_on d s @ [[]]"
  by (induction s) (auto split: list.split)

lemma weight_clean_elems: "weight (clean_elems r st xs) + empties xs \<le> weight st + weight xs"
proof (induction r st xs rule: clean_elems.induct)
  case (2 r st x xs)
  then show ?case by (cases "x = []") (fastforce split: list.splits if_splits)+
qed simp

lemma weight_join: "xs \<noteq> [] \<Longrightarrow> Suc (length (join_with [c] xs)) = weight xs"
  by (induction "[c]" xs rule: join_with.induct) auto

lemma empties_rooted: "rooted p \<Longrightarrow> 0 < empties (split_on SLASH p)"
  by (cases p) (auto simp: rooted_def)

lemma length_Clean_slash:
  assumes "p \<noteq> []"
  shows "length (filepath_Clean (p @ [SLASH])) \<le> length p"
proof -
  let ?st = "clean_elems (rooted p) [] (split_on SLASH p @ [[]])"
  have r: "rooted (p @ [SLASH]) = rooted p" using assms by (simp add: rooted_def)
  have "weight ?st + empties (split_on SLASH p) \<le> Suc (length p)"
    using weight_clean_elems [of "rooted p" "[]" "split_on SLASH p @ [[]]"] by (simp add: weight_split_on)
  moreover have "1 \<le> length p" using assms by (cases p) auto
  moreover have "Suc (length (join_with [SLASH] (rev ?st))) = weight ?st" if "?st \<noteq> []"
    using weight_join [of "rev ?st" SLASH] that by simp
  ultimately show ?thesis
    using empties_rooted [of p] by (cases "?st = []") (auto simp: filepath_Clean_def Let_def r split_on_snoc)
qed

definition height :: "string \<Rightarrow> nat" where
  "height p = (if p = ''.'' then 0 else Suc (length p))"

lemma Dir_last_slash:
  assumes "p = q @ SLASH # rest" and "SLASH \<notin> set rest"
  shows "filepath_Dir p = filepath_Clean (q @ [SLASH])"
proof -
  have "dropWhile (\<lambda>c. c \<noteq> SLASH) (rev rest @ (SLASH # rev q)) = dropWhile (\<lambda>c. c \<noteq> SLASH) (SLASH # rev q)"
    using assms(2) by (intro dropWhile_append2) auto
  then show ?thesis by (simp add: filepath_Dir_def assms(1))
qed

lemma Dir_no_slash: "SLASH \<notin> set p \<Longrightarrow> filepath_Dir p = ''.''"
proof -
  assume "SLASH \<notin> set p"
  then have "dropWhile (\<lambda>c. c \<noteq> SLASH) (rev p) = []" by (auto simp: dropWhile_eq_Nil_conv)
  then have "filepath_Dir p = filepath_Clean []" by (simp only: filepath_Dir_def rev.simps(1))
  then show ?thesis by (simp add: filepath_Clean_def rooted_def)
qed

lemma height_Dir:
  assumes "filepath_Dir p \<noteq> p"
  shows "height (filepath_Dir p) < height p"
proof (cases "SLASH \<in> set p")
  case False
  with assms show ?thesis by (simp add: Dir_no_slash height_def split: if_splits)
next
  case True
  then obtain q rest where p: "p = q @ SLASH # rest" and "SLASH \<notin> set rest"
    by (metis split_list_last)
  then have d: "filepath_Dir p = filepath_Clean (q @ [SLASH])" by (rule Dir_last_slash)
  have "p \<noteq> ''.''" using True by auto
  show ?thesis
  proof (cases "q = []")
    case True
    then have "filepath_Dir p = [SLASH]" using d by (simp add: filepath_Clean_def rooted_def)
    with assms p True show ?thesis by (cases rest) (simp_all add: height_def)
  next
    case False
    then have "length (filepath_Dir p) \<le> length q" using length_Clean_slash d by simp
    with p \<open>p \<noteq> ''.''\<close> show ?thesis by (simp add: height_def)
  qed
qed

end
