(* ===== verification/Paths.thy ===== *)
theory Paths
  imports Tools
begin

text \<open>
  The paths of \<^verbatim>\<open>path/filepath\<close> by their elements: what \<^const>\<open>filepath_Clean\<close> keeps,
  that it is idempotent, and where \<^const>\<open>filepath_Join\<close> and \<^const>\<open>filepath_Dir\<close> lead. The tools
  use it to say which directory a file ends up in.
\<close>

section \<open>Elements\<close>

definition elements :: "string \<Rightarrow> string list" where
  "elements p = rev (clean_elems (rooted p) [] (split_on SLASH p))"

definition path_of :: "bool \<Rightarrow> string list \<Rightarrow> string" where
  "path_of r xs = (if r then [SLASH] else []) @ join_with [SLASH] xs"

lemma Clean_path_of: "filepath_Clean p = (let q = path_of (rooted p) (elements p) in if q = [] then ''.'' else q)"
  by (simp add: filepath_Clean_def path_of_def elements_def Let_def)

text \<open>A stack of elements as the cleaning leaves it: parents are at the bottom, and only of a relative path.\<close>

fun clean_stack :: "bool \<Rightarrow> string list \<Rightarrow> bool" where
  "clean_stack r [] = True"
| "clean_stack r (x # st) = (x \<noteq> [] \<and> x \<noteq> ''.'' \<and> SLASH \<notin> set x \<and> clean_stack r st
     \<and> (x = ''..'' \<longrightarrow> \<not> r \<and> set st \<subseteq> {''..''}))"

lemma split_on_no: "x \<in> set (split_on d s) \<Longrightarrow> d \<notin> set x"
  by (induction s arbitrary: x) (auto split: list.splits if_splits)

lemma clean_elems_stack:
  "list_all (\<lambda>x. SLASH \<notin> set x) xs \<Longrightarrow> clean_stack r st \<Longrightarrow> clean_stack r (clean_elems r st xs)"
proof (induction r st xs rule: clean_elems.induct)
  case (2 r st x xs)
  then show ?case by (cases st) auto
qed simp

lemma clean_elements: "clean_stack (rooted p) (rev (elements p))"
  unfolding elements_def rev_rev_ident
  by (rule clean_elems_stack) (auto simp: list_all_iff dest: split_on_no)

lemma split_on_append: "split_on d (s @ d # t) = split_on d s @ split_on d t"
  by (induction s) (auto split: list.split)

lemma split_on_plain: "d \<notin> set s \<Longrightarrow> split_on d s = [s]"
  by (induction s) auto

lemma split_on_join: "xs \<noteq> [] \<Longrightarrow> list_all (\<lambda>x. d \<notin> set x) xs \<Longrightarrow> split_on d (join_with [d] xs) = xs"
  by (induction "[d]" xs rule: join_with.induct) (simp_all add: split_on_append split_on_plain)

lemma clean_stack_plain: "clean_stack r (rev xs) \<Longrightarrow> list_all (\<lambda>x. x \<noteq> [] \<and> SLASH \<notin> set x) xs"
proof -
  have "clean_stack r st \<Longrightarrow> list_all (\<lambda>x. x \<noteq> [] \<and> SLASH \<notin> set x) st" for st by (induction st) simp_all
  from this [of "rev xs"] show "clean_stack r (rev xs) \<Longrightarrow> ?thesis" by (simp add: list_all_iff)
qed

lemma plain_relative: "list_all (\<lambda>x. x \<noteq> [] \<and> SLASH \<notin> set x) xs \<Longrightarrow> \<not> rooted (join_with [SLASH] xs)"
  by (cases xs; cases "tl xs") (auto simp: rooted_def hd_append dest: hd_in_set)

text \<open>Cleaning what is clean changes nothing.\<close>

lemma clean_elems_again: "clean_stack r (rev xs @ st) \<Longrightarrow> clean_elems r st xs = rev xs @ st"
proof (induction xs arbitrary: st)
  case (Cons x xs)
  have tail: "clean_stack r (ys @ zs) \<Longrightarrow> clean_stack r zs" for ys zs by (induction ys) simp_all
  have "clean_stack r (x # st)" using tail [of "rev xs" "x # st"] Cons.prems by simp
  with Cons show ?case by (cases st) auto
qed simp

lemma elements_path_of:
  assumes "clean_stack r (rev xs)"
  shows "elements (path_of r xs) = xs"
proof -
  note again = clean_elems_again [of r xs "[]"]
  have "split_on SLASH (join_with [SLASH] xs) = xs" if "xs \<noteq> []"
    using split_on_join [OF that, of SLASH] clean_stack_plain [OF assms] by (simp add: list_all_iff)
  moreover have "\<not> rooted (join_with [SLASH] xs)" using clean_stack_plain [OF assms] by (rule plain_relative)
  moreover from this have "rooted (path_of r xs) = r" by (auto simp: path_of_def) (simp add: rooted_def)
  ultimately show ?thesis
    using assms again by (cases r; cases "xs = []") (simp_all add: elements_def, simp_all add: path_of_def)
qed

lemma rooted_Clean: "rooted (filepath_Clean p) = rooted p"
  using plain_relative [OF clean_stack_plain [OF clean_elements [of p]]]
  by (auto simp: Clean_path_of Let_def path_of_def) (simp_all add: rooted_def)

lemma elements_Clean: "elements (filepath_Clean p) = elements p"
proof (cases "path_of (rooted p) (elements p) = []")
  case True
  moreover from this have "elements p = []"
    using elements_path_of [OF clean_elements [of p]] by (simp add: elements_def rooted_def)
  ultimately show ?thesis by (simp add: Clean_path_of) (simp add: elements_def rooted_def)
next
  case False
  with elements_path_of [OF clean_elements [of p]] show ?thesis by (simp add: Clean_path_of)
qed

lemma Clean_Clean: "filepath_Clean (filepath_Clean p) = filepath_Clean p"
  by (subst (1 3) Clean_path_of) (simp add: rooted_Clean elements_Clean)

section \<open>Joining\<close>

text \<open>The elements a name adds to the directory it is joined to, when it does not climb above it.\<close>

definition local_elems :: "string \<Rightarrow> string list" where
  "local_elems name = rev (clean_elems False [] (split_on SLASH name))"

definition local_name :: "string \<Rightarrow> bool" where
  "local_name name \<longleftrightarrow> local_elems name \<noteq> [] \<and> ''..'' \<notin> set (local_elems name)"

lemma clean_elems_append: "clean_elems r st (xs @ ys) = clean_elems r (clean_elems r st xs) ys"
  by (induction r st xs rule: clean_elems.induct) (auto split: list.split)

lemma parents_stay: "''..'' \<in> set st \<Longrightarrow> ''..'' \<in> set (clean_elems False st xs)"
  by (induction "False" st xs rule: clean_elems.induct) (auto split: list.split)

lemma clean_elems_local:
  "''..'' \<notin> set (clean_elems False u xs) \<Longrightarrow> clean_elems r (u @ st) xs = clean_elems False u xs @ st"
proof (induction xs arbitrary: u)
  case (Cons x xs)
  have u: "''..'' \<notin> set u" using Cons.prems parents_stay [of u "x # xs"] by blast
  have dots: "''..'' \<in> set (clean_elems False [''..''] xs)" by (rule parents_stay) simp
  consider "x = [] \<or> x = ''.''" | "x = ''..''" | "x \<noteq> []" "x \<noteq> ''.''" "x \<noteq> ''..''" by blast
  then show ?case
  proof cases
    case 1
    then show ?thesis using Cons by auto
  next
    case 2
    with Cons.prems u dots show ?thesis using Cons.IH [of "tl u"] by (cases u) auto
  next
    case 3
    with Cons.prems show ?thesis using Cons.IH [of "x # u"] by simp
  qed
qed simp

lemma elements_Join:
  assumes "dir \<noteq> []" and "local_name name"
  shows "rooted (filepath_Join [dir, name]) = rooted dir"
    and "elements (filepath_Join [dir, name]) = elements dir @ local_elems name"
proof -
  have join: "filepath_Join [dir, name] = filepath_Clean (dir @ SLASH # name)"
    using assms(1) by (simp add: filepath_Join_def)
  have r: "rooted (dir @ SLASH # name) = rooted dir" using assms(1) by (simp add: rooted_def)
  then show "rooted (filepath_Join [dir, name]) = rooted dir" by (simp add: join rooted_Clean)
  have "''..'' \<notin> set (clean_elems False [] (split_on SLASH name))"
    using assms(2) by (simp add: local_name_def local_elems_def)
  from clean_elems_local [OF this, of "rooted dir" "rev (elements dir)"]
  show "elements (filepath_Join [dir, name]) = elements dir @ local_elems name"
    by (simp add: join elements_Clean) (simp add: elements_def local_elems_def r split_on_append clean_elems_append
        del: rev_is_rev_conv)
qed

section \<open>Directories\<close>

lemma join_snoc: "join_with sep (xs @ [x]) = (if xs = [] then x else join_with sep xs @ sep @ x)"
  by (induction sep xs rule: join_with.induct) simp_all

lemma elements_slash: "q \<noteq> [] \<Longrightarrow> rooted (q @ [SLASH]) = rooted q \<and> elements (q @ [SLASH]) = elements q"
  by (simp add: elements_def rooted_def split_on_snoc clean_elems_append)

lemma Dir_path_of:
  assumes "clean_stack r (rev (xs @ [x]))"
  shows "rooted (filepath_Dir (path_of r (xs @ [x]))) = r" and "elements (filepath_Dir (path_of r (xs @ [x]))) = xs"
proof -
  have x: "SLASH \<notin> set x" and xs: "clean_stack r (rev xs)" using assms by simp_all
  have nonempty: "path_of r xs \<noteq> []" if "xs \<noteq> []"
    using that elements_path_of [OF xs] by (auto simp: elements_def rooted_def)
  have root: "rooted (path_of r xs) = r"
    using plain_relative [OF clean_stack_plain [OF xs]] by (auto simp: path_of_def) (simp add: rooted_def)
  consider "xs \<noteq> []" | "xs = []" "r" | "xs = []" "\<not> r" by blast
  then have "rooted (filepath_Dir (path_of r (xs @ [x]))) = r \<and> elements (filepath_Dir (path_of r (xs @ [x]))) = xs"
  proof cases
    case 1
    then have "path_of r (xs @ [x]) = path_of r xs @ SLASH # x" by (simp add: path_of_def join_snoc)
    from Dir_last_slash [OF this x] elements_slash [OF nonempty [OF 1]] root elements_path_of [OF xs] show ?thesis
      by (simp add: rooted_Clean elements_Clean)
  next
    case 2
    then have "path_of r (xs @ [x]) = [] @ SLASH # x" by (simp add: path_of_def)
    from Dir_last_slash [OF this x] 2 show ?thesis
      by (simp add: rooted_Clean elements_Clean) (simp add: elements_def rooted_def)
  next
    case 3
    then have "path_of r (xs @ [x]) = x" by (simp add: path_of_def)
    with Dir_no_slash [OF x] 3 show ?thesis by (simp add: elements_def rooted_def)
  qed
  then show "rooted (filepath_Dir (path_of r (xs @ [x]))) = r" and "elements (filepath_Dir (path_of r (xs @ [x]))) = xs"
    by simp_all
qed

text \<open>A path at or below a directory.\<close>

definition under :: "string \<Rightarrow> string \<Rightarrow> bool" where
  "under dir p \<longleftrightarrow> rooted p = rooted dir \<and> prefix (elements dir) (elements p)
     \<and> ''..'' \<notin> set (drop (length (elements dir)) (elements p))"

lemma Join_under:
  assumes "dir \<noteq> []" and "local_name name"
  shows "under dir (filepath_Join [dir, name]) \<and> under dir (filepath_Dir (filepath_Join [dir, name]))"
proof -
  let ?p = "filepath_Join [dir, name]"
  note at = elements_Join [OF assms]
  obtain ys y where more: "local_elems name = ys @ [y]"
    using assms(2) by (metis local_name_def rev_exhaust)
  have "?p = filepath_Clean ?p" using assms(1) by (simp add: filepath_Join_def Clean_Clean)
  then have p: "?p = path_of (rooted dir) ((elements dir @ ys) @ [y])"
    using at more by (auto simp: Clean_path_of Let_def elements_def rooted_def split: if_splits)
  have "clean_stack (rooted dir) (rev ((elements dir @ ys) @ [y]))"
    using clean_elements [of ?p] at more by simp
  from Dir_path_of [OF this] p at more assms(2) show ?thesis
    by (simp add: under_def local_name_def)
qed

end
