(* ===== verification/Protogen.thy ===== *)
theory Protogen
  imports Paths
begin

text \<open>
  \<^verbatim>\<open>tools/protogen/main.go\<close>: the command line, the generation pipeline and the exit
  codes. Reading and writing files, the protobuf compiler and the two plugin processes are
  parameters over a state of the outside world; Go's \<^verbatim>\<open>flag\<close> package is modelled for
  the four flags the tool declares.
\<close>

section \<open>Errors and exit codes\<close>

datatype pg_sentinel = errUsage | errUnreadable | errCompile | errPlugin | errOutputMismatch | errWrite

type_synonym pg_error = "pg_sentinel tool_error"

fun pg_text :: "pg_sentinel \<Rightarrow> string" where
  "pg_text errUsage = ''bad command line''"
| "pg_text errUnreadable = ''cannot read the proto file''"
| "pg_text errCompile = ''cannot compile the proto file''"
| "pg_text errPlugin = ''plugin failed''"
| "pg_text errOutputMismatch = ''plugins returned other files than -output''"
| "pg_text errWrite = ''cannot write the generated file''"

definition exitUsage :: nat where "exitUsage = 2"
definition exitNoInput :: nat where "exitNoInput = 66"
definition exitIOError :: nat where "exitIOError = 74"

text \<open>The modes 0750 and 0600 of what is created: others have no access.\<close>

definition generatedDirMode :: nat where "generatedDirMode = 7 * 64 + 5 * 8"
definition generatedFileMode :: nat where "generatedFileMode = 6 * 64"

definition exitCode :: "pg_error option \<Rightarrow> nat" where
  "exitCode e =
     (case e of
        None \<Rightarrow> 0
      | Some cause \<Rightarrow>
          if tool_is errUsage cause then exitUsage
          else if tool_is errUnreadable cause then exitNoInput
          else if tool_is errWrite cause then exitIOError
          else 1)"

text \<open>\<^verbatim>\<open>fmt.Errorf("%w: %w", sentinel, err)\<close> and the forms with a text after the sentinel.\<close>

definition because :: "pg_sentinel \<Rightarrow> pg_error \<Rightarrow> pg_error" where
  "because t cause = Wrapped (pg_text t @ '': '' @ tool_text pg_text cause) [Known t, cause]"

definition saying :: "pg_sentinel \<Rightarrow> string \<Rightarrow> pg_error" where
  "saying t msg = Wrapped (pg_text t @ '': '' @ msg) [Known t]"

section \<open>The command line\<close>

record config =
  root :: string
  proto :: string
  goOut :: string
  outputs :: "string list"

text \<open>
  \<^verbatim>\<open>FlagSet.Parse\<close>: flags until the first argument that is none, or past a double dash.
  Every flag of the tool takes a value, after an equals sign or as the next argument.
\<close>

datatype flag_error = BadSyntax string | HelpWanted | NotDefined string | NeedsArgument string

definition set_flag :: "config \<Rightarrow> string \<Rightarrow> string \<Rightarrow> config option" where
  "set_flag cfg name v =
     (if name = ''root'' then Some (cfg\<lparr>root := v\<rparr>)
      else if name = ''proto'' then Some (cfg\<lparr>proto := v\<rparr>)
      else if name = ''go_out'' then Some (cfg\<lparr>goOut := v\<rparr>)
      else if name = ''output'' then Some (cfg\<lparr>outputs := outputs cfg @ [v]\<rparr>)
      else None)"

definition undefined_flag :: "string \<Rightarrow> flag_error" where
  "undefined_flag name = (if name = ''help'' \<or> name = ''h'' then HelpWanted else NotDefined name)"

definition flag_name :: "string \<Rightarrow> string option" where
  "flag_name s =
     (let name = (if prefix ''--'' s then drop 2 s else drop 1 s) in
      if name = [] \<or> hd name = CHR ''-'' \<or> hd name = CHR ''='' then None else Some name)"

definition cut_equals :: "string \<Rightarrow> string \<times> string option" where
  "cut_equals name =
     (case cut_byte (CHR ''='') (tl name) of
        (before, after, True) \<Rightarrow> (hd name # before, Some after)
      | (_, _, False) \<Rightarrow> (name, None))"

function parse_flags :: "config \<Rightarrow> string list \<Rightarrow> flag_error + config \<times> string list" where
  "parse_flags cfg argv =
     (case argv of
        [] \<Rightarrow> Inr (cfg, [])
      | s # rest \<Rightarrow>
          if length s < 2 \<or> hd s \<noteq> CHR ''-'' then Inr (cfg, argv)
          else if s = ''--'' then Inr (cfg, rest)
          else
            (case flag_name s of
               None \<Rightarrow> Inl (BadSyntax s)
             | Some body \<Rightarrow>
                 (case cut_equals body of
                    (name, Some v) \<Rightarrow>
                      (case set_flag cfg name v of
                         None \<Rightarrow> Inl (undefined_flag name)
                       | Some cfg' \<Rightarrow> parse_flags cfg' rest)
                  | (name, None) \<Rightarrow>
                      if set_flag cfg name [] = None then Inl (undefined_flag name)
                      else
                        (case rest of
                           [] \<Rightarrow> Inl (NeedsArgument name)
                         | v # rest' \<Rightarrow> parse_flags (the (set_flag cfg name v)) rest'))))"
  by pat_completeness auto
termination
  by (relation "measure (\<lambda>(cfg, argv). length argv)") auto

declare parse_flags.simps [simp del]

fun flag_error_text :: "flag_error \<Rightarrow> string" where
  "flag_error_text (BadSyntax s) = ''bad flag syntax: '' @ s"
| "flag_error_text HelpWanted = ''flag: help requested''"
| "flag_error_text (NotDefined name) = ''flag provided but not defined: -'' @ name"
| "flag_error_text (NeedsArgument name) = ''flag needs an argument: -'' @ name"

definition parseArgs :: "(nat \<Rightarrow> bool) \<Rightarrow> string list \<Rightarrow> pg_error + config" where
  "parseArgs pr argv =
     (case parse_flags \<lparr> root = ''.'', proto = [], goOut = [], outputs = [] \<rparr> argv of
        Inl e \<Rightarrow> Inl (because errUsage (Foreign (flag_error_text e)))
      | Inr (cfg, rest) \<Rightarrow>
          if rest \<noteq> [] then Inl (saying errUsage (''unexpected argument '' @ quoted pr (hd rest)))
          else if proto cfg = [] \<or> goOut cfg = [] \<or> outputs cfg = []
          then Inl (saying errUsage ''-proto, -go_out and at least one -output are required'')
          else Inr cfg)"

section \<open>Descriptors in dependency order\<close>

text \<open>
  A file descriptor with the descriptors it imports, as the compiler links them. The traversal
  looks at nothing else.
\<close>

datatype fdesc = FDesc (fdesc_path: string) (fdesc_imports: "fdesc list")

fun visit :: "fdesc \<Rightarrow> string list \<times> fdesc list \<Rightarrow> string list \<times> fdesc list"
  and visit_all :: "fdesc list \<Rightarrow> string list \<times> fdesc list \<Rightarrow> string list \<times> fdesc list" where
  "visit (FDesc p ims) st =
     (case st of (visited, ordered) \<Rightarrow>
        if p \<in> set visited then (visited, ordered)
        else
          (case visit_all ims (p # visited, ordered) of
             (visited', ordered') \<Rightarrow> (visited', ordered' @ [FDesc p ims])))"
| "visit_all [] st = st"
| "visit_all (f # fs) st = visit_all fs (visit f st)"

definition descriptorsInDependencyOrder :: "fdesc \<Rightarrow> fdesc list" where
  "descriptorsInDependencyOrder f = snd (visit f ([], []))"

section \<open>The pipeline\<close>

definition parameter :: string where "parameter = ''paths=source_relative''"

record generator_request =
  FileToGenerate :: "string list"
  Parameter :: string
  ProtoFile :: "fdesc list"

record generated =
  Name :: string
  Content :: string

text \<open>
  The outside: reading a file, compiling a file under an import root into descriptors, running a
  plugin on the marshalled request (its response is the error text and the files), creating
  directories, writing files, and writing to standard error.
\<close>

record 'w outside =
  read_file :: "'w \<Rightarrow> string \<Rightarrow> string + string"
  compile :: "'w \<Rightarrow> string \<Rightarrow> string \<Rightarrow> string + fdesc list"
  marshal_request :: "generator_request \<Rightarrow> string + string"
  exec_plugin :: "'w \<Rightarrow> string \<Rightarrow> string \<Rightarrow> 'w \<times> (string + string)"
  unmarshal_response :: "string \<Rightarrow> string + string \<times> generated list"
  mkdir_all :: "'w \<Rightarrow> string \<Rightarrow> nat \<Rightarrow> 'w \<times> string option"
  write_file :: "'w \<Rightarrow> string \<Rightarrow> string \<Rightarrow> nat \<Rightarrow> 'w \<times> string option"
  write_stderr :: "'w \<Rightarrow> string \<Rightarrow> 'w \<times> string option"

definition compileRequest :: "'w outside \<Rightarrow> 'w \<Rightarrow> string \<Rightarrow> string \<Rightarrow> pg_error + generator_request" where
  "compileRequest out w rt protoPath =
     (case read_file out w (filepath_Join [rt, protoPath]) of
        Inl e \<Rightarrow> Inl (because errUnreadable (Foreign e))
      | Inr _ \<Rightarrow>
          (let name = filepath_Clean protoPath in
           (case compile out w rt name of
              Inl e \<Rightarrow> Inl (because errCompile (Foreign e))
            | Inr compiled \<Rightarrow>
                (case compiled of
                   [f] \<Rightarrow> Inr \<lparr> FileToGenerate = [name], Parameter = parameter,
                                ProtoFile = descriptorsInDependencyOrder f \<rparr>
                 | _ \<Rightarrow> Inl (saying errCompile name)))))"

definition runPlugin :: "'w outside \<Rightarrow> 'w \<Rightarrow> string \<Rightarrow> string \<Rightarrow> 'w \<times> (pg_error + generated list)" where
  "runPlugin out w tool input =
     (case exec_plugin out w tool input of
        (w', Inl e) \<Rightarrow> (w', Inl (Wrapped (pg_text errPlugin @ '': '' @ tool @ '': '' @ e) [Known errPlugin, Foreign e]))
      | (w', Inr stdout) \<Rightarrow>
          (case unmarshal_response out stdout of
             Inl e \<Rightarrow> (w', Inl (Wrapped (pg_text errPlugin @ '': '' @ tool @ '': '' @ e) [Known errPlugin, Foreign e]))
           | Inr (message, files) \<Rightarrow>
               if message \<noteq> [] then (w', Inl (saying errPlugin (tool @ '': '' @ message)))
               else (w', Inr files)))"

fun run_each :: "'w outside \<Rightarrow> string \<Rightarrow> string list \<Rightarrow> generated list \<Rightarrow> 'w \<Rightarrow> 'w \<times> (pg_error + generated list)" where
  "run_each out input [] files w = (w, Inr files)"
| "run_each out input (tool # tools) files w =
     (case runPlugin out w tool input of
        (w', Inl e) \<Rightarrow> (w', Inl e)
      | (w', Inr produced) \<Rightarrow> run_each out input tools (files @ produced) w')"

definition runPlugins :: "'w outside \<Rightarrow> 'w \<Rightarrow> generator_request \<Rightarrow> 'w \<times> (pg_error + generated list)" where
  "runPlugins out w request =
     (case marshal_request out request of
        Inl e \<Rightarrow> (w, Inl (because errPlugin (Foreign e)))
      | Inr input \<Rightarrow> run_each out input [''protoc-gen-go'', ''protoc-gen-go-grpc''] [] w)"

definition bracketed :: "string list \<Rightarrow> string" where
  "bracketed xs = ''['' @ join_with '' '' xs @ '']''"

definition checkOutputs :: "string list \<Rightarrow> generated list \<Rightarrow> pg_error option" where
  "checkOutputs wanted files =
     (let expected = remdups (map filepath_Base wanted);
          produced = remdups (map (\<lambda>f. filepath_Base (Name f)) files)
      in if length produced \<noteq> length files \<or> set expected \<noteq> set produced
         then Some (saying errOutputMismatch
                (''expected '' @ bracketed wanted @ '', got '' @ show_nat (length files) @ '' files''))
         else None)"

fun writeFiles :: "'w outside \<Rightarrow> string \<Rightarrow> generated list \<Rightarrow> 'w \<Rightarrow> 'w \<times> pg_error option" where
  "writeFiles out dir [] w = (w, None)"
| "writeFiles out dir (f # fs) w =
     (let target = filepath_Join [dir, Name f] in
      (case mkdir_all out w (filepath_Dir target) generatedDirMode of
         (w1, Some e) \<Rightarrow> (w1, Some (because errWrite (Foreign e)))
       | (w1, None) \<Rightarrow>
           (case write_file out w1 target (Content f) generatedFileMode of
              (w2, Some e) \<Rightarrow> (w2, Some (because errWrite (Foreign e)))
            | (w2, None) \<Rightarrow> writeFiles out dir fs w2)))"

definition generate :: "'w outside \<Rightarrow> config \<Rightarrow> 'w \<Rightarrow> 'w \<times> pg_error option" where
  "generate out cfg w =
     (case compileRequest out w (root cfg) (proto cfg) of
        Inl e \<Rightarrow> (w, Some e)
      | Inr request \<Rightarrow>
          (case runPlugins out w request of
             (w', Inl e) \<Rightarrow> (w', Some e)
           | (w', Inr files) \<Rightarrow>
               (case checkOutputs (outputs cfg) files of
                  Some e \<Rightarrow> (w', Some e)
                | None \<Rightarrow> writeFiles out (goOut cfg) files w')))"

text \<open>
  The whole command: what is written to standard error may itself fail, and that error is joined
  to the first.
\<close>

definition run_protogen :: "(nat \<Rightarrow> bool) \<Rightarrow> 'w outside \<Rightarrow> string list \<Rightarrow> 'w \<Rightarrow> 'w \<times> nat" where
  "run_protogen pr out argv w =
     (case (case parseArgs pr argv of Inl e \<Rightarrow> (w, Some e) | Inr cfg \<Rightarrow> generate out cfg w) of
        (w', None) \<Rightarrow> (w', exitCode None)
      | (w', Some e) \<Rightarrow>
          (case write_stderr out w' (tool_text pg_text e @ [LF]) of
             (w'', None) \<Rightarrow> (w'', exitCode (Some e))
           | (w'', Some we) \<Rightarrow>
               (w'', exitCode (Some (Wrapped (tool_text pg_text e @ [LF] @ we) [e, Foreign we])))))"

section \<open>Descriptors come after what they import\<close>

text \<open>The descriptors reachable from one, itself first.\<close>

fun descs :: "fdesc \<Rightarrow> fdesc list" where
  "descs (FDesc p ims) = FDesc p ims # concat (map descs ims)"

text \<open>The compiler registers one descriptor per path.\<close>

definition one_per_path :: "fdesc set \<Rightarrow> bool" where
  "one_per_path U \<longleftrightarrow> (\<forall>g \<in> U. \<forall>h \<in> U. fdesc_path g = fdesc_path h \<longrightarrow> g = h)"

lemma one_per_pathD:
  "one_per_path U \<Longrightarrow> g \<in> U \<Longrightarrow> h \<in> U \<Longrightarrow> fdesc_path g = fdesc_path h \<Longrightarrow> g = h"
  by (simp add: one_per_path_def)

fun imports_first :: "fdesc list \<Rightarrow> fdesc list \<Rightarrow> bool" where
  "imports_first seen [] = True"
| "imports_first seen (f # fs) = (set (fdesc_imports f) \<subseteq> set seen \<and> imports_first (seen @ [f]) fs)"

lemma imports_first_append:
  "imports_first seen (xs @ ys) \<longleftrightarrow> imports_first seen xs \<and> imports_first (seen @ xs) ys"
  by (induction xs arbitrary: seen) auto

lemma descs_self [simp]: "f \<in> set (descs f)"
  by (cases f) simp

lemma descs_trans: "g \<in> set (descs f) \<Longrightarrow> set (descs g) \<subseteq> set (descs f)"
  by (induction f) fastforce

lemma descs_import: "g \<in> set (fdesc_imports f) \<Longrightarrow> set (descs g) \<subseteq> set (descs f)"
  by (cases f) auto

lemma descs_size: "g \<in> set (descs f) \<Longrightarrow> size g \<le> size f"
proof (induction f)
  case (FDesc p ims)
  show ?case
  proof (cases "g = FDesc p ims")
    case False
    with FDesc.prems obtain f where f: "f \<in> set ims" "g \<in> set (descs f)" by auto
    with FDesc.IH have "size g \<le> size f" by blast
    also have "size f \<le> size_list size ims" using f(1) by (simp add: size_list_estimation')
    finally show ?thesis by simp
  qed simp
qed

lemma import_not_above: "f \<in> set ims \<Longrightarrow> FDesc p ims \<notin> set (descs f)"
  using descs_size [of "FDesc p ims" f] size_list_estimation' [of f ims "size f" size] by auto

text \<open>
  The state of the traversal: the paths visited are those of the descriptors already ordered and
  those of the descriptors whose imports are being visited.
\<close>

definition visiting :: "fdesc set \<Rightarrow> string set \<Rightarrow> string list \<times> fdesc list \<Rightarrow> bool" where
  "visiting U open st =
     (case st of (visited, ordered) \<Rightarrow>
        set visited = fdesc_path ` set ordered \<union> open \<and> open \<inter> fdesc_path ` set ordered = {} \<and>
        distinct (map fdesc_path ordered) \<and> imports_first [] ordered \<and> set ordered \<subseteq> U)"

lemma visiting_known: "visiting U open (visited, ordered) \<Longrightarrow> set ordered \<subseteq> U"
  by (simp add: visiting_def)

lemma visiting_open:
  "visiting U open (visited, ordered) \<Longrightarrow> p \<notin> set visited \<Longrightarrow> visiting U (insert p open) (p # visited, ordered)"
  by (simp add: visiting_def)

lemma visiting_close:
  "visiting U (insert p open) (visited, ordered) \<Longrightarrow> set ims \<subseteq> set ordered \<Longrightarrow> FDesc p ims \<in> U \<Longrightarrow> p \<notin> open \<Longrightarrow>
   visiting U open (visited, ordered @ [FDesc p ims])"
  by (simp add: visiting_def imports_first_append)

lemma visit_invariant:
  "one_per_path U \<Longrightarrow> visiting U open st \<Longrightarrow> set (descs f) \<subseteq> U \<Longrightarrow> open \<inter> fdesc_path ` set (descs f) = {} \<Longrightarrow>
     visiting U open (visit f st) \<and> f \<in> set (snd (visit f st)) \<and>
     (\<exists>more. snd (visit f st) = snd st @ more \<and> set more \<subseteq> set (descs f))"
  "one_per_path U \<Longrightarrow> visiting U open st \<Longrightarrow> \<Union> (set ` set (map descs fs)) \<subseteq> U \<Longrightarrow>
     (\<forall>f \<in> set fs. open \<inter> fdesc_path ` set (descs f) = {}) \<Longrightarrow>
     visiting U open (visit_all fs st) \<and> set fs \<subseteq> set (snd (visit_all fs st)) \<and>
     (\<exists>more. snd (visit_all fs st) = snd st @ more \<and> set more \<subseteq> \<Union> (set ` set (map descs fs)))"
proof (induction f st and fs st arbitrary: "open" and "open" rule: visit_visit_all.induct)
  case (1 p ims st)
  obtain visited ordered where st: "st = (visited, ordered)" by (cases st)
  show ?case
  proof (cases "p \<in> set visited")
    case True
    moreover have "p \<notin> open" using "1.prems"(4) by auto
    ultimately have "p \<in> fdesc_path ` set ordered" using "1.prems"(2) by (simp add: visiting_def st)
    then obtain g where g: "g \<in> set ordered" "fdesc_path g = p" by blast
    have "g \<in> U" using visiting_known "1.prems"(2) g(1) st by blast
    then have "g = FDesc p ims" using "1.prems"(3) g(2) by (intro one_per_pathD [OF "1.prems"(1)]) auto
    with g True "1.prems"(2) show ?thesis by (simp add: st)
  next
    case False
    let ?st1 = "(p # visited, ordered)"
    obtain visited' ordered' where st': "visit_all ims ?st1 = (visited', ordered')" by fastforce
    have fresh: "p \<notin> fdesc_path ` set (descs f)" if "f \<in> set ims" for f
    proof
      assume "p \<in> fdesc_path ` set (descs f)"
      then obtain g where "g \<in> set (descs f)" "fdesc_path g = p" by auto
      with that "1.prems"(3) have "g = FDesc p ims" by (intro one_per_pathD [OF "1.prems"(1)]) auto
      with \<open>g \<in> set (descs f)\<close> import_not_above [OF that] show False by simp
    qed
    have "visiting U (insert p open) (visit_all ims ?st1) \<and> set ims \<subseteq> set (snd (visit_all ims ?st1)) \<and>
        (\<exists>more. snd (visit_all ims ?st1) = snd ?st1 @ more \<and> set more \<subseteq> \<Union> (set ` set (map descs ims)))"
    proof (rule "1.IH" [OF st [symmetric] False])
      show "visiting U (insert p open) ?st1" using "1.prems"(2) False st by (simp add: visiting_open)
      show "\<forall>f \<in> set ims. insert p open \<inter> fdesc_path ` set (descs f) = {}"
        using "1.prems"(4) fresh by fastforce
    qed (use "1.prems"(1,3) in auto)
    then have inv: "visiting U (insert p open) (visited', ordered')" and ims: "set ims \<subseteq> set ordered'"
      and more: "\<exists>more. ordered' = ordered @ more \<and> set more \<subseteq> \<Union> (set ` set (map descs ims))"
      by (simp_all add: st')
    have "visiting U open (visited', ordered' @ [FDesc p ims])"
      using inv ims "1.prems"(3,4) by (intro visiting_close) auto
    then show ?thesis using False more by (auto simp: st st')
  qed
next
  case (2 st)
  then show ?case by simp
next
  case (3 f fs st)
  have v: "visiting U open (visit f st) \<and> f \<in> set (snd (visit f st)) \<and>
      (\<exists>more. snd (visit f st) = snd st @ more \<and> set more \<subseteq> set (descs f))"
    using "3.prems" by (intro "3.IH") auto
  moreover have "visiting U open (visit_all fs (visit f st)) \<and> set fs \<subseteq> set (snd (visit_all fs (visit f st))) \<and>
      (\<exists>more. snd (visit_all fs (visit f st)) = snd (visit f st) @ more \<and> set more \<subseteq> \<Union> (set ` set (map descs fs)))"
    using "3.prems" v by (intro "3.IH") auto
  ultimately show ?case by fastforce
qed

lemma imports_first_closed:
  "imports_first seen xs \<Longrightarrow> f \<in> set xs \<Longrightarrow> set (fdesc_imports f) \<subseteq> set seen \<union> set xs"
  by (induction xs arbitrary: seen) fastforce+

lemma imports_first_reaches:
  "imports_first [] xs \<Longrightarrow> f \<in> set xs \<Longrightarrow> set (descs f) \<subseteq> set xs"
proof (induction f)
  case (FDesc p ims)
  then show ?case using imports_first_closed [of "[]" xs "FDesc p ims"] by fastforce
qed

lemma imports_first_nth:
  "imports_first seen xs \<Longrightarrow> i < length xs \<Longrightarrow> set (fdesc_imports (xs ! i)) \<subseteq> set seen \<union> set (take i xs)"
proof (induction xs arbitrary: seen i)
  case (Cons x xs)
  then show ?case by (cases i) fastforce+
qed simp

text \<open>
  C31: The request that the plugins get lists every descriptor that the file reaches through its
  imports, each once, each after all the descriptors it imports, and the file itself last.
\<close>

theorem descriptors_in_dependency_order:
  assumes "one_per_path (set (descs f))"
  shows "set (descriptorsInDependencyOrder f) = set (descs f) \<and>
    distinct (map fdesc_path (descriptorsInDependencyOrder f)) \<and>
    (\<forall>i g. i < length (descriptorsInDependencyOrder f) \<and> g \<in> set (fdesc_imports (descriptorsInDependencyOrder f ! i)) \<longrightarrow>
       (\<exists>j < i. descriptorsInDependencyOrder f ! j = g)) \<and>
    last (descriptorsInDependencyOrder f) = f"
proof -
  let ?ds = "descriptorsInDependencyOrder f"
  have "visiting (set (descs f)) {} ([], [])" by (simp add: visiting_def)
  from visit_invariant(1) [OF assms this, of f]
  have inv: "visiting (set (descs f)) {} (visit f ([], []))" and f: "f \<in> set ?ds"
    by (simp_all add: descriptorsInDependencyOrder_def)
  then have d: "distinct (map fdesc_path ?ds)" and i: "imports_first [] ?ds" and k: "set ?ds \<subseteq> set (descs f)"
    by (auto simp: visiting_def descriptorsInDependencyOrder_def split: prod.splits)
  have "last ?ds = f"
    by (cases f) (auto simp: descriptorsInDependencyOrder_def split: prod.splits)
  moreover have "\<exists>j < i. ?ds ! j = g" if "i < length ?ds" "g \<in> set (fdesc_imports (?ds ! i))" for i g
  proof -
    have "g \<in> set (take i ?ds)" using imports_first_nth [OF i that(1)] that(2) by auto
    then show ?thesis using that(1) by (auto simp: in_set_conv_nth)
  qed
  ultimately show ?thesis using d k imports_first_reaches [OF i f] by blast
qed

text \<open>Two files that import the same third file: it comes first, and once.\<close>

definition diamond :: fdesc where
  "diamond =
     (let base = FDesc ''base.proto'' [] in
      FDesc ''top.proto'' [FDesc ''left.proto'' [base], FDesc ''right.proto'' [base]])"

theorem descriptors_in_dependency_order_witness:
  "one_per_path (set (descs diamond)) \<and>
   map fdesc_path (descriptorsInDependencyOrder diamond)
     = [''base.proto'', ''left.proto'', ''right.proto'', ''top.proto''] \<and>
   set (descriptorsInDependencyOrder diamond) = set (descs diamond)"
proof -
  have "one_per_path (set (descs diamond))"
    by (simp add: one_per_path_def diamond_def Let_def)
  with descriptors_in_dependency_order [of diamond] show ?thesis
    by (simp add: descriptorsInDependencyOrder_def diamond_def Let_def)
qed

section \<open>The command line\<close>

text \<open>A command line that asks for a configuration.\<close>

fun output_flags :: "string list \<Rightarrow> string list" where
  "output_flags [] = []"
| "output_flags (name # names) = ''-output'' # name # output_flags names"

definition command_line :: "config \<Rightarrow> string list" where
  "command_line cfg =
     [''-root'', root cfg, ''-proto'', proto cfg, ''-go_out'', goOut cfg] @ output_flags (outputs cfg)"

lemma parse_flags_Nil [simp]: "parse_flags cfg [] = Inr (cfg, [])"
  by (simp add: parse_flags.simps)

lemma parse_flag_value:
  assumes "flag = CHR ''-'' # name" "name \<noteq> []" "CHR ''='' \<notin> set name" "hd name \<noteq> CHR ''-''"
    and "set_flag cfg name v = Some cfg'" "set_flag cfg name [] \<noteq> None"
  shows "parse_flags cfg (flag # v # rest) = parse_flags cfg' rest"
proof -
  obtain c s where name: "name = c # s" using assms(2) by (cases name) auto
  have "flag_name flag = Some name" using assms(1,3,4) by (auto simp: flag_name_def name)
  moreover have "cut_equals name = (name, None)"
    using assms(3) by (simp add: cut_equals_def name cut_byte_absent)
  moreover have "flag \<noteq> ''--''" using assms(1,4) by (auto simp: name)
  ultimately show ?thesis
    using assms by (subst parse_flags.simps) (auto simp: name)
qed

lemma parse_output_flags:
  "parse_flags cfg (output_flags names) = Inr (cfg\<lparr>outputs := outputs cfg @ names\<rparr>, [])"
proof (induction names arbitrary: cfg)
  case (Cons name names)
  have "parse_flags cfg (''-output'' # name # output_flags names)
      = parse_flags (cfg\<lparr>outputs := outputs cfg @ [name]\<rparr>) (output_flags names)"
    by (rule parse_flag_value [where name = "''output''"]) (simp_all add: set_flag_def)
  with Cons.IH show ?case by simp
qed simp

lemma parse_command_line:
  "parse_flags \<lparr> root = ''.'', proto = [], goOut = [], outputs = [] \<rparr> (command_line cfg) = Inr (cfg, [])"
proof -
  have "parse_flags c (''-root'' # v # rest) = parse_flags (c\<lparr>root := v\<rparr>) rest"
    and "parse_flags c (''-proto'' # v # rest) = parse_flags (c\<lparr>proto := v\<rparr>) rest"
    and "parse_flags c (''-go_out'' # v # rest) = parse_flags (c\<lparr>goOut := v\<rparr>) rest" for c v rest
    by (rule parse_flag_value [where name = "''root''"] parse_flag_value [where name = "''proto''"]
          parse_flag_value [where name = "''go_out''"]; simp add: set_flag_def)+
  then show ?thesis by (simp add: command_line_def parse_output_flags)
qed

lemma parseArgs_error: "parseArgs pr argv = Inl e \<Longrightarrow> tool_is errUsage e"
  by (auto simp: parseArgs_def because_def saying_def split: sum.splits if_splits)

text \<open>
  C35: The command line: a configuration with its three required settings is read back from the
  flags that spell it, whatever the values are; and no command line is accepted that leaves the
  proto file, the output directory or the list of outputs empty, each refusal being a usage error.
\<close>

theorem command_line_roundtrip:
  "(proto cfg \<noteq> [] \<and> goOut cfg \<noteq> [] \<and> outputs cfg \<noteq> [] \<longrightarrow> parseArgs pr (command_line cfg) = Inr cfg) \<and>
   (case parseArgs pr argv of
      Inr c \<Rightarrow> proto c \<noteq> [] \<and> goOut c \<noteq> [] \<and> outputs c \<noteq> []
    | Inl e \<Rightarrow> exitCode (Some e) = 2)"
proof -
  have "exitCode (Some e) = 2" if "parseArgs pr argv = Inl e" for e
    using parseArgs_error [OF that] by (simp add: exitCode_def exitUsage_def)
  moreover have "proto c \<noteq> [] \<and> goOut c \<noteq> [] \<and> outputs c \<noteq> []" if "parseArgs pr argv = Inr c" for c
    using that by (auto simp: parseArgs_def split: sum.splits if_splits)
  ultimately show ?thesis
    by (simp add: parseArgs_def [of pr "command_line cfg"] parse_command_line split: sum.split)
qed

theorem command_line_roundtrip_witness:
  "parseArgs (\<lambda>r. True) (command_line \<lparr> root = ''..'', proto = ''a.proto'', goOut = ''-x'', outputs = [''a.pb.go'', ''b''] \<rparr>)
     = Inr \<lparr> root = ''..'', proto = ''a.proto'', goOut = ''-x'', outputs = [''a.pb.go'', ''b''] \<rparr>"
  using command_line_roundtrip
    [of "\<lparr> root = ''..'', proto = ''a.proto'', goOut = ''-x'', outputs = [''a.pb.go'', ''b''] \<rparr>" "\<lambda>r. True"]
  by simp

section \<open>What the exit codes say\<close>

text \<open>
  The files of a run whose input is readable: what the plugins return, when their base names are
  pairwise different and are exactly the base names asked for.
\<close>

definition as_asked :: "string list \<Rightarrow> generated list \<Rightarrow> bool" where
  "as_asked wanted files \<longleftrightarrow>
     distinct (map (\<lambda>f. filepath_Base (Name f)) files) \<and>
     filepath_Base ` set wanted = (\<lambda>f. filepath_Base (Name f)) ` set files"

definition accepted_files :: "'w outside \<Rightarrow> config \<Rightarrow> 'w \<Rightarrow> ('w \<times> generated list) option" where
  "accepted_files out cfg w =
     (case compileRequest out w (root cfg) (proto cfg) of
        Inl e \<Rightarrow> None
      | Inr request \<Rightarrow>
          (case runPlugins out w request of
             (w', Inl e) \<Rightarrow> None
           | (w', Inr files) \<Rightarrow> if as_asked (outputs cfg) files then Some (w', files) else None))"

lemma checkOutputs_None: "checkOutputs wanted files = None \<longleftrightarrow> as_asked wanted files"
proof -
  have "length (remdups xs) = length xs \<longleftrightarrow> distinct xs" for xs :: "string list"
    by (simp add: length_remdups_eq remdups_id_iff_distinct)
  from this [of "map (\<lambda>f. filepath_Base (Name f)) files"] show ?thesis
    by (auto simp: checkOutputs_def as_asked_def Let_def)
qed

named_theorems pg_errors \<open>which sentinel each step of the pipeline fails with\<close>

lemma tool_is_because [pg_errors]: "tool_is t (because t' (Foreign m)) \<longleftrightarrow> t = t'"
  by (auto simp: because_def)

lemma tool_is_saying [pg_errors]: "tool_is t (saying t' m) \<longleftrightarrow> t = t'"
  by (auto simp: saying_def)

lemma compileRequest_error [pg_errors]:
  "compileRequest out w rt p = Inl e \<Longrightarrow>
   tool_is t e \<longleftrightarrow> t = (if isl (read_file out w (filepath_Join [rt, p])) then errUnreadable else errCompile)"
  by (auto simp: compileRequest_def Let_def tool_is_because tool_is_saying split: sum.splits list.splits)

lemma runPlugin_error: "runPlugin out w tool input = (w', Inl e) \<Longrightarrow> tool_is t e \<longleftrightarrow> t = errPlugin"
  by (auto simp: runPlugin_def pg_errors split: prod.splits sum.splits if_splits)

lemma run_each_error: "run_each out input tools files w = (w', Inl e) \<Longrightarrow> tool_is t e \<longleftrightarrow> t = errPlugin"
  by (induction out input tools files w rule: run_each.induct)
    (auto simp: runPlugin_error split: prod.splits sum.splits)

lemma runPlugins_error [pg_errors]: "runPlugins out w request = (w', Inl e) \<Longrightarrow> tool_is t e \<longleftrightarrow> t = errPlugin"
  by (auto simp: runPlugins_def tool_is_because run_each_error simp del: run_each.simps split: sum.splits)

lemma checkOutputs_error [pg_errors]: "checkOutputs wanted files = Some e \<Longrightarrow> tool_is t e \<longleftrightarrow> t = errOutputMismatch"
  by (auto simp: checkOutputs_def Let_def tool_is_saying split: if_splits)

lemma writeFiles_error [pg_errors]: "writeFiles out dir files w = (w', Some e) \<Longrightarrow> tool_is t e \<longleftrightarrow> t = errWrite"
  by (induction out dir files w rule: writeFiles.induct)
    (auto simp: Let_def tool_is_because split: prod.splits option.splits)

lemma generate_code:
  "exitCode (snd (generate out cfg w)) =
     (if isl (read_file out w (filepath_Join [root cfg, proto cfg])) then 66
      else (case accepted_files out cfg w of
              None \<Rightarrow> 1
            | Some (w', files) \<Rightarrow> if snd (writeFiles out (goOut cfg) files w') = None then 0 else 74))"
proof (cases "compileRequest out w (root cfg) (proto cfg)")
  case (Inl e)
  then show ?thesis
    by (simp add: generate_def accepted_files_def exitCode_def exitNoInput_def pg_errors)
next
  case (Inr request)
  then have "\<not> isl (read_file out w (filepath_Join [root cfg, proto cfg]))"
    by (auto simp: compileRequest_def split: sum.splits)
  moreover obtain w' files where "runPlugins out w request = (w', files)" by fastforce
  ultimately show ?thesis using Inr
    by (cases files; cases "checkOutputs (outputs cfg) (projr files)";
        cases "writeFiles out (goOut cfg) (projr files) w'"; cases "snd (writeFiles out (goOut cfg) (projr files) w')")
      (auto simp: generate_def accepted_files_def exitCode_def exitIOError_def pg_errors
          checkOutputs_None [symmetric] split: option.splits)
qed

lemma exitCode_joined: "exitCode (Some (Wrapped m [e, Foreign we])) = exitCode (Some e)"
  by (simp add: exitCode_def)

lemma run_protogen_code:
  "snd (run_protogen pr out argv w) =
     (case parseArgs pr argv of Inl e \<Rightarrow> 2 | Inr cfg \<Rightarrow> exitCode (snd (generate out cfg w)))"
  by (auto simp: run_protogen_def exitCode_joined exitCode_def exitUsage_def
      split: sum.splits prod.splits option.splits dest: parseArgs_error)


lemma runPlugin_keeps:
  assumes "\<And>w tool input. I w \<Longrightarrow> I (fst (exec_plugin out w tool input))" and "I w"
  shows "I (fst (runPlugin out w tool input))"
  using assms(1) [OF assms(2), of tool input] by (auto simp: runPlugin_def split: prod.splits sum.splits)

lemma run_each_keeps:
  assumes "\<And>w tool input. I w \<Longrightarrow> I (fst (exec_plugin out w tool input))" and "I w"
  shows "I (fst (run_each out input tools files w))"
  using assms(2)
proof (induction tools arbitrary: files w)
  case (Cons tool tools)
  then show ?case
    using runPlugin_keeps [of I out w tool input, OF assms(1) Cons.prems] by (auto split: prod.splits sum.splits)
qed simp

lemma runPlugins_keeps:
  assumes "\<And>w tool input. I w \<Longrightarrow> I (fst (exec_plugin out w tool input))" and "I w"
  shows "I (fst (runPlugins out w request))"
  using run_each_keeps [of I out w, OF assms] assms(2) by (auto simp: runPlugins_def simp del: run_each.simps split: sum.splits)

lemma generate_keeps:
  assumes "\<And>w tool input. I w \<Longrightarrow> I (fst (exec_plugin out w tool input))" and "I w"
    and "exitCode (snd (generate out cfg w)) \<notin> {0, 74}"
  shows "I (fst (generate out cfg w))"
proof (cases "compileRequest out w (root cfg) (proto cfg)")
  case (Inr request)
  obtain w' res where p: "runPlugins out w request = (w', res)" by fastforce
  then have "I w'" using runPlugins_keeps [of I out w request, OF assms(1,2)] by simp
  moreover have "accepted_files out cfg w = None"
    using assms(3) by (auto simp: generate_code split: if_splits option.splits)
      (auto simp: compileRequest_def Inr accepted_files_def split: sum.splits)
  ultimately show ?thesis using Inr p
    by (auto simp: generate_def accepted_files_def checkOutputs_None [symmetric] split: sum.splits option.splits if_splits)
qed (use assms(2) in \<open>simp add: generate_def\<close>)

text \<open>What the diagnostic keeps, a run keeps that keeps it until then.\<close>

lemma run_protogen_keeps:
  assumes "\<And>w line. I w \<Longrightarrow> I (fst (write_stderr out w line))"
    and "I (fst (case parseArgs pr argv of Inl e \<Rightarrow> (w, Some e) | Inr cfg \<Rightarrow> generate out cfg w))"
  shows "I (fst (run_protogen pr out argv w))"
proof -
  let ?r = "case parseArgs pr argv of Inl e \<Rightarrow> (w, Some e) | Inr cfg \<Rightarrow> generate out cfg w"
  have "fst (run_protogen pr out argv w) =
      (case snd ?r of None \<Rightarrow> fst ?r | Some e \<Rightarrow> fst (write_stderr out (fst ?r) (tool_text pg_text e @ [LF])))"
    by (simp add: run_protogen_def split: prod.split option.split)
  then show ?thesis using assms(1) [of "fst ?r"] assms(2) by (simp split: option.split)
qed

text \<open>
  C33: A run that does not end with 0 or 74 creates no directory and writes no file: whatever the
  plugins and the diagnostic leave unchanged is unchanged at its end. In particular nothing is
  written when the plugins return other files than those asked for.
\<close>

theorem nothing_written_unless_accepted:
  assumes "\<And>w tool input. I w \<Longrightarrow> I (fst (exec_plugin out w tool input))"
    and "\<And>w line. I w \<Longrightarrow> I (fst (write_stderr out w line))"
    and "I w" and "snd (run_protogen pr out argv w) \<notin> {0, 74}"
  shows "I (fst (run_protogen pr out argv w))"
  using assms(3,4) generate_keeps [of I out w, OF assms(1)]
  by (intro run_protogen_keeps [where I = I, OF assms(2)]) (auto simp: run_protogen_code split: sum.splits)

text \<open>Plugins that return two files, over a world that is the list of the paths written.\<close>

definition sample_outside :: "string list outside" where
  "sample_outside =
     \<lparr> read_file = (\<lambda>w p. Inr []), compile = (\<lambda>w rt name. Inr [diamond]), marshal_request = (\<lambda>r. Inr []),
       exec_plugin = (\<lambda>w tool input. (w, Inr tool)),
       unmarshal_response = (\<lambda>tool. Inr ([], [\<lparr> Name = ''proto/'' @ tool, Content = [] \<rparr>])),
       mkdir_all = (\<lambda>w p mode. (w, None)), write_file = (\<lambda>w p s mode. (w @ [p], None)), write_stderr = (\<lambda>w s. (w, None)) \<rparr>"

definition sample_config :: "string list \<Rightarrow> config" where
  "sample_config names = \<lparr> root = ''.'', proto = ''top.proto'', goOut = ''gen'', outputs = names \<rparr>"

lemma sample_parse:
  "names \<noteq> [] \<Longrightarrow> parseArgs pr (command_line (sample_config names)) = Inr (sample_config names)"
  by (simp add: parseArgs_def parse_command_line sample_config_def)

lemmas sample_evaluation =
  run_protogen_def generate_def compileRequest_def runPlugins_def runPlugin_def checkOutputs_def
  sample_outside_def sample_parse

theorem nothing_written_unless_accepted_witness:
  "snd (run_protogen (\<lambda>r. True) sample_outside (command_line (sample_config [''protoc-gen-go''])) []) = 1 \<and>
   fst (run_protogen (\<lambda>r. True) sample_outside (command_line (sample_config [''protoc-gen-go''])) []) = [] \<and>
   snd (run_protogen (\<lambda>r. True) sample_outside (command_line (sample_config [''protoc-gen-go'', ''protoc-gen-go-grpc''])) []) = 0 \<and>
   fst (run_protogen (\<lambda>r. True) sample_outside (command_line (sample_config [''protoc-gen-go'', ''protoc-gen-go-grpc''])) [])
     = [''gen/proto/protoc-gen-go'', ''gen/proto/protoc-gen-go-grpc'']"
proof -
  have 1: "snd (run_protogen (\<lambda>r. True) sample_outside (command_line (sample_config [''protoc-gen-go''])) []) = 1"
    by (simp add: sample_evaluation) (simp add: sample_config_def filepath_Base_def Let_def exitCode_def saying_def)
  moreover have "fst (run_protogen (\<lambda>r. True) sample_outside (command_line (sample_config [''protoc-gen-go''])) []) = []"
    using 1 by (intro nothing_written_unless_accepted [where I = "\<lambda>w. w = []"]) (simp_all add: sample_outside_def)
  moreover have "run_protogen (\<lambda>r. True) sample_outside (command_line (sample_config [''protoc-gen-go'', ''protoc-gen-go-grpc''])) []
      = ([''gen/proto/protoc-gen-go'', ''gen/proto/protoc-gen-go-grpc''], 0)"
    by (simp add: sample_evaluation)
      (simp add: sample_config_def filepath_Base_def filepath_Join_def filepath_Clean_def rooted_def Let_def exitCode_def insert_commute)
  ultimately show ?thesis by simp
qed

section \<open>Where the files go\<close>

lemma run_each_files:
  assumes "\<And>stdout msg files f. unmarshal_response out stdout = Inr (msg, files) \<Longrightarrow> f \<in> set files \<Longrightarrow> P f"
  shows "run_each out input tools files w = (w', Inr files') \<Longrightarrow> \<forall>f \<in> set files. P f \<Longrightarrow> \<forall>f \<in> set files'. P f"
proof (induction tools arbitrary: files w)
  case (Cons tool tools)
  obtain w1 res where p: "runPlugin out w tool input = (w1, res)" by fastforce
  with Cons.prems(1) obtain produced where res: "res = Inr produced" by (cases res) auto
  with p assms have "\<forall>f \<in> set produced. P f" by (fastforce simp: runPlugin_def split: prod.splits sum.splits if_splits)
  with Cons.IH [of "files @ produced" w1] Cons.prems p res show ?case by auto
qed simp

lemma writeFiles_keeps:
  assumes "\<And>w p. under dir p \<Longrightarrow> I w \<Longrightarrow> I (fst (mkdir_all out w p generatedDirMode))"
    and "\<And>w p s. under dir p \<Longrightarrow> I w \<Longrightarrow> I (fst (write_file out w p s generatedFileMode))"
    and "dir \<noteq> []"
  shows "\<forall>f \<in> set files. local_name (Name f) \<Longrightarrow> I w \<Longrightarrow> I (fst (writeFiles out dir files w))"
proof (induction files arbitrary: w)
  case (Cons f files)
  let ?target = "filepath_Join [dir, Name f]"
  obtain w1 e1 where mk: "mkdir_all out w (filepath_Dir ?target) generatedDirMode = (w1, e1)" by fastforce
  obtain w2 e2 where wr: "write_file out w1 ?target (Content f) generatedFileMode = (w2, e2)" by fastforce
  have at: "under dir ?target" "under dir (filepath_Dir ?target)" using Join_under [OF assms(3)] Cons.prems(1) by simp_all
  from assms(1) [OF at(2) Cons.prems(2)] mk have "I w1" by simp
  moreover from assms(2) [OF at(1) this, of "Content f"] wr have "I w2" by simp
  ultimately show ?case using Cons mk wr by (simp split: option.split)
qed simp


text \<open>Plugins that return one file each.\<close>

definition returning :: "string \<Rightarrow> string \<Rightarrow> string list outside" where
  "returning a b = sample_outside\<lparr>unmarshal_response :=
     (\<lambda>tool. Inr ([], [\<lparr> Name = if tool = ''protoc-gen-go'' then a else b, Content = [] \<rparr>]))\<rparr>"

abbreviation two_outputs :: "string list" where
  "two_outputs \<equiv> [''a.pb.go'', ''b.pb.go'']"

lemmas returning_evaluation =
  sample_evaluation returning_def filepath_Base_def filepath_Join_def filepath_Clean_def rooted_def exitCode_def


text \<open>
  The names must be checked by nobody but the plugins: the base names alone are compared, so a name
  that climbs is written outside of the directory, and the run succeeds.
\<close>

lemma climbing_output_is_written:
  "run_protogen (\<lambda>r. True) (returning ''../a.pb.go'' ''b.pb.go'') (command_line (sample_config two_outputs)) []
     = ([''a.pb.go'', ''gen/b.pb.go''], 0)"
  "\<not> under ''gen'' ''a.pb.go''"
  by (simp add: returning_evaluation, simp add: sample_config_def Let_def)
    (simp add: under_def elements_def rooted_def)

end
