(* ===== verification/Go_Text.thy ===== *)
theory Go_Text
  imports Tools
begin

text \<open>
  What the comment checker uses of Go's \<^verbatim>\<open>strings\<close>, \<^verbatim>\<open>unicode\<close> and
  \<^verbatim>\<open>strconv\<close>: texts read rune by rune, white space, fields and lines, and the value of
  a quoted string.
\<close>

section \<open>Runes\<close>

text \<open>The size and the value of the first rune; an ill-formed byte is U+FFFD and takes one byte.\<close>

definition rune_size :: "string \<Rightarrow> nat" where
  "rune_size s = max 1 (utf8_size s)"

definition first_rune :: "string \<Rightarrow> nat" where
  "first_rune s = (if utf8_size s = 0 then 0xFFFD else utf8_rune (take (utf8_size s) s))"

lemma rune_size_pos [simp]: "0 < rune_size s"
  by (simp add: rune_size_def)

lemma rune_size_ge [simp]: "Suc 0 \<le> rune_size s"
  by (simp add: rune_size_def)

lemma rune_size_le: "s \<noteq> [] \<Longrightarrow> rune_size s \<le> length s"
  using utf8_size_le [of s] by (cases s) (simp_all add: rune_size_def)

lemma rune_size_ascii [simp]: "byte c < 0x80 \<Longrightarrow> rune_size (c # s) = 1"
  by (simp add: rune_size_def)

lemma first_rune_ascii [simp]: "byte c < 0x80 \<Longrightarrow> first_rune (c # s) = byte c"
  by (simp add: first_rune_def utf8_rune_def)

text \<open>\<^verbatim>\<open>unicode.IsSpace\<close>.\<close>

definition IsSpace :: "nat \<Rightarrow> bool" where
  "IsSpace r \<longleftrightarrow>
     r \<in> {0x09, 0x0A, 0x0B, 0x0C, 0x0D, 0x20, 0x85, 0xA0, 0x1680, 0x2028, 0x2029, 0x202F, 0x205F, 0x3000} \<or>
     (0x2000 \<le> r \<and> r \<le> 0x200A)"

text \<open>\<^verbatim>\<open>strings.IndexFunc\<close>: the byte index of the first rune with the property.\<close>

function index_func :: "(nat \<Rightarrow> bool) \<Rightarrow> string \<Rightarrow> nat option" where
  "index_func f s =
     (if s = [] then None
      else if f (first_rune s) then Some 0
      else map_option ((+) (rune_size s)) (index_func f (drop (rune_size s) s)))"
  by pat_completeness auto
termination
  by (relation "measure (\<lambda>(f, s). length s)") auto

text \<open>\<^verbatim>\<open>strings.TrimLeftFunc\<close> and its mirror image, for which the last rune is a
  suffix that is a rune on its own, or one ill-formed byte.\<close>

function trim_left :: "(nat \<Rightarrow> bool) \<Rightarrow> string \<Rightarrow> string" where
  "trim_left f s =
     (if s = [] then [] else if f (first_rune s) then trim_left f (drop (rune_size s) s) else s)"
  by pat_completeness auto
termination
  by (relation "measure (\<lambda>(f, s). length s)") auto

definition ends_in_rune :: "nat \<Rightarrow> string \<Rightarrow> bool" where
  "ends_in_rune k s \<longleftrightarrow> k \<le> length s \<and> utf8_size (drop (length s - k) s) = k"

definition last_rune_size :: "string \<Rightarrow> nat" where
  "last_rune_size s =
     (if ends_in_rune 2 s then 2 else if ends_in_rune 3 s then 3 else if ends_in_rune 4 s then 4 else 1)"

lemma last_rune_size_pos [simp]: "0 < last_rune_size s"
  by (simp add: last_rune_size_def)

function trim_right :: "(nat \<Rightarrow> bool) \<Rightarrow> string \<Rightarrow> string" where
  "trim_right f s =
     (if s = [] then []
      else if f (first_rune (drop (length s - last_rune_size s) s))
      then trim_right f (take (length s - last_rune_size s) s)
      else s)"
  by pat_completeness auto
termination
  by (relation "measure (\<lambda>(f, s). length s)") auto

definition trim_space :: "string \<Rightarrow> string" where
  "trim_space s = trim_right IsSpace (trim_left IsSpace s)"

declare index_func.simps [simp del] trim_left.simps [simp del] trim_right.simps [simp del]

lemma index_func_less: "index_func f s = Some i \<Longrightarrow> i < length s"
proof (induction f s arbitrary: i rule: index_func.induct)
  case (1 f s)
  from "1.prems" have s: "s \<noteq> []" by (auto simp: index_func.simps [of f s])
  show ?case
  proof (cases "f (first_rune s)")
    case False
    with s "1.prems" obtain j where j: "index_func f (drop (rune_size s) s) = Some j" "i = rune_size s + j"
      by (auto simp: index_func.simps [of f s])
    with "1.IH" s False have "j < length (drop (rune_size s) s)" by blast
    with j show ?thesis by simp
  qed (use s "1.prems" in \<open>simp add: index_func.simps [of f s]\<close>)
qed

lemma length_trim_left: "length (trim_left f s) \<le> length s"
proof (induction f s rule: trim_left.induct)
  case (1 f s)
  then show ?case by (auto simp: trim_left.simps [of f s])
qed

lemma length_trim_right: "length (trim_right f s) \<le> length s"
proof (induction f s rule: trim_right.induct)
  case (1 f s)
  then show ?case by (auto simp: trim_right.simps [of f s])
qed

lemma length_trim_space: "length (trim_space s) \<le> length s"
  unfolding trim_space_def using length_trim_left length_trim_right le_trans by blast

lemma trim_left_first: "trim_left f s = c # t \<Longrightarrow> \<not> f (first_rune (c # t))"
proof (induction f s rule: trim_left.induct)
  case (1 f s)
  then show ?case by (auto simp: trim_left.simps [of f s] split: if_splits)
qed

text \<open>\<^verbatim>\<open>strings.Fields\<close> and \<^verbatim>\<open>strings.Lines\<close>.\<close>

function strings_Fields :: "string \<Rightarrow> string list" where
  "strings_Fields s =
     (case trim_left IsSpace s of
        [] \<Rightarrow> []
      | t \<Rightarrow>
          (case index_func IsSpace t of
             None \<Rightarrow> [t]
           | Some i \<Rightarrow> take i t # strings_Fields (drop i t)))"
  by pat_completeness auto
termination
proof (relation "measure length")
  fix s c t i
  assume t: "trim_left IsSpace s = c # t" and i: "index_func IsSpace (c # t) = Some i"
  have "i \<noteq> 0"
    using i trim_left_first [OF t] by (auto simp: index_func.simps [of IsSpace "c # t"] split: if_splits)
  with length_trim_left [of IsSpace s] t show "(drop i (c # t), s) \<in> measure length" by simp
qed simp

declare strings_Fields.simps [simp del]

fun go_lines :: "string \<Rightarrow> string list" where
  "go_lines [] = []"
| "go_lines (c # s) =
     (if c = LF then [c] # go_lines s
      else (case s of [] \<Rightarrow> [[c]] | _ \<Rightarrow> (case go_lines s of l # ls \<Rightarrow> (c # l) # ls | [] \<Rightarrow> [[c]])))"

section \<open>Quoted strings\<close>

abbreviation BQ :: char where "BQ \<equiv> CHR 0x60"

text \<open>\<^verbatim>\<open>strconv.UnquoteChar\<close> within double quotes: the bytes of the next character and the rest.\<close>

fun unhex :: "string \<Rightarrow> nat option" where
  "unhex ds = foldl (\<lambda>acc c. case (acc, hex_val c) of (Some v, Some x) \<Rightarrow> Some (v * 16 + x) | _ \<Rightarrow> None) (Some 0) ds"

definition unquote_hex :: "nat \<Rightarrow> bool \<Rightarrow> string \<Rightarrow> (string \<times> string) option" where
  "unquote_hex n raw s =
     (if length s < n then None
      else (case unhex (take n s) of
              None \<Rightarrow> None
            | Some v \<Rightarrow>
                if raw then Some ([chr v], drop n s)
                else if is_surrogate v \<or> 0x10FFFF < v then None
                else Some (utf8_encode v, drop n s)))"

definition is_octal :: "char \<Rightarrow> bool" where
  "is_octal c \<longleftrightarrow> 48 \<le> byte c \<and> byte c \<le> 55"

definition unquote_octal :: "char \<Rightarrow> string \<Rightarrow> (string \<times> string) option" where
  "unquote_octal c s =
     (case s of
        a # b # rest \<Rightarrow>
          (let v = (digit_val c * 8 + digit_val a) * 8 + digit_val b in
           if is_octal a \<and> is_octal b \<and> v \<le> 255 then Some ([chr v], rest) else None)
      | _ \<Rightarrow> None)"

definition unquote_escape :: "char \<Rightarrow> string \<Rightarrow> (string \<times> string) option" where
  "unquote_escape c s =
     (if c = CHR ''a'' then Some ([chr 7], s)
      else if c = CHR ''b'' then Some ([chr 8], s)
      else if c = CHR ''f'' then Some ([chr 12], s)
      else if c = CHR ''n'' then Some ([chr 10], s)
      else if c = CHR ''r'' then Some ([chr 13], s)
      else if c = CHR ''t'' then Some ([chr 9], s)
      else if c = CHR ''v'' then Some ([chr 11], s)
      else if c = CHR ''x'' then unquote_hex 2 True s
      else if c = CHR ''u'' then unquote_hex 4 False s
      else if c = CHR ''U'' then unquote_hex 8 False s
      else if is_octal c then unquote_octal c s
      else if c = BSL \<or> c = DQ then Some ([c], s)
      else None)"

definition unquote_char :: "string \<Rightarrow> (string \<times> string) option" where
  "unquote_char s =
     (case s of
        [] \<Rightarrow> None
      | c # t \<Rightarrow>
          if c = LF then None
          else if 0x80 \<le> byte c then Some (utf8_encode (first_rune s), drop (rune_size s) s)
          else if c \<noteq> BSL then Some ([c], t)
          else (case t of [] \<Rightarrow> None | e # rest \<Rightarrow> unquote_escape e rest))"

lemma unquote_char_shorter: "unquote_char s = Some (q, r) \<Longrightarrow> length r < length s"
  by (auto simp: unquote_char_def unquote_escape_def unquote_hex_def unquote_octal_def Let_def
      split: list.splits if_splits option.splits)

text \<open>The characters up to the closing quote, which has to end the text.\<close>

function unquote_chars :: "string \<Rightarrow> string option" where
  "unquote_chars s =
     (case s of
        [] \<Rightarrow> None
      | c # t \<Rightarrow>
          if c = DQ then (if t = [] then Some [] else None)
          else (case unquote_char s of
                  None \<Rightarrow> None
                | Some (q, r) \<Rightarrow> map_option ((@) q) (unquote_chars r)))"
  by pat_completeness auto
termination
  by (relation "measure length") (auto dest: unquote_char_shorter)

declare unquote_chars.simps [simp del]

text \<open>
  \<^verbatim>\<open>strconv.Unquote\<close> on a text that starts with a double quote or a back quote. Within back
  quotes a carriage return is dropped.
\<close>

definition strconv_Unquote :: "string \<Rightarrow> string option" where
  "strconv_Unquote w =
     (case w of
        [] \<Rightarrow> None
      | q # t \<Rightarrow>
          if q = BQ then
            (case cut_byte BQ t of
               (body, rest, found) \<Rightarrow>
                 if found \<and> rest = [] then Some (filter (\<lambda>c. byte c \<noteq> 13) body) else None)
          else if q = DQ then unquote_chars t
          else None)"

section \<open>Printable ASCII\<close>

text \<open>Bytes that stand for themselves, and that neither end a field nor are trimmed.\<close>

definition graphic :: "char \<Rightarrow> bool" where
  "graphic c \<longleftrightarrow> 0x21 \<le> byte c \<and> byte c < 0x7F"

lemma graphic_ascii: "graphic c \<Longrightarrow> byte c < 0x80"
  by (simp add: graphic_def)

lemma graphic_not_space: "graphic c \<Longrightarrow> \<not> IsSpace (byte c)"
  by (auto simp: graphic_def IsSpace_def)

lemma graphic_marks [simp]: "graphic DQ" "graphic BQ" "\<not> graphic (CHR '' '')" "\<not> graphic LF"
  by (simp_all add: graphic_def DQ_def LF_def)

lemma trim_left_blank [simp]: "trim_left IsSpace (CHR '' '' # s) = trim_left IsSpace s"
  by (simp add: trim_left.simps [of IsSpace "CHR '' '' # s"] IsSpace_def)

lemma trim_left_graphic: "graphic c \<Longrightarrow> trim_left IsSpace (c # s) = c # s"
  by (simp add: trim_left.simps [of IsSpace "c # s"] graphic_ascii graphic_not_space)

lemma not_ends_in_long_rune:
  assumes "byte c < 0x80" and "1 < k"
  shows "\<not> ends_in_rune k (s @ [c])"
proof
  let ?t = "drop (length (s @ [c]) - k) (s @ [c])"
  assume "ends_in_rune k (s @ [c])"
  then have k: "k \<le> Suc (length s)" "utf8_size ?t = k" by (simp_all add: ends_in_rune_def)
  then have "take (utf8_size ?t) ?t = ?t" and "c \<in> set ?t" using assms(2) by auto
  with utf8_multi_high [of ?t c] k(2) assms show False by simp
qed

lemma trim_right_graphic: "graphic c \<Longrightarrow> trim_right IsSpace (s @ [c]) = s @ [c]"
  by (simp add: trim_right.simps [of IsSpace "s @ [c]"] last_rune_size_def not_ends_in_long_rune
      graphic_ascii graphic_not_space)

lemma trim_space_graphic:
  assumes "s \<noteq> []" and "graphic (hd s)" and "graphic (last s)"
  shows "trim_space s = s"
proof -
  have "trim_left IsSpace s = s" using trim_left_graphic [of "hd s" "tl s"] assms by simp
  moreover have "trim_right IsSpace s = s"
    using trim_right_graphic [of "last s" "butlast s"] assms by simp
  ultimately show ?thesis by (simp add: trim_space_def)
qed

lemma trim_space_blank [simp]: "trim_space (CHR '' '' # s) = trim_space s"
  by (simp add: trim_space_def)

lemma trim_space_Nil [simp]: "trim_space [] = []"
  by (simp add: trim_space_def trim_left.simps trim_right.simps)

lemma index_func_graphic:
  "list_all graphic w \<Longrightarrow> index_func IsSpace (w @ r) = map_option ((+) (length w)) (index_func IsSpace r)"
proof (induction w)
  case (Cons c w)
  then have "graphic c" by simp
  with Cons show ?case
    by (simp add: index_func.simps [of IsSpace "c # w @ r"] graphic_ascii graphic_not_space option.map_comp)
      (simp add: comp_def)
qed (cases "index_func IsSpace r"; simp)

lemma index_func_Nil [simp]: "index_func f [] = None"
  by (simp add: index_func.simps)

lemma index_func_blank [simp]: "index_func IsSpace (CHR '' '' # s) = Some 0"
  by (simp add: index_func.simps [of IsSpace "CHR '' '' # s"] IsSpace_def)

lemma unquote_chars_plain:
  "list_all (\<lambda>c. byte c < 0x80 \<and> c \<notin> {DQ, BSL, LF}) w \<Longrightarrow> unquote_chars (w @ [DQ]) = Some w"
proof (induction w)
  case Nil
  then show ?case by (simp add: unquote_chars.simps)
next
  case (Cons c w)
  then have "unquote_char (c # w @ [DQ]) = Some ([c], w @ [DQ])" and "c \<noteq> DQ" by (simp_all add: unquote_char_def)
  with Cons show ?case by (simp add: unquote_chars.simps [of "c # w @ [DQ]"])
qed

end
