(* ===== verification/Directives.thy ===== *)
theory Directives
  imports Go_Text
begin

text \<open>
  \<^verbatim>\<open>tools/commentcheck/directives.go\<close>: the words of a \<^verbatim>\<open>//go:\<close> directive,
  which directives are known, which generators are pinned, and the tools a module declares. The
  file system, the tables of \<^verbatim>\<open>unicode\<close> and the parser of build constraints are
  parameters. Collecting the outputs of the generators of a directory is in the theory of the
  comments, next to the syntax it walks.
\<close>

section \<open>The outside\<close>

text \<open>
  \<^verbatim>\<open>os.Stat\<close> says whether a path is a directory, \<^verbatim>\<open>filepath.Glob\<close> lists the
  matches of a pattern; None is an error.
\<close>

record tree_env =
  IsUpper :: "nat \<Rightarrow> bool"
  IsLower :: "nat \<Rightarrow> bool"
  IsDigit :: "nat \<Rightarrow> bool"
  IsPrint :: "nat \<Rightarrow> bool"
  ConstraintParse :: "string \<Rightarrow> bool"
  Stat :: "string \<Rightarrow> bool option"
  ReadFile :: "string \<Rightarrow> string option"
  Abs :: "string \<Rightarrow> string option"
  Glob :: "string \<Rightarrow> string list option"

section \<open>Splitting\<close>

definition toolDirective :: string where "toolDirective = ''tool''"

record directive =
  directive_name :: string
  directive_arguments :: "string list"

fun closing_from :: "char \<Rightarrow> string \<Rightarrow> int \<Rightarrow> int" where
  "closing_from q [] index = -1"
| "closing_from q (c # s) index =
     (if c = BSL \<and> q = DQ then (case s of [] \<Rightarrow> -1 | _ # s' \<Rightarrow> closing_from q s' (index + 2))
      else if c = q then index
      else closing_from q s (index + 1))"

definition closingQuote :: "string \<Rightarrow> int" where
  "closingQuote word = closing_from (hd word) (tl word) 1"

definition unquotePattern :: "string \<Rightarrow> string option" where
  "unquotePattern word = (if hd word \<noteq> DQ \<and> hd word \<noteq> BQ then Some word else strconv_Unquote word)"

text \<open>Where the first word of a non-empty text ends.\<close>

definition word_end :: "string \<Rightarrow> nat" where
  "word_end rest =
     (let e = (if hd rest = DQ \<or> hd rest = BQ then closingQuote rest + 1
               else (case index_func IsSpace rest of Some i \<Rightarrow> int i | None \<Rightarrow> -1))
      in if e \<le> 0 then length rest else nat e)"

lemma word_end_pos: "rest \<noteq> [] \<Longrightarrow> 0 < word_end rest"
  by (auto simp: word_end_def Let_def)

function words_from :: "string \<Rightarrow> string list \<Rightarrow> string list option" where
  "words_from s patterns =
     (let rest = trim_space s in
      if rest = [] then Some patterns
      else (case unquotePattern (take (word_end rest) rest) of
              None \<Rightarrow> None
            | Some pattern \<Rightarrow> words_from (drop (word_end rest) rest) (patterns @ [pattern])))"
  by pat_completeness auto
termination
proof (relation "measure (\<lambda>(s, patterns). length s)")
  fix s patterns rest pattern
  assume "rest = trim_space s" "rest \<noteq> []"
  then have "length (drop (word_end rest) rest) < length s"
    using word_end_pos [of rest] length_trim_space [of s] by (metis diff_less le_less_trans length_drop length_greater_0_conv not_le order.strict_trans2)
  then show "((drop (word_end rest) rest, patterns @ [pattern]), s, patterns) \<in> measure (\<lambda>(s, patterns). length s)"
    by simp
qed simp

declare words_from.simps [simp del]

definition directiveWords :: "string \<Rightarrow> string list option" where
  "directiveWords arguments = words_from arguments []"

definition splitDirective :: "string \<Rightarrow> directive" where
  "splitDirective comment =
     (let (line, isGoDirective) = cut_prefix ''//go:'' comment;
          nameEnd = (case index_func IsSpace line of Some i \<Rightarrow> i | None \<Rightarrow> length line)
      in (case directiveWords (drop nameEnd line) of
            Some arguments \<Rightarrow>
              if \<not> isGoDirective \<or> nameEnd = 0 then \<lparr> directive_name = [], directive_arguments = [] \<rparr>
              else \<lparr> directive_name = take nameEnd line, directive_arguments = arguments \<rparr>
          | None \<Rightarrow> \<lparr> directive_name = [], directive_arguments = [] \<rparr>))"

section \<open>Generators and tools\<close>

fun outputFlagValues :: "string list \<Rightarrow> string list" where
  "outputFlagValues [] = []"
| "outputFlagValues (argument # rest) =
     (case cut_byte (CHR ''='') argument of
        (flagName, v, hasValue) \<Rightarrow>
          if flagName \<noteq> ''-output'' \<and> flagName \<noteq> ''-o'' then outputFlagValues rest
          else if hasValue then v # outputFlagValues rest
          else (case rest of [] \<Rightarrow> [] | next_argument # _ \<Rightarrow> next_argument # outputFlagValues rest))"

definition isVersionedModule :: "string \<Rightarrow> bool" where
  "isVersionedModule command =
     (case cut_byte (CHR ''@'') command of
        (module, version, versioned) \<Rightarrow>
          versioned \<and> CHR ''.'' \<in> set module \<and> \<not> prefix ''.'' module \<and> prefix ''v'' version)"

definition isLocalPackage :: "tree_env \<Rightarrow> string \<Rightarrow> string \<Rightarrow> bool" where
  "isLocalPackage env directory command =
     (if command \<noteq> ''.'' \<and> \<not> prefix ''./'' command \<and> \<not> prefix ''../'' command then False
      else Stat env (filepath_Join [directory, command]) = Some True)"

fun isFlagList :: "string list \<Rightarrow> bool" where
  "isFlagList [] = True"
| "isFlagList (argument # rest) =
     (if \<not> prefix ''-'' argument then False
      else if CHR ''='' \<in> set argument then isFlagList rest
      else (case rest of
              [] \<Rightarrow> True
            | v # rest' \<Rightarrow> if \<not> prefix ''-'' v then isFlagList rest' else isFlagList rest))"

text \<open>
  \<^verbatim>\<open>moduleRoot\<close> climbs from the directory; it stops at a path that is its own directory.
\<close>

function climb :: "tree_env \<Rightarrow> string \<Rightarrow> string option" where
  "climb env current =
     (if Stat env (filepath_Join [current, ''go.mod'']) \<noteq> None then Some current
      else if filepath_Dir current = current then None
      else climb env (filepath_Dir current))"
  by pat_completeness auto
termination
  by (relation "measure (\<lambda>(env, current). height current)") (simp_all add: height_Dir)

declare climb.simps [simp del]

definition moduleRoot :: "tree_env \<Rightarrow> string \<Rightarrow> string option" where
  "moduleRoot env directory = (case Abs env directory of None \<Rightarrow> None | Some absolute \<Rightarrow> climb env absolute)"

definition tool_line :: "string list \<times> bool \<Rightarrow> string \<Rightarrow> string list \<times> bool" where
  "tool_line st line =
     (case st of (tools, inToolBlock) \<Rightarrow>
       (case strings_Fields line of
          [] \<Rightarrow> (tools, inToolBlock)
        | w # ws \<Rightarrow>
            if inToolBlock \<and> w = '')'' then (tools, False)
            else if inToolBlock then (tools @ [w, filepath_Base w], inToolBlock)
            else if w = toolDirective \<and> ws = [''(''] then (tools, True)
            else if w = toolDirective \<and> length ws = 1 then (tools @ [hd ws, filepath_Base (hd ws)], inToolBlock)
            else (tools, inToolBlock)))"

definition declaredTools :: "tree_env \<Rightarrow> string \<Rightarrow> string list" where
  "declaredTools env directory =
     (case moduleRoot env directory of
        None \<Rightarrow> []
      | Some root_dir \<Rightarrow>
          (case ReadFile env (filepath_Join [root_dir, ''go.mod'']) of
             None \<Rightarrow> []
           | Some manifest \<Rightarrow> fst (foldl tool_line ([], False) (go_lines manifest))))"

definition isPinnedGenerator :: "tree_env \<Rightarrow> string \<Rightarrow> string list \<Rightarrow> bool" where
  "isPinnedGenerator env directory arguments =
     (case arguments of
        a # b # command # flags \<Rightarrow>
          if a \<noteq> ''go'' \<or> \<not> isFlagList flags then False
          else if b = ''run'' then isVersionedModule command \<or> isLocalPackage env directory command
          else if b = toolDirective then command \<in> set (declaredTools env directory)
          else False
      | _ \<Rightarrow> False)"

section \<open>Known directives\<close>

definition trim_prefix :: "string \<Rightarrow> string \<Rightarrow> string" where
  "trim_prefix p s = fst (cut_prefix p s)"

definition matchesAFile :: "tree_env \<Rightarrow> string \<Rightarrow> string \<Rightarrow> bool" where
  "matchesAFile env directory pattern =
     (case Glob env (filepath_Join [directory, trim_prefix ''all:'' pattern]) of
        None \<Rightarrow> False
      | Some matches \<Rightarrow> matches \<noteq> [])"

definition isSetting :: "tree_env \<Rightarrow> string \<Rightarrow> bool" where
  "isSetting env argument =
     (case cut_byte (CHR ''='') argument of
        (key, v, hasValue) \<Rightarrow>
          hasValue \<and> key \<noteq> [] \<and> v \<noteq> [] \<and>
          index_func (\<lambda>letter. \<not> IsLower env letter \<and> \<not> IsDigit env letter) key = None)"

definition isKnownDirective :: "tree_env \<Rightarrow> string \<Rightarrow> string \<Rightarrow> bool" where
  "isKnownDirective env directory comment =
     (let found = splitDirective comment; arguments = directive_arguments found; nm = directive_name found in
      if nm \<in> {''noinline'', ''nosplit'', ''noescape'', ''norace'', ''uintptrescapes''} then arguments = []
      else if nm = ''build'' then ConstraintParse env comment
      else if nm = ''generate'' then isPinnedGenerator env directory arguments
      else if nm = ''embed'' then arguments \<noteq> [] \<and> list_all (matchesAFile env directory) arguments
      else if nm = ''fix'' then arguments = [''inline'']
      else if nm = ''debug'' then (case arguments of [a] \<Rightarrow> isSetting env a | _ \<Rightarrow> False)
      else False)"

section \<open>The words of a directive\<close>

text \<open>Three spellings of a word: as it is, within back quotes, within double quotes.\<close>

datatype spelling = Plain string | Raw string | Quoted string

fun spelled :: "spelling \<Rightarrow> string" where
  "spelled (Plain w) = w"
| "spelled (Raw w) = BQ # w @ [BQ]"
| "spelled (Quoted w) = DQ # w @ [DQ]"

fun meant :: "spelling \<Rightarrow> string" where
  "meant (Plain w) = w" | "meant (Raw w) = w" | "meant (Quoted w) = w"

fun spellable :: "spelling \<Rightarrow> bool" where
  "spellable (Plain w) = (w \<noteq> [] \<and> list_all graphic w \<and> hd w \<notin> {DQ, BQ})"
| "spellable (Raw w) = list_all (\<lambda>c. c \<noteq> BQ \<and> byte c \<noteq> 13) w"
| "spellable (Quoted w) = list_all (\<lambda>c. byte c < 0x80 \<and> c \<notin> {DQ, BSL, LF}) w"

lemma spelled_ends: "spellable w \<Longrightarrow> spelled w \<noteq> [] \<and> graphic (hd (spelled w)) \<and> graphic (last (spelled w))"
  by (cases w) (auto simp: list_all_iff)

lemma closing_from_append:
  "list_all (\<lambda>c. c \<noteq> q \<and> (q = DQ \<longrightarrow> c \<noteq> BSL)) w \<Longrightarrow> q \<noteq> BSL \<Longrightarrow> closing_from q (w @ q # r) i = i + int (length w)"
  by (induction w arbitrary: i) auto

lemma word_end_spelled:
  assumes "spellable w" and "r = [] \<or> hd r = CHR '' ''"
  shows "word_end (spelled w @ r) = length (spelled w)"
proof (cases w)
  case (Plain v)
  have "index_func IsSpace (v @ r) = (if r = [] then None else Some (length v))"
    using assms Plain index_func_graphic [of v r] by (cases r) auto
  then show ?thesis using assms(1) Plain by (auto simp: word_end_def)
next
  case (Raw v)
  then have "list_all (\<lambda>c. c \<noteq> BQ \<and> (BQ = DQ \<longrightarrow> c \<noteq> BSL)) v" using assms(1) by (auto simp: list_all_iff DQ_def)
  then show ?thesis using Raw by (simp add: word_end_def closingQuote_def closing_from_append BSL_def)
next
  case (Quoted v)
  then have "list_all (\<lambda>c. c \<noteq> DQ \<and> (DQ = DQ \<longrightarrow> c \<noteq> BSL)) v" using assms(1) by (auto simp: list_all_iff)
  moreover have "DQ \<noteq> BSL" by (simp add: DQ_def BSL_def)
  ultimately show ?thesis using Quoted by (simp add: word_end_def closingQuote_def closing_from_append)
qed

lemma unquote_spelled: "spellable w \<Longrightarrow> unquotePattern (spelled w) = Some (meant w)"
proof (cases w)
  case (Raw v)
  moreover assume "spellable w"
  ultimately have "BQ \<notin> set v" and "filter (\<lambda>c. byte c \<noteq> 13) v = v" by (auto simp: list_all_iff)
  then show ?thesis using Raw by (simp add: unquotePattern_def strconv_Unquote_def cut_byte_append)
next
  case (Quoted v)
  moreover have "DQ \<noteq> BQ" by (simp add: DQ_def)
  moreover assume "spellable w"
  ultimately show ?thesis by (simp add: unquotePattern_def strconv_Unquote_def unquote_chars_plain)
qed (simp add: unquotePattern_def)

fun tail_words :: "spelling list \<Rightarrow> string" where
  "tail_words [] = []"
| "tail_words (w # ws) = CHR '' '' # spelled w @ tail_words ws"

lemma last_tail_words: "list_all spellable ws \<Longrightarrow> ws \<noteq> [] \<Longrightarrow> tail_words ws \<noteq> [] \<and> graphic (last (tail_words ws))"
proof (induction ws)
  case (Cons w ws)
  then show ?case using spelled_ends [of w] by (cases ws) auto
qed simp

lemma trim_words:
  assumes "spellable w" and "list_all spellable ws"
  shows "trim_space (spelled w @ tail_words ws) = spelled w @ tail_words ws"
  using assms spelled_ends [of w] last_tail_words [of ws]
  by (intro trim_space_graphic) (cases ws; simp)+

lemma words_from_tail: "list_all spellable ws \<Longrightarrow> words_from (tail_words ws) acc = Some (acc @ map meant ws)"
proof (induction ws arbitrary: acc)
  case Nil
  then show ?case by (simp add: words_from.simps)
next
  case (Cons w ws)
  then have w: "spellable w" and ws: "list_all spellable ws" by simp_all
  have "word_end (spelled w @ tail_words ws) = length (spelled w)"
    by (rule word_end_spelled [OF w]) (cases ws; simp)
  then show ?case
    using Cons.IH [OF ws] spelled_ends [OF w] unquote_spelled [OF w]
    by (simp add: words_from.simps [of "CHR '' '' # spelled w @ tail_words ws"] trim_words [OF w ws] Let_def)
qed

lemma words_from_spelled:
  assumes "list_all spellable ws"
  shows "words_from (join_with '' '' (map spelled ws)) [] = Some (map meant ws)"
proof (cases ws)
  case (Cons w ws')
  have "join_with '' '' (map spelled (w # ws')) = spelled w @ tail_words ws'" for w
    by (induction ws' arbitrary: w) simp_all
  moreover have "words_from (spelled w @ tail_words ws') [] = words_from (tail_words ws) []"
    by (simp add: words_from.simps [of "CHR '' '' # spelled w @ tail_words ws'"]
        words_from.simps [of "spelled w @ tail_words ws'"] Cons)
  ultimately show ?thesis using words_from_tail [OF assms, of "[]"] Cons by simp
qed (simp add: words_from.simps)

lemma splitDirective_bare:
  "nm \<noteq> [] \<Longrightarrow> list_all graphic nm \<Longrightarrow> splitDirective (''//go:'' @ nm) = \<lparr> directive_name = nm, directive_arguments = [] \<rparr>"
  using index_func_graphic [of nm "[]"]
  by (simp add: splitDirective_def cut_prefix_def directiveWords_def words_from.simps)

text \<open>
  C39: A directive line spelled with a name and arguments is read back as that name and those
  arguments, whether an argument stands as it is, within back quotes (any bytes but a back quote
  and a carriage return) or within double quotes (ASCII without quote, backslash and line end).
\<close>

theorem directive_roundtrip:
  assumes "nm \<noteq> []" and "list_all graphic nm" and "list_all spellable ws"
  shows "splitDirective (''//go:'' @ nm @ (if ws = [] then [] else '' '' @ join_with '' '' (map spelled ws))) =
    \<lparr> directive_name = nm, directive_arguments = map meant ws \<rparr>"
proof (cases "ws = []")
  case True
  then show ?thesis using splitDirective_bare [OF assms(1,2)] by simp
next
  case False
  have "words_from (CHR '' '' # join_with '' '' (map spelled ws)) [] = Some (map meant ws)"
    using words_from_spelled [OF assms(3)]
    by (simp add: words_from.simps [of "CHR '' '' # join_with '' '' (map spelled ws)"]
        words_from.simps [of "join_with '' '' (map spelled ws)"])
  with False show ?thesis
    using assms(1) index_func_graphic [OF assms(2)]
    by (simp add: splitDirective_def cut_prefix_def directiveWords_def)
qed

theorem directive_roundtrip_witness:
  "splitDirective ''//go:embed data.txt `two words`'' =
    \<lparr> directive_name = ''embed'', directive_arguments = [''data.txt'', ''two words''] \<rparr>"
proof -
  have "splitDirective (''//go:'' @ ''embed'' @ (if [Plain ''data.txt'', Raw ''two words''] = [] then []
      else '' '' @ join_with '' '' (map spelled [Plain ''data.txt'', Raw ''two words''])))
    = \<lparr> directive_name = ''embed'', directive_arguments = map meant [Plain ''data.txt'', Raw ''two words''] \<rparr>"
    by (rule directive_roundtrip) (simp_all add: graphic_def DQ_def)
  then show ?thesis by simp
qed

section \<open>The root of a module\<close>

definition has_manifest :: "tree_env \<Rightarrow> string \<Rightarrow> bool" where
  "has_manifest env dir \<longleftrightarrow> Stat env (filepath_Join [dir, ''go.mod'']) \<noteq> None"

text \<open>The directory that many levels up.\<close>

definition above :: "nat \<Rightarrow> string \<Rightarrow> string" where
  "above n dir = (filepath_Dir ^^ n) dir"

lemma above_Suc: "above (Suc n) dir = above n (filepath_Dir dir)"
  by (simp add: above_def funpow_swap1)

lemma above_0 [simp]: "above 0 dir = dir"
  by (simp add: above_def)

lemma above_top: "filepath_Dir dir = dir \<Longrightarrow> above n dir = dir"
  by (induction n) (simp_all add: above_Suc)

lemma climb_nearest:
  "case climb env dir of
     Some r \<Rightarrow> \<exists>n. r = above n dir \<and> has_manifest env r \<and> (\<forall>m < n. \<not> has_manifest env (above m dir))
   | None \<Rightarrow> \<forall>n. \<not> has_manifest env (above n dir)"
proof (induction env dir rule: climb.induct)
  case (1 env dir)
  consider (here) "has_manifest env dir" | (top) "\<not> has_manifest env dir" "filepath_Dir dir = dir"
    | (up) "\<not> has_manifest env dir" "filepath_Dir dir \<noteq> dir" by blast
  then show ?case
  proof cases
    case here
    then show ?thesis by (auto simp: climb.simps [of env dir] has_manifest_def intro: exI [of _ 0])
  next
    case top
    then show ?thesis by (auto simp: climb.simps [of env dir] has_manifest_def above_top)
  next
    case up
    then have c: "climb env dir = climb env (filepath_Dir dir)"
      by (simp add: climb.simps [of env dir] has_manifest_def)
    have IH: "case climb env (filepath_Dir dir) of
        Some r \<Rightarrow> \<exists>n. r = above n (filepath_Dir dir) \<and> has_manifest env r \<and> (\<forall>m < n. \<not> has_manifest env (above m (filepath_Dir dir)))
      | None \<Rightarrow> \<forall>n. \<not> has_manifest env (above n (filepath_Dir dir))"
      using "1.IH" up by (simp add: has_manifest_def)
    show ?thesis
    proof (cases "climb env (filepath_Dir dir)")
      case None
      then have "\<not> has_manifest env (above n dir)" for n using IH up(1) by (cases n) (simp_all add: above_Suc)
      with None c show ?thesis by simp
    next
      case (Some r)
      then obtain n where n: "r = above (Suc n) dir" "has_manifest env r"
        "\<forall>m < n. \<not> has_manifest env (above (Suc m) dir)" using IH by (auto simp: above_Suc)
      then have "\<not> has_manifest env (above m dir)" if "m < Suc n" for m using up(1) that by (cases m) simp_all
      with Some c n show ?thesis by auto
    qed
  qed
qed

text \<open>
  C40: Climbing to the root of the module always ends, and finds the nearest directory at or above
  the given one that has a go.mod; it reports that there is none exactly when no
  directory above has one or the given one has no absolute path.
\<close>

theorem module_root_is_nearest:
  "case moduleRoot env directory of
     Some r \<Rightarrow> \<exists>dir n. Abs env directory = Some dir \<and> r = above n dir \<and> has_manifest env r \<and>
                (\<forall>m < n. \<not> has_manifest env (above m dir))
   | None \<Rightarrow> \<forall>dir n. \<not> (Abs env directory = Some dir \<and> has_manifest env (above n dir))"
proof (cases "Abs env directory")
  case (Some dir)
  then show ?thesis using climb_nearest [of env dir] by (cases "climb env dir") (auto simp: moduleRoot_def)
qed (simp add: moduleRoot_def)

definition sample_env :: tree_env where
  "sample_env =
     \<lparr> IsUpper = (\<lambda>r. 65 \<le> r \<and> r \<le> 90), IsLower = (\<lambda>r. 97 \<le> r \<and> r \<le> 122), IsDigit = (\<lambda>r. 48 \<le> r \<and> r \<le> 57),
       IsPrint = (\<lambda>r. 32 \<le> r \<and> r < 127), ConstraintParse = (\<lambda>line. line = ''//go:build linux''),
       Stat = (\<lambda>p. if p = ''/m/go.mod'' then Some False else None),
       ReadFile = (\<lambda>p. Some ''module m''), Abs = (\<lambda>p. Some (''/m/'' @ p)), Glob = (\<lambda>p. Some []) \<rparr>"

lemma sample_climb: "climb sample_env ''/m/a/b'' = Some ''/m''"
proof -
  have "filepath_Dir ''/m/a/b'' = ''/m/a''" "filepath_Dir ''/m/a'' = ''/m''"
    by (simp_all add: filepath_Dir_def filepath_Clean_def rooted_def)
  then show ?thesis
    by (simp add: climb.simps sample_env_def filepath_Join_def filepath_Clean_def rooted_def)
qed

theorem module_root_is_nearest_witness:
  "moduleRoot sample_env ''a/b'' = Some ''/m'' \<and>
   (\<exists>dir n. Abs sample_env ''a/b'' = Some dir \<and> ''/m'' = above n dir \<and> has_manifest sample_env ''/m'')"
proof -
  have "moduleRoot sample_env ''a/b'' = Some ''/m''"
    using sample_climb by (simp add: moduleRoot_def) (simp add: sample_env_def)
  with module_root_is_nearest [of sample_env "''a/b''"] show ?thesis by auto
qed

end
