(* ===== verification/Go_Ast.thy ===== *)
theory Go_Ast
  imports Directives
begin

text \<open>
  The part of \<^verbatim>\<open>go/ast\<close> that the comment checker looks at. Comment groups are compared
  by pointer in the sources, so each has an identity here and a node's \<^verbatim>\<open>Doc\<close> is an
  optional identity, None being nil. Of an expression or a statement whose shape the checker never
  inspects only the expressions inside are kept, in the order of \<^verbatim>\<open>ast.Inspect\<close>: that
  is where function literals are found. What \<^verbatim>\<open>go/parser\<close> makes of a text is a parameter
  of the theory of the command.
\<close>

section \<open>Comments\<close>

type_synonym group_ref = nat

record comment =
  Slash :: nat
  Text :: string

record comment_group =
  group_ref :: group_ref
  List :: "comment list"

definition group_Pos :: "comment_group \<Rightarrow> nat" where
  "group_Pos g = Slash (hd (List g))"

definition comment_End :: "comment \<Rightarrow> nat" where
  "comment_End c = Slash c + length (Text c)"

definition group_End :: "comment_group \<Rightarrow> nat" where
  "group_End g = comment_End (last (List g))"

section \<open>Expressions, declarations, files\<close>

datatype expr =
    Ident string
  | SelectorExpr expr string
  | StarExpr expr
  | IndexExpr expr expr
  | IndexListExpr expr "expr list"
  | StructType "field list"
  | InterfaceType "field list"
  | ArrayType "expr option" expr
  | MapType expr expr
  | ChanType expr
  | FuncLit expr block
  | OtherExpr "expr list"
and field = Field (field_Doc: "group_ref option") (field_Names: "string list") (field_Type: expr)
and block = BlockStmt (Lbrace: nat) (Rbrace: nat) (block_exprs: "expr list")

datatype spec =
    ImportSpec
  | TypeSpec "group_ref option" string "field list" expr
  | ValueSpec "group_ref option" "string list" "expr option" "expr list"

record func_decl =
  func_Doc :: "group_ref option"
  func_Recv :: "field list option"
  func_Name :: string
  func_TypeParams :: "field list"
  func_Params :: "field list"
  func_Results :: "field list option"
  func_Body :: "block option"

datatype decl = FuncDecl func_decl | GenDecl "group_ref option" "spec list" | BadDecl

record ast_file =
  file_Doc :: "group_ref option"
  file_Package :: nat
  file_Decls :: "decl list"
  file_Comments :: "comment_group list"

text \<open>\<^verbatim>\<open>ast.IsExported\<close> and \<^verbatim>\<open>FieldList.NumFields\<close>.\<close>

definition IsExported :: "tree_env \<Rightarrow> string \<Rightarrow> bool" where
  "IsExported env nm = IsUpper env (first_rune nm)"

definition NumFields :: "field list option \<Rightarrow> nat" where
  "NumFields fs = (case fs of None \<Rightarrow> 0 | Some l \<Rightarrow> sum_list (map (\<lambda>f. max 1 (length (field_Names f))) l))"

text \<open>
  \<^verbatim>\<open>ast.IsGenerated\<close>: a line of a comment before the package clause says that the file is
  generated.
\<close>

definition generated_line :: "string \<Rightarrow> bool" where
  "generated_line line =
     (case cut_prefix ''// Code generated '' line of
        (rest, found) \<Rightarrow> found \<and> suffix '' DO NOT EDIT.'' rest)"

definition IsGenerated :: "ast_file \<Rightarrow> bool" where
  "IsGenerated file =
     list_ex (\<lambda>g. list_ex (\<lambda>c. list_ex generated_line (split_on LF (Text c)))
                    (takeWhile (\<lambda>c. Slash c \<le> file_Package file) (List g)))
       (file_Comments file)"

text \<open>The bodies of the function literals of an expression, in the order of \<^verbatim>\<open>ast.Inspect\<close>.\<close>

fun lit_bodies :: "expr \<Rightarrow> block list"
  and field_bodies :: "field \<Rightarrow> block list"
  and block_bodies :: "block \<Rightarrow> block list" where
  "lit_bodies (Ident n) = []"
| "lit_bodies (SelectorExpr x sel) = lit_bodies x"
| "lit_bodies (StarExpr x) = lit_bodies x"
| "lit_bodies (IndexExpr x i) = lit_bodies x @ lit_bodies i"
| "lit_bodies (IndexListExpr x is) = lit_bodies x @ concat (map lit_bodies is)"
| "lit_bodies (StructType fs) = concat (map field_bodies fs)"
| "lit_bodies (InterfaceType fs) = concat (map field_bodies fs)"
| "lit_bodies (ArrayType None elt) = lit_bodies elt"
| "lit_bodies (ArrayType (Some l) elt) = lit_bodies l @ lit_bodies elt"
| "lit_bodies (MapType k v) = lit_bodies k @ lit_bodies v"
| "lit_bodies (ChanType v) = lit_bodies v"
| "lit_bodies (FuncLit t b) = b # lit_bodies t @ block_bodies b"
| "lit_bodies (OtherExpr xs) = concat (map lit_bodies xs)"
| "field_bodies (Field d ns t) = lit_bodies t"
| "block_bodies (BlockStmt l r xs) = concat (map lit_bodies xs)"

fun spec_bodies :: "spec \<Rightarrow> block list" where
  "spec_bodies ImportSpec = []"
| "spec_bodies (TypeSpec d n tps t) = concat (map field_bodies tps) @ lit_bodies t"
| "spec_bodies (ValueSpec d ns t vs) =
     (case t of None \<Rightarrow> [] | Some e \<Rightarrow> lit_bodies e) @ concat (map lit_bodies vs)"

end
