(* ===== verification/Docs.thy ===== *)
theory Docs
  imports Go_Ast
begin

text \<open>
  \<^verbatim>\<open>tools/commentcheck/docs.go\<close>: which comment groups are docs of what a reader outside
  the package can name, and which are the docs and closing outputs of runnable examples. The Go map
  from groups to booleans is a map here, with nil as a key as in the code, and reading an absent
  key gives false.
\<close>

type_synonym allowed_map = "group_ref option \<rightharpoonup> bool"

definition is_allowed :: "allowed_map \<Rightarrow> group_ref option \<Rightarrow> bool" where
  "is_allowed allowed g = (allowed g = Some True)"

section \<open>Exported names\<close>

fun isExportedTypeName :: "tree_env \<Rightarrow> expr \<Rightarrow> bool" where
  "isExportedTypeName env (StarExpr x) = isExportedTypeName env x"
| "isExportedTypeName env (IndexExpr x i) = isExportedTypeName env x"
| "isExportedTypeName env (IndexListExpr x is) = isExportedTypeName env x"
| "isExportedTypeName env (SelectorExpr x sel) = IsExported env sel"
| "isExportedTypeName env (Ident nm) = IsExported env nm"
| "isExportedTypeName env _ = False"

definition hasAnExportedReceiver :: "tree_env \<Rightarrow> func_decl \<Rightarrow> bool" where
  "hasAnExportedReceiver env f =
     (case func_Recv f of
        None \<Rightarrow> True
      | Some [] \<Rightarrow> True
      | Some (r # _) \<Rightarrow> isExportedTypeName env (field_Type r))"

definition isAccessibleField :: "tree_env \<Rightarrow> field \<Rightarrow> bool" where
  "isAccessibleField env f =
     (if field_Names f \<noteq> [] then list_ex (IsExported env) (field_Names f)
      else isExportedTypeName env (field_Type f))"

fun isExportedSpec :: "tree_env \<Rightarrow> spec \<Rightarrow> bool" where
  "isExportedSpec env (TypeSpec d nm tps t) = IsExported env nm"
| "isExportedSpec env (ValueSpec d ns t vs) = list_ex (IsExported env) ns"
| "isExportedSpec env ImportSpec = False"

section \<open>Docs of exported identifiers\<close>

fun allowFieldDocs :: "tree_env \<Rightarrow> expr \<Rightarrow> allowed_map \<Rightarrow> allowed_map"
  and allowFieldDoc :: "tree_env \<Rightarrow> field \<Rightarrow> allowed_map \<Rightarrow> allowed_map"
  and allowAccessibleFieldDocs :: "tree_env \<Rightarrow> field list \<Rightarrow> allowed_map \<Rightarrow> allowed_map" where
  "allowFieldDocs env (StructType fs) allowed = allowAccessibleFieldDocs env fs allowed"
| "allowFieldDocs env (InterfaceType fs) allowed = allowAccessibleFieldDocs env fs allowed"
| "allowFieldDocs env (StarExpr x) allowed = allowFieldDocs env x allowed"
| "allowFieldDocs env (ArrayType l elt) allowed = allowFieldDocs env elt allowed"
| "allowFieldDocs env (MapType k v) allowed = allowFieldDocs env v (allowFieldDocs env k allowed)"
| "allowFieldDocs env (ChanType v) allowed = allowFieldDocs env v allowed"
| "allowFieldDocs env (Ident n) allowed = allowed"
| "allowFieldDocs env (SelectorExpr x sel) allowed = allowed"
| "allowFieldDocs env (IndexExpr x i) allowed = allowed"
| "allowFieldDocs env (IndexListExpr x is) allowed = allowed"
| "allowFieldDocs env (FuncLit t b) allowed = allowed"
| "allowFieldDocs env (OtherExpr xs) allowed = allowed"
| "allowFieldDoc env (Field d ns t) allowed =
     (if isAccessibleField env (Field d ns t) then allowFieldDocs env t (allowed(d \<mapsto> True))
      else allowed(d \<mapsto> False))"
| "allowAccessibleFieldDocs env [] allowed = allowed"
| "allowAccessibleFieldDocs env (f # fs) allowed = allowAccessibleFieldDocs env fs (allowFieldDoc env f allowed)"

fun allowSpecDocs :: "tree_env \<Rightarrow> spec \<Rightarrow> allowed_map \<Rightarrow> allowed_map" where
  "allowSpecDocs env (TypeSpec d nm tps t) allowed =
     (let allowed' = allowed(d \<mapsto> IsExported env nm)
      in if IsExported env nm then allowFieldDocs env t allowed' else allowed')"
| "allowSpecDocs env (ValueSpec d ns t vs) allowed =
     (let exported = list_ex (IsExported env) ns; allowed' = allowed(d \<mapsto> exported)
      in if exported then (case t of None \<Rightarrow> allowed' | Some e \<Rightarrow> allowFieldDocs env e allowed') else allowed')"
| "allowSpecDocs env ImportSpec allowed = allowed"

fun allowDecl :: "tree_env \<Rightarrow> decl \<Rightarrow> allowed_map \<Rightarrow> allowed_map" where
  "allowDecl env (FuncDecl f) allowed =
     allowed(func_Doc f \<mapsto> (IsExported env (func_Name f) \<and> hasAnExportedReceiver env f))"
| "allowDecl env (GenDecl d specs) allowed =
     fold (allowSpecDocs env) specs (allowed(d \<mapsto> list_ex (isExportedSpec env) specs))"
| "allowDecl env BadDecl allowed = allowed"

definition allowedDocs :: "tree_env \<Rightarrow> ast_file \<Rightarrow> allowed_map" where
  "allowedDocs env file =
     (fold (allowDecl env) (file_Decls file) [file_Doc file \<mapsto> True])(None := None)"

section \<open>Runnable examples\<close>

definition isRunnableExample :: "tree_env \<Rightarrow> func_decl \<Rightarrow> bool" where
  "isRunnableExample env f =
     (case cut_prefix ''Example'' (func_Name f) of
        (rest, isExample) \<Rightarrow>
          if \<not> isExample \<or> func_Recv f \<noteq> None \<or> func_Body f = None then False
          else if NumFields (Some (func_Params f)) \<noteq> 0 \<or> NumFields (func_Results f) \<noteq> 0 then False
          else rest = [] \<or> first_rune rest = byte (CHR ''_'') \<or> IsUpper env (first_rune rest))"

fun example_doc :: "tree_env \<Rightarrow> decl \<Rightarrow> allowed_map \<Rightarrow> allowed_map" where
  "example_doc env (FuncDecl f) allowed =
     (if isRunnableExample env f \<and> func_Doc f \<noteq> None then allowed(func_Doc f \<mapsto> True) else allowed)"
| "example_doc env (GenDecl d specs) allowed = allowed"
| "example_doc env BadDecl allowed = allowed"

definition exampleDocs :: "tree_env \<Rightarrow> ast_file \<Rightarrow> allowed_map" where
  "exampleDocs env file = fold (example_doc env) (file_Decls file) Map.empty"

definition within :: "comment_group \<Rightarrow> block \<Rightarrow> bool" where
  "within g body \<longleftrightarrow> group_Pos g > Lbrace body \<and> group_End g < Rbrace body"

definition lastCommentIn :: "ast_file \<Rightarrow> block \<Rightarrow> comment_group option" where
  "lastCommentIn file body =
     foldl (\<lambda>found g. if within g body then Some g else found) None (file_Comments file)"

definition isExampleOutput :: "comment_group \<Rightarrow> bool" where
  "isExampleOutput g =
     (let first = trim_space (trim_prefix ''//'' (Text (hd (List g))))
      in prefix ''Output:'' first \<or> prefix ''Unordered output:'' first)"

fun example_output :: "tree_env \<Rightarrow> ast_file \<Rightarrow> decl \<Rightarrow> allowed_map \<Rightarrow> allowed_map" where
  "example_output env file (FuncDecl f) allowed =
     (if \<not> isRunnableExample env f then allowed
      else (case lastCommentIn file (the (func_Body f)) of
              Some g \<Rightarrow> if isExampleOutput g then allowed(Some (group_ref g) \<mapsto> True) else allowed
            | None \<Rightarrow> allowed))"
| "example_output env file (GenDecl d specs) allowed = allowed"
| "example_output env file BadDecl allowed = allowed"

definition allowExampleOutputs :: "tree_env \<Rightarrow> ast_file \<Rightarrow> allowed_map \<Rightarrow> allowed_map" where
  "allowExampleOutputs env file allowed = fold (example_output env file) (file_Decls file) allowed"

section \<open>What a doc of an exported identifier is\<close>

text \<open>
  Stated without the map: a group documents a field that can be reached from a type expression
  through accessible fields, or something of the file that a reader outside can name.
\<close>

inductive field_doc :: "tree_env \<Rightarrow> expr \<Rightarrow> group_ref \<Rightarrow> bool"
  and doc_of_field :: "tree_env \<Rightarrow> field \<Rightarrow> group_ref \<Rightarrow> bool" for env where
  in_struct: "f \<in> set fs \<Longrightarrow> doc_of_field env f g \<Longrightarrow> field_doc env (StructType fs) g"
| in_interface: "f \<in> set fs \<Longrightarrow> doc_of_field env f g \<Longrightarrow> field_doc env (InterfaceType fs) g"
| in_pointer: "field_doc env x g \<Longrightarrow> field_doc env (StarExpr x) g"
| in_array: "field_doc env x g \<Longrightarrow> field_doc env (ArrayType l x) g"
| in_map_key: "field_doc env k g \<Longrightarrow> field_doc env (MapType k v) g"
| in_map_value: "field_doc env v g \<Longrightarrow> field_doc env (MapType k v) g"
| in_chan: "field_doc env v g \<Longrightarrow> field_doc env (ChanType v) g"
| own: "isAccessibleField env (Field (Some g) ns t) \<Longrightarrow> doc_of_field env (Field (Some g) ns t) g"
| inner: "isAccessibleField env (Field d ns t) \<Longrightarrow> field_doc env t g \<Longrightarrow> doc_of_field env (Field d ns t) g"

inductive exported_doc :: "tree_env \<Rightarrow> ast_file \<Rightarrow> group_ref \<Rightarrow> bool" for env syn where
  package: "file_Doc syn = Some g \<Longrightarrow> exported_doc env syn g"
| func: "FuncDecl f \<in> set (file_Decls syn) \<Longrightarrow> func_Doc f = Some g \<Longrightarrow> IsExported env (func_Name f) \<Longrightarrow>
    hasAnExportedReceiver env f \<Longrightarrow> exported_doc env syn g"
| gen: "GenDecl (Some g) specs \<in> set (file_Decls syn) \<Longrightarrow> list_ex (isExportedSpec env) specs \<Longrightarrow> exported_doc env syn g"
| type_doc: "GenDecl d specs \<in> set (file_Decls syn) \<Longrightarrow> TypeSpec (Some g) nm tps t \<in> set specs \<Longrightarrow>
    IsExported env nm \<Longrightarrow> exported_doc env syn g"
| type_field: "GenDecl d specs \<in> set (file_Decls syn) \<Longrightarrow> TypeSpec d' nm tps t \<in> set specs \<Longrightarrow>
    IsExported env nm \<Longrightarrow> field_doc env t g \<Longrightarrow> exported_doc env syn g"
| value_doc: "GenDecl d specs \<in> set (file_Decls syn) \<Longrightarrow> ValueSpec (Some g) ns t vs \<in> set specs \<Longrightarrow>
    list_ex (IsExported env) ns \<Longrightarrow> exported_doc env syn g"
| value_field: "GenDecl d specs \<in> set (file_Decls syn) \<Longrightarrow> ValueSpec d' ns (Some t) vs \<in> set specs \<Longrightarrow>
    list_ex (IsExported env) ns \<Longrightarrow> field_doc env t g \<Longrightarrow> exported_doc env syn g"

text \<open>The groups that the nodes of a file have as docs: the parser attaches a group to one node.\<close>

fun expr_docs :: "expr \<Rightarrow> group_ref option list"
  and field_docs :: "field \<Rightarrow> group_ref option list" where
  "expr_docs (StructType fs) = concat (map field_docs fs)"
| "expr_docs (InterfaceType fs) = concat (map field_docs fs)"
| "expr_docs (StarExpr x) = expr_docs x"
| "expr_docs (ArrayType l elt) = expr_docs elt"
| "expr_docs (MapType k v) = expr_docs k @ expr_docs v"
| "expr_docs (ChanType v) = expr_docs v"
| "expr_docs (Ident n) = []"
| "expr_docs (SelectorExpr x sel) = []"
| "expr_docs (IndexExpr x i) = []"
| "expr_docs (IndexListExpr x is) = []"
| "expr_docs (FuncLit t b) = []"
| "expr_docs (OtherExpr xs) = []"
| "field_docs (Field d ns t) = d # expr_docs t"

fun spec_docs :: "spec \<Rightarrow> group_ref option list" where
  "spec_docs (TypeSpec d nm tps t) = d # expr_docs t"
| "spec_docs (ValueSpec d ns t vs) = d # (case t of None \<Rightarrow> [] | Some e \<Rightarrow> expr_docs e)"
| "spec_docs ImportSpec = []"

fun decl_docs :: "decl \<Rightarrow> group_ref option list" where
  "decl_docs (FuncDecl f) = [func_Doc f]"
| "decl_docs (GenDecl d specs) = d # concat (map spec_docs specs)"
| "decl_docs BadDecl = []"

definition one_node_per_doc :: "ast_file \<Rightarrow> bool" where
  "one_node_per_doc file \<longleftrightarrow>
     distinct (filter (\<lambda>d. d \<noteq> None) (file_Doc file # concat (map decl_docs (file_Decls file))))"

section \<open>The map implements it\<close>

text \<open>The assignments to the map, in order.\<close>

fun expr_marks :: "tree_env \<Rightarrow> expr \<Rightarrow> (group_ref option \<times> bool) list"
  and field_marks :: "tree_env \<Rightarrow> field \<Rightarrow> (group_ref option \<times> bool) list" where
  "expr_marks env (StructType fs) = concat (map (field_marks env) fs)"
| "expr_marks env (InterfaceType fs) = concat (map (field_marks env) fs)"
| "expr_marks env (StarExpr x) = expr_marks env x"
| "expr_marks env (ArrayType l elt) = expr_marks env elt"
| "expr_marks env (MapType k v) = expr_marks env k @ expr_marks env v"
| "expr_marks env (ChanType v) = expr_marks env v"
| "expr_marks env (Ident n) = []"
| "expr_marks env (SelectorExpr x sel) = []"
| "expr_marks env (IndexExpr x i) = []"
| "expr_marks env (IndexListExpr x is) = []"
| "expr_marks env (FuncLit t b) = []"
| "expr_marks env (OtherExpr xs) = []"
| "field_marks env (Field d ns t) =
     (d, isAccessibleField env (Field d ns t)) # (if isAccessibleField env (Field d ns t) then expr_marks env t else [])"

fun spec_marks :: "tree_env \<Rightarrow> spec \<Rightarrow> (group_ref option \<times> bool) list" where
  "spec_marks env (TypeSpec d nm tps t) = (d, IsExported env nm) # (if IsExported env nm then expr_marks env t else [])"
| "spec_marks env (ValueSpec d ns t vs) =
     (d, list_ex (IsExported env) ns) #
     (if list_ex (IsExported env) ns then (case t of None \<Rightarrow> [] | Some e \<Rightarrow> expr_marks env e) else [])"
| "spec_marks env ImportSpec = []"

fun decl_marks :: "tree_env \<Rightarrow> decl \<Rightarrow> (group_ref option \<times> bool) list" where
  "decl_marks env (FuncDecl f) = [(func_Doc f, IsExported env (func_Name f) \<and> hasAnExportedReceiver env f)]"
| "decl_marks env (GenDecl d specs) = (d, list_ex (isExportedSpec env) specs) # concat (map (spec_marks env) specs)"
| "decl_marks env BadDecl = []"

definition file_marks :: "tree_env \<Rightarrow> ast_file \<Rightarrow> (group_ref option \<times> bool) list" where
  "file_marks env file = (file_Doc file, True) # concat (map (decl_marks env) (file_Decls file))"

definition put :: "('k \<times> 'v) list \<Rightarrow> ('k \<rightharpoonup> 'v) \<Rightarrow> 'k \<rightharpoonup> 'v" where
  "put ms m = fold (\<lambda>(k, v) m. m(k \<mapsto> v)) ms m"

lemma put_simps [simp]:
  "put [] m = m" "put ((k, v) # ms) m = put ms (m(k \<mapsto> v))" "put (ms @ ns) m = put ns (put ms m)"
  by (simp_all add: put_def)

lemma put_concat: "(\<And>x m. x \<in> set xs \<Longrightarrow> f x m = put (g x) m) \<Longrightarrow> fold f xs m = put (concat (map g xs)) m"
  by (induction xs arbitrary: m) simp_all

lemma put_map_of: "put ms m = m ++ map_of (rev ms)"
  by (induction ms arbitrary: m) (auto simp: map_add_def split: option.split)

lemma allow_marks:
  "allowFieldDocs env e m = put (expr_marks env e) m"
  "allowFieldDoc env f m = put (field_marks env f) m"
  "allowAccessibleFieldDocs env fs m = put (concat (map (field_marks env) fs)) m"
proof (induction env e m and env f m and env fs m rule: allowFieldDocs_allowFieldDoc_allowAccessibleFieldDocs.induct)
  case (13 env d ns t m)
  then show ?case by (cases "isAccessibleField env (Field d ns t)") (simp_all add: fun_upd_def)
qed simp_all

lemma allowSpecDocs_marks: "allowSpecDocs env sp m = put (spec_marks env sp) m"
  by (cases sp) (simp_all add: Let_def allow_marks split: option.split)

lemma allowDecl_marks: "allowDecl env d m = put (decl_marks env d) m"
  by (cases d) (simp_all add: allowSpecDocs_marks put_concat [where f = "allowSpecDocs env"])

lemma allowedDocs_marks: "allowedDocs env file = (put (file_marks env file) Map.empty)(None := None)"
  by (simp add: allowedDocs_def file_marks_def put_concat [where f = "allowDecl env", OF allowDecl_marks])

lemma subseq_concat: "(\<And>x. x \<in> set xs \<Longrightarrow> subseq (f x) (g x)) \<Longrightarrow> subseq (concat (map f xs)) (concat (map g xs))"
  by (induction xs) (simp_all add: list_emb_append_mono)

lemma expr_marks_docs:
  "subseq (map fst (expr_marks env e)) (expr_docs e)"
  "subseq (map fst (field_marks env f)) (field_docs f)"
  by (induction e and f rule: expr_docs_field_docs.induct)
    (simp_all add: map_concat comp_def subseq_concat list_emb_append_mono)

lemma spec_marks_docs: "subseq (map fst (spec_marks env sp)) (spec_docs sp)"
  by (cases sp) (simp_all add: expr_marks_docs split: option.split)

lemma decl_marks_docs: "subseq (map fst (decl_marks env d)) (decl_docs d)"
  by (cases d) (simp_all add: map_concat comp_def subseq_concat spec_marks_docs)

lemma file_marks_docs:
  "subseq (map fst (file_marks env file)) (file_Doc file # concat (map decl_docs (file_Decls file)))"
  by (simp add: file_marks_def map_concat comp_def subseq_concat decl_marks_docs)

lemma distinct_subseq: "subseq xs ys \<Longrightarrow> distinct ys \<Longrightarrow> distinct xs"
proof (induction rule: list_emb.induct)
  case (list_emb_Cons2 x y xs ys)
  then show ?case using list_emb_set [OF list_emb_Cons2(2)] by auto
qed auto

lemma marks_lookup:
  assumes "one_node_per_doc file"
  shows "put (file_marks env file) Map.empty (Some g) = Some b \<longleftrightarrow> (Some g, b) \<in> set (file_marks env file)"
proof -
  let ?ms = "filter (\<lambda>(k, v). k \<noteq> None) (file_marks env file)"
  have "map fst ?ms = filter (\<lambda>k. k \<noteq> None) (map fst (file_marks env file))"
    by (induction "file_marks env file" rule: list.induct) (simp_all add: filter_map comp_def case_prod_beta)
  then have "distinct (map fst ?ms)"
    using assms subseq_filter [OF file_marks_docs [of env "file"], of "\<lambda>k. k \<noteq> None"]
    unfolding one_node_per_doc_def by (metis distinct_subseq)
  then have "map_of (rev ?ms) (Some g) = Some b \<longleftrightarrow> (Some g, b) \<in> set ?ms"
    by (subst map_of_eq_Some_iff) (simp_all flip: rev_map)
  moreover have "map_of (filter (\<lambda>(k, v). k \<noteq> None) xs) (Some g) = map_of xs (Some g)" for xs :: "(group_ref option \<times> bool) list"
    by (induction xs) auto
  ultimately show ?thesis by (simp add: put_map_of rev_filter)
qed

lemma field_doc_marks:
  "(Some g, True) \<in> set (expr_marks env e) \<Longrightarrow> field_doc env e g"
  "(Some g, True) \<in> set (field_marks env f) \<Longrightarrow> doc_of_field env f g"
  by (induction env e and env f rule: expr_marks_field_marks.induct)
    (auto intro: field_doc_doc_of_field.intros split: if_splits)

lemma field_doc_marked:
  "field_doc env e g \<Longrightarrow> (Some g, True) \<in> set (expr_marks env e)"
  "doc_of_field env f g \<Longrightarrow> (Some g, True) \<in> set (field_marks env f)"
  by (induction rule: field_doc_doc_of_field.inducts) auto

lemma field_doc_iff: "(Some g, True) \<in> set (expr_marks env e) \<longleftrightarrow> field_doc env e g"
  using field_doc_marks(1) field_doc_marked(1) by blast

lemma spec_marks_iff:
  "(Some g, True) \<in> set (spec_marks env (TypeSpec d nm tps t)) \<longleftrightarrow> IsExported env nm \<and> (d = Some g \<or> field_doc env t g)"
  "(Some g, True) \<in> set (spec_marks env (ValueSpec d ns (Some t) vs)) \<longleftrightarrow>
     list_ex (IsExported env) ns \<and> (d = Some g \<or> field_doc env t g)"
  "(Some g, True) \<in> set (spec_marks env (ValueSpec d ns None vs)) \<longleftrightarrow> list_ex (IsExported env) ns \<and> d = Some g"
  by (cases "IsExported env nm"; cases "list_ex (IsExported env) ns"; force simp: field_doc_iff)+

lemma exported_marked: "exported_doc env file g \<Longrightarrow> (Some g, True) \<in> set (file_marks env file)"
proof (induction rule: exported_doc.induct)
  case (func f g)
  then show ?case by (auto simp: file_marks_def intro!: bexI [of _ "FuncDecl f"])
next
  case (gen g specs)
  then show ?case by (auto simp: file_marks_def intro!: bexI [of _ "GenDecl (Some g) specs"])
next
  case (type_doc d specs g nm tps t)
  then have "(Some g, True) \<in> set (decl_marks env (GenDecl d specs))" by force
  with type_doc show ?case by (auto simp: file_marks_def simp del: decl_marks.simps)
next
  case (type_field d specs d' nm tps t g)
  then have "(Some g, True) \<in> set (decl_marks env (GenDecl d specs))" by (force simp: field_doc_iff)
  with type_field show ?case by (auto simp: file_marks_def simp del: decl_marks.simps)
next
  case (value_doc d specs g ns t vs)
  then have "(Some g, True) \<in> set (decl_marks env (GenDecl d specs))" by force
  with value_doc show ?case by (auto simp: file_marks_def simp del: decl_marks.simps)
next
  case (value_field d specs d' ns t vs g)
  then have "(Some g, True) \<in> set (decl_marks env (GenDecl d specs))" by (force simp: field_doc_iff)
  with value_field show ?case by (auto simp: file_marks_def simp del: decl_marks.simps)
qed (simp add: file_marks_def)

lemma marked_exported: "(Some g, True) \<in> set (file_marks env file) \<Longrightarrow> exported_doc env file g"
proof -
  assume "(Some g, True) \<in> set (file_marks env file)"
  then consider "file_Doc file = Some g" | x where "x \<in> set (file_Decls file)" "(Some g, True) \<in> set (decl_marks env x)"
    by (auto simp: file_marks_def)
  then consider "file_Doc file = Some g"
    | f where "FuncDecl f \<in> set (file_Decls file)" "func_Doc f = Some g" "IsExported env (func_Name f)" "hasAnExportedReceiver env f"
    | specs where "GenDecl (Some g) specs \<in> set (file_Decls file)" "list_ex (isExportedSpec env) specs"
    | d specs sp where "GenDecl d specs \<in> set (file_Decls file)" "sp \<in> set specs" "(Some g, True) \<in> set (spec_marks env sp)"
  proof cases
    case (2 x)
    show ?thesis by (cases x) (use 2 that in auto)
  qed (rule that)
  then show ?thesis
  proof cases
    case (4 d specs sp)
    show ?thesis
    proof (cases sp)
      case (TypeSpec d' nm tps t)
      with 4 show ?thesis by (auto simp: spec_marks_iff simp del: spec_marks.simps intro: exported_doc.intros)
    next
      case (ValueSpec d' ns t vs)
      with 4 show ?thesis
        by (cases t) (auto simp: spec_marks_iff simp del: spec_marks.simps intro: exported_doc.intros)
    qed (use 4 in simp)
  qed (auto intro: exported_doc.intros)
qed

text \<open>
  When the parser attached each group to one node, the map holds exactly the docs of exported
  identifiers.
\<close>

lemma allowedDocs_iff:
  assumes "one_node_per_doc file"
  shows "is_allowed (allowedDocs env file) (Some g) \<longleftrightarrow> exported_doc env file g"
  using marks_lookup [OF assms] exported_marked marked_exported
  by (auto simp: is_allowed_def allowedDocs_marks)

end
