(* ===== verification/Comments.thy ===== *)
theory Comments
  imports Docs "HOL-Library.Char_ord" "HOL-Library.List_Lexorder"
begin

text \<open>
  \<^verbatim>\<open>tools/commentcheck/comments.go\<close>: the findings of one file, and from
  \<^verbatim>\<open>directives.go\<close> the outputs that the generators of a directory name.
  \<^verbatim>\<open>token.FileSet.Position\<close> is a function from offsets to positions. Positions are ordered
  as the report is sorted.
\<close>

section \<open>Positions and findings\<close>

datatype token_position = Position (Filename: string) (Line: int) (Column: int)

instantiation token_position :: linorder
begin

definition less_eq_token_position :: "token_position \<Rightarrow> token_position \<Rightarrow> bool" where
  "p \<le> q \<longleftrightarrow> Filename p < Filename q \<or>
     Filename p = Filename q \<and> (Line p < Line q \<or> Line p = Line q \<and> Column p \<le> Column q)"

definition less_token_position :: "token_position \<Rightarrow> token_position \<Rightarrow> bool" where
  "p < q \<longleftrightarrow> Filename p < Filename q \<or>
     Filename p = Filename q \<and> (Line p < Line q \<or> Line p = Line q \<and> Column p < Column q)"

instance
  by standard (auto simp: less_eq_token_position_def less_token_position_def token_position.expand)

end

record finding =
  position :: token_position
  reason :: string

definition refusedReason :: string where
  "refusedReason = ''comment refused (decision 1): only the docs of exported identifiers, the known //go: directives and example outputs are allowed''"

definition nolintReason :: string where
  "nolintReason = ''//nolint is refused (decision 4): fix the code, or exclude the lint by path and text in .golangci.yml''"

definition unreadableReason :: string where
  "unreadableReason = ''not checked (decision 1): only regular files and directories are read, so a symbolic link or special file is refused''"

definition at :: "(nat \<Rightarrow> token_position) \<Rightarrow> nat \<Rightarrow> string \<Rightarrow> finding" where
  "at files pos why = \<lparr> position = files pos, reason = why \<rparr>"

section \<open>The comments of a file\<close>

definition isNolintDirective :: "string \<Rightarrow> bool" where
  "isNolintDirective comment =
     (case cut_prefix ''//'' comment of
        (body, isLineComment) \<Rightarrow> isLineComment \<and> prefix ''nolint'' (trim_left IsSpace body))"

definition nolintDirectives :: "(nat \<Rightarrow> token_position) \<Rightarrow> comment_group \<Rightarrow> finding list" where
  "nolintDirectives files g =
     map (\<lambda>line. at files (Slash line) nolintReason) (filter (\<lambda>line. isNolintDirective (Text line)) (List g))"

definition strayDirectiveLines :: "tree_env \<Rightarrow> (nat \<Rightarrow> token_position) \<Rightarrow> string \<Rightarrow> comment_group \<Rightarrow> finding list" where
  "strayDirectiveLines env files directory g =
     map (\<lambda>line. at files (Slash line) refusedReason)
       (filter (\<lambda>line. prefix ''//go:'' (Text line) \<and> \<not> isKnownDirective env directory (Text line)) (List g))"

fun decl_bodies :: "decl \<Rightarrow> block list" where
  "decl_bodies (FuncDecl f) =
     (case func_Body f of None \<Rightarrow> [] | Some b \<Rightarrow> [b]) @
     concat (map field_bodies (case func_Recv f of None \<Rightarrow> [] | Some fs \<Rightarrow> fs)) @
     concat (map field_bodies (func_TypeParams f)) @
     concat (map field_bodies (func_Params f)) @
     concat (map field_bodies (case func_Results f of None \<Rightarrow> [] | Some fs \<Rightarrow> fs)) @
     (case func_Body f of None \<Rightarrow> [] | Some b \<Rightarrow> block_bodies b)"
| "decl_bodies (GenDecl d specs) = concat (map spec_bodies specs)"
| "decl_bodies BadDecl = []"

definition functionBodies :: "ast_file \<Rightarrow> block list" where
  "functionBodies syn = concat (map decl_bodies (file_Decls syn))"

definition isInside :: "comment_group \<Rightarrow> block list \<Rightarrow> bool" where
  "isInside g bodies = list_ex (\<lambda>body. group_Pos g > Lbrace body \<and> group_End g < Rbrace body) bodies"

definition isDirective :: "tree_env \<Rightarrow> string \<Rightarrow> comment_group \<Rightarrow> bool" where
  "isDirective env directory g = list_all (\<lambda>line. isKnownDirective env directory (Text line)) (List g)"

definition group_findings ::
  "tree_env \<Rightarrow> (nat \<Rightarrow> token_position) \<Rightarrow> string \<Rightarrow> allowed_map \<Rightarrow> block list \<Rightarrow> comment_group \<Rightarrow> finding list" where
  "group_findings env files directory allowed bodies g =
     (let nolints = nolintDirectives files g in
      if nolints \<noteq> [] then nolints
      else if isInside g bodies then
        (if \<not> is_allowed allowed (Some (group_ref g)) then [at files (group_Pos g) refusedReason] else [])
      else if is_allowed allowed (Some (group_ref g)) then strayDirectiveLines env files directory g
      else if \<not> isDirective env directory g then [at files (group_Pos g) refusedReason]
      else [])"

definition strayComments ::
  "tree_env \<Rightarrow> (nat \<Rightarrow> token_position) \<Rightarrow> string \<Rightarrow> ast_file \<Rightarrow> bool \<Rightarrow> finding list" where
  "strayComments env files p syn namedByAGenerator =
     (if namedByAGenerator \<and> IsGenerated syn then []
      else
        (let allowed = (if suffix ''_test.go'' p then allowExampleOutputs env syn (exampleDocs env syn)
                        else allowedDocs env syn);
             bodies = functionBodies syn;
             directory = filepath_Dir p
         in concat (map (group_findings env files directory allowed bodies) (file_Comments syn))))"

section \<open>The outputs of generators\<close>

record parsedFile =
  parsed_path :: string
  parsed_file :: ast_file

definition line_outputs :: "tree_env \<Rightarrow> string \<Rightarrow> comment \<Rightarrow> string list" where
  "line_outputs env directory line =
     (let found = splitDirective (Text line) in
      if directive_name found = ''generate'' \<and> isKnownDirective env directory (Text line)
      then outputFlagValues (directive_arguments found) else [])"

definition generatorOutputs :: "tree_env \<Rightarrow> parsedFile list \<Rightarrow> string list" where
  "generatorOutputs env parsed =
     concat (map (\<lambda>candidate.
       if IsGenerated (parsed_file candidate) then []
       else concat (map (\<lambda>g. concat (map (line_outputs env (filepath_Dir (parsed_path candidate))) (List g)))
                      (file_Comments (parsed_file candidate))))
       parsed)"

section \<open>What a clean file is\<close>

text \<open>
  A group that stands for a doc: outside test files the doc of an exported identifier, in a test
  file the doc of a runnable example or the output comment that closes its body.
\<close>

definition closing_comment :: "ast_file \<Rightarrow> block \<Rightarrow> comment_group \<Rightarrow> bool" where
  "closing_comment syn body g \<longleftrightarrow>
     filter (\<lambda>h. within h body) (file_Comments syn) \<noteq> [] \<and>
     g = last (filter (\<lambda>h. within h body) (file_Comments syn))"

definition example_group :: "tree_env \<Rightarrow> ast_file \<Rightarrow> group_ref \<Rightarrow> bool" where
  "example_group env syn r \<longleftrightarrow>
     (\<exists>f. FuncDecl f \<in> set (file_Decls syn) \<and> isRunnableExample env f \<and>
        (func_Doc f = Some r \<or>
         (\<exists>body g. func_Body f = Some body \<and> closing_comment syn body g \<and> isExampleOutput g \<and> group_ref g = r)))"

definition is_doc :: "tree_env \<Rightarrow> string \<Rightarrow> ast_file \<Rightarrow> comment_group \<Rightarrow> bool" where
  "is_doc env p syn g \<longleftrightarrow>
     (if suffix ''_test.go'' p then example_group env syn (group_ref g) else exported_doc env syn (group_ref g))"

definition known_line :: "tree_env \<Rightarrow> string \<Rightarrow> comment \<Rightarrow> bool" where
  "known_line env p line \<longleftrightarrow> isKnownDirective env (filepath_Dir p) (Text line)"

definition permitted :: "tree_env \<Rightarrow> string \<Rightarrow> ast_file \<Rightarrow> comment_group \<Rightarrow> bool" where
  "permitted env p syn g \<longleftrightarrow>
     (\<forall>line \<in> set (List g). \<not> isNolintDirective (Text line)) \<and>
     (if isInside g (functionBodies syn) then is_doc env p syn g
      else if is_doc env p syn g then \<forall>line \<in> set (List g). prefix ''//go:'' (Text line) \<longrightarrow> known_line env p line
      else \<forall>line \<in> set (List g). known_line env p line)"

lemma lastCommentIn_iff: "lastCommentIn syn body = Some g \<longleftrightarrow> closing_comment syn body g"
proof -
  have "foldl (\<lambda>found g. if within g body then Some g else found) a gs =
      (if filter (\<lambda>h. within h body) gs = [] then a else Some (last (filter (\<lambda>h. within h body) gs)))" for a gs
    by (induction gs arbitrary: a) auto
  then show ?thesis by (auto simp: lastCommentIn_def closing_comment_def)
qed

lemma fold_adds:
  assumes "\<And>x m. is_allowed (f x m) k \<longleftrightarrow> is_allowed m k \<or> P x"
  shows "is_allowed (fold f xs m) k \<longleftrightarrow> is_allowed m k \<or> (\<exists>x \<in> set xs. P x)"
  by (induction xs arbitrary: m) (auto simp: assms)

lemma exampleDocs_iff:
  "is_allowed (exampleDocs env syn) (Some r) \<longleftrightarrow>
     (\<exists>f. FuncDecl f \<in> set (file_Decls syn) \<and> isRunnableExample env f \<and> func_Doc f = Some r)"
proof -
  have "is_allowed (example_doc env d m) (Some r) \<longleftrightarrow> is_allowed m (Some r) \<or>
      (\<exists>f. d = FuncDecl f \<and> isRunnableExample env f \<and> func_Doc f = Some r)" for d m
    by (cases d) (auto simp: is_allowed_def)
  from fold_adds [of "example_doc env" "Some r", OF this] show ?thesis
    by (auto simp: exampleDocs_def is_allowed_def)
qed

lemma runnable_body: "isRunnableExample env f \<Longrightarrow> func_Body f \<noteq> None"
  by (auto simp: isRunnableExample_def split: prod.splits if_splits)

lemma allowExampleOutputs_iff:
  "is_allowed (allowExampleOutputs env syn m) (Some r) \<longleftrightarrow> is_allowed m (Some r) \<or>
     (\<exists>f. FuncDecl f \<in> set (file_Decls syn) \<and> isRunnableExample env f \<and>
        (\<exists>body g. func_Body f = Some body \<and> closing_comment syn body g \<and> isExampleOutput g \<and> group_ref g = r))"
proof -
  have "is_allowed (example_output env syn d m) (Some r) \<longleftrightarrow> is_allowed m (Some r) \<or>
      (\<exists>f. d = FuncDecl f \<and> isRunnableExample env f \<and>
        (\<exists>body g. func_Body f = Some body \<and> closing_comment syn body g \<and> isExampleOutput g \<and> group_ref g = r))" for d m
  proof (cases d)
    case (FuncDecl f)
    then show ?thesis
      by (auto simp: is_allowed_def lastCommentIn_iff [symmetric] dest!: runnable_body split: option.splits)
  qed auto
  from fold_adds [of "example_output env syn" "Some r", OF this] show ?thesis
    unfolding allowExampleOutputs_def by blast
qed

lemma allowed_iff_doc:
  assumes "one_node_per_doc syn"
  shows "is_allowed (if suffix ''_test.go'' p then allowExampleOutputs env syn (exampleDocs env syn)
      else allowedDocs env syn) (Some (group_ref g)) \<longleftrightarrow> is_doc env p syn g"
  using allowedDocs_iff [OF assms]
  by (auto simp: is_doc_def example_group_def allowExampleOutputs_iff exampleDocs_iff)

lemma nolintDirectives_Nil: "nolintDirectives files g = [] \<longleftrightarrow> (\<forall>line \<in> set (List g). \<not> isNolintDirective (Text line))"
  by (auto simp: nolintDirectives_def filter_empty_conv)

lemma strayDirectiveLines_Nil:
  "strayDirectiveLines env files directory g = [] \<longleftrightarrow>
     (\<forall>line \<in> set (List g). prefix ''//go:'' (Text line) \<longrightarrow> isKnownDirective env directory (Text line))"
  by (auto simp: strayDirectiveLines_def filter_empty_conv)

lemma group_findings_Nil:
  assumes "is_allowed allowed (Some (group_ref g)) \<longleftrightarrow> is_doc env p syn g"
  shows "group_findings env files (filepath_Dir p) allowed (functionBodies syn) g = [] \<longleftrightarrow> permitted env p syn g"
  using assms
  by (auto simp: group_findings_def permitted_def known_line_def nolintDirectives_Nil strayDirectiveLines_Nil
      isDirective_def list_all_iff Let_def)

text \<open>
  C36: A file has no finding exactly when it is generated and named by a generator of its
  directory, or when each of its comment groups is permitted: no line is a nolint directive, and
  the group is a doc of an exported identifier (in a test file: of a runnable example, or the
  output comment that closes one) whose directives are known, or it stands outside function bodies
  and consists of known directives.
\<close>

theorem clean_file_iff:
  assumes "one_node_per_doc syn"
  shows "strayComments env files p syn named = [] \<longleftrightarrow>
    named \<and> IsGenerated syn \<or> (\<forall>g \<in> set (file_Comments syn). permitted env p syn g)"
  using group_findings_Nil [OF allowed_iff_doc [OF assms]]
  by (simp add: strayComments_def Let_def concat_eq_Nil_conv) blast

text \<open>A file with a package doc, an exported type with a documented field, and a directive.\<close>

definition sample_comment :: "group_ref \<Rightarrow> nat \<Rightarrow> string list \<Rightarrow> comment_group" where
  "sample_comment r pos lines = \<lparr> group_ref = r, List = map (\<lambda>l. \<lparr> Slash = pos, Text = l \<rparr>) lines \<rparr>"

definition sample_file :: "comment_group list \<Rightarrow> ast_file" where
  "sample_file extra =
     \<lparr> file_Doc = Some 0, file_Package = 40,
       file_Decls =
         [GenDecl (Some 1) [TypeSpec None ''Exported'' [] (StructType [Field (Some 2) [''Name''] (Ident ''string'')])],
          FuncDecl \<lparr> func_Doc = Some 3, func_Recv = None, func_Name = ''helper'', func_TypeParams = [], func_Params = [],
                     func_Results = None, func_Body = Some (BlockStmt 300 400 []) \<rparr>],
       file_Comments =
         [sample_comment 0 1 [''// Package sample is documented.''], sample_comment 1 60 [''// Exported is documented.''],
          sample_comment 2 120 [''// Name is documented.''], sample_comment 3 260 [''//go:noinline'']] @ extra \<rparr>"

definition sample_positions :: "nat \<Rightarrow> token_position" where
  "sample_positions pos = Position ''sample.go'' (int pos) 1"

lemma sample_one_node: "one_node_per_doc (sample_file extra)"
  by (simp add: one_node_per_doc_def sample_file_def)

lemma sample_known: "isKnownDirective sample_env dir ''//go:noinline''"
  using splitDirective_bare [of "''noinline''"] by (simp add: isKnownDirective_def graphic_def)

lemma sample_lines:
  "\<not> isNolintDirective ''// Package sample is documented.''" "\<not> isNolintDirective ''// Exported is documented.''"
  "\<not> isNolintDirective ''// Name is documented.''" "\<not> isNolintDirective ''//go:noinline''"
  "isNolintDirective ''// nolint:gosec''"
  by (simp_all add: isNolintDirective_def cut_prefix_def trim_left_graphic graphic_def)

lemma sample_clean:
  assumes "\<not> suffix ''_test.go'' p"
  shows "strayComments sample_env files p (sample_file []) named = []"
proof -
  have "IsExported sample_env ''Exported''" "IsExported sample_env ''Name''" "\<not> IsExported sample_env ''helper''"
    by (simp_all add: IsExported_def sample_env_def)
  then show ?thesis
    using assms by (simp add: strayComments_def Let_def sample_file_def sample_comment_def group_findings_def
        nolintDirectives_def sample_lines isInside_def functionBodies_def group_Pos_def group_End_def comment_End_def
        allowedDocs_def is_allowed_def isAccessibleField_def strayDirectiveLines_def isDirective_def sample_known)
qed

theorem clean_file_iff_witness:
  "one_node_per_doc (sample_file []) \<and> strayComments sample_env sample_positions ''sample.go'' (sample_file []) False = [] \<and>
   list_all (permitted sample_env ''sample.go'' (sample_file [])) (file_Comments (sample_file []))"
  using clean_file_iff [OF sample_one_node, of sample_env sample_positions "''sample.go''" "[]" False] sample_one_node
    sample_clean [of "''sample.go''"]
  by (simp add: suffix_def list_all_iff)

text \<open>
  In every file that is checked, whatever its name and wherever the comment stands, exactly
  the lines that are nolint directives are reported as such, each at its own position; that a
  group is an allowed doc or a known directive does not excuse it.
\<close>

theorem nolint_refused_everywhere:
  assumes "\<not> (named \<and> IsGenerated syn)"
  shows "{f \<in> set (strayComments env files p syn named). reason f = nolintReason} =
    {at files (Slash line) nolintReason | g line.
       g \<in> set (file_Comments syn) \<and> line \<in> set (List g) \<and> isNolintDirective (Text line)}"
proof -
  have differ: "refusedReason \<noteq> nolintReason" by (simp add: refusedReason_def nolintReason_def)
  have "{f \<in> set (group_findings env files dir allowed bodies g). reason f = nolintReason} =
      (\<lambda>line. at files (Slash line) nolintReason) ` {line \<in> set (List g). isNolintDirective (Text line)}"
    for dir allowed bodies g
    using differ nolintDirectives_Nil [of files g]
    by (auto simp: group_findings_def strayDirectiveLines_def nolintDirectives_def at_def Let_def)
  then have "{f \<in> set (concat (map (group_findings env files dir allowed bodies) gs)). reason f = nolintReason} =
      (\<Union>g \<in> set gs. (\<lambda>line. at files (Slash line) nolintReason) ` {line \<in> set (List g). isNolintDirective (Text line)})"
    for dir allowed bodies gs by fastforce
  then show ?thesis using assms by (auto simp: strayComments_def Let_def)
qed

theorem nolint_refused_everywhere_witness:
  "at sample_positions 320 nolintReason
     \<in> set (strayComments sample_env sample_positions ''sample.go'' (sample_file [sample_comment 4 320 [''// nolint:gosec'']]) True)"
proof -
  let ?g = "sample_comment 4 320 [''// nolint:gosec'']" and ?line = "\<lparr> Slash = 320, Text = ''// nolint:gosec'' \<rparr>"
  have "\<not> (True \<and> IsGenerated (sample_file [?g]))"
    by (simp add: IsGenerated_def sample_file_def sample_comment_def generated_line_def cut_prefix_def LF_def)
  moreover have "?g \<in> set (file_Comments (sample_file [?g])) \<and> ?line \<in> set (List ?g) \<and> isNolintDirective (Text ?line)"
    using sample_lines(5) by (simp add: sample_file_def sample_comment_def)
  ultimately have "at sample_positions (Slash ?line) nolintReason
      \<in> {f \<in> set (strayComments sample_env sample_positions ''sample.go'' (sample_file [?g]) True). reason f = nolintReason}"
    by (subst nolint_refused_everywhere) blast+
  then show ?thesis by simp
qed

end
