(* ===== verification/Commentcheck.thy ===== *)
theory Commentcheck
  imports Comments "HOL-Library.Multiset"
begin

text \<open>
  \<^verbatim>\<open>tools/commentcheck/main.go\<close>: walking the trees, collecting and sorting the findings,
  the report and the exit codes. The file system is a tree per root; what \<^verbatim>\<open>go/parser\<close>
  makes of a file and the positions of its offsets are parameters. Go iterates over a map in any
  order and its sort is not stable: both choices are parameters too.
\<close>

section \<open>The trees\<close>

text \<open>A directory that cannot be read has an error beside the entries that were read.\<close>

datatype 'e entry = Directory "'e option" "(string \<times> 'e entry) list" | Regular | Special

datatype os_error = PathError string | PlainError string

datatype parse_error = ErrorList token_position | ReadError os_error

record tree_fs =
  Lstat :: "string \<Rightarrow> os_error + os_error entry"
  ParseFile :: "string \<Rightarrow> string \<Rightarrow> parse_error + ast_file"
  FilePosition :: "string \<Rightarrow> nat \<Rightarrow> token_position"

record chances =
  range_order :: "(string \<times> parsedFile list) list \<Rightarrow> (string \<times> parsedFile list) list"
  tie_order :: "finding list \<Rightarrow> finding list"

text \<open>
  The calls of \<^verbatim>\<open>filepath.WalkDir\<close> on its function: a directory before its entries, and once
  more with the error when it cannot be read.
\<close>

datatype kind = IsDir | IsRegular | IsOther

type_synonym event = "string \<times> kind \<times> os_error option"

fun walk_dir :: "string \<Rightarrow> os_error entry \<Rightarrow> event list" where
  "walk_dir p (Directory failure entries) =
     (p, IsDir, None) #
     (case failure of None \<Rightarrow> [] | Some e \<Rightarrow> [(p, IsDir, Some e)]) @
     concat (map (\<lambda>(nm, x). walk_dir (filepath_Join [p, nm]) x) entries)"
| "walk_dir p Regular = [(p, IsRegular, None)]"
| "walk_dir p Special = [(p, IsOther, None)]"

definition WalkDir :: "tree_fs \<Rightarrow> string \<Rightarrow> event list" where
  "WalkDir fs root_path =
     (case Lstat fs root_path of
        Inl e \<Rightarrow> [(root_path, IsOther, Some e)]
      | Inr x \<Rightarrow> walk_dir root_path x)"

section \<open>Reading\<close>

definition location :: "tree_env \<Rightarrow> token_position \<Rightarrow> string" where
  "location env pos =
     (if Line pos = 0 then quoted (IsPrint env) (Filename pos)
      else quoted (IsPrint env) (Filename pos) @ '':'' @ show_int (Line pos) @ '':'' @ show_int (Column pos))"

fun os_error_cause :: "os_error \<Rightarrow> string" where
  "os_error_cause (PathError m) = m"
| "os_error_cause (PlainError m) = m"

definition cannotRead :: "tree_env \<Rightarrow> string \<Rightarrow> os_error \<Rightarrow> string" where
  "cannotRead env p e = ''cannot read '' @ quoted (IsPrint env) p @ '': '' @ os_error_cause e"

definition errNoDirectory :: string where "errNoDirectory = ''give at least one directory to check''"
definition errNotGoSource :: string where "errNotGoSource = ''not valid Go source''"

definition parseGoFile :: "tree_env \<Rightarrow> tree_fs \<Rightarrow> string \<Rightarrow> string \<Rightarrow> string + ast_file" where
  "parseGoFile env fs root_path p =
     (case ParseFile fs root_path p of
        Inr syn \<Rightarrow> Inr syn
      | Inl (ErrorList pos) \<Rightarrow> Inl (''cannot parse '' @ location env pos @ '': '' @ errNotGoSource)
      | Inl (ReadError e) \<Rightarrow> Inl (cannotRead env p e))"

section \<open>Findings under a root\<close>

fun append_to :: "'k \<Rightarrow> 'v \<Rightarrow> ('k \<times> 'v list) list \<Rightarrow> ('k \<times> 'v list) list" where
  "append_to k v [] = [(k, [v])]"
| "append_to k v ((k', vs) # m) = (if k' = k then (k', vs @ [v]) # m else (k', vs) # append_to k v m)"

type_synonym walk_state = "finding list \<times> (string \<times> parsedFile list) list"

definition walk_fn :: "tree_env \<Rightarrow> tree_fs \<Rightarrow> string \<Rightarrow> event \<Rightarrow> walk_state \<Rightarrow> string + walk_state" where
  "walk_fn env fs root_path ev st =
     (case ev of (p, k, walkErr) \<Rightarrow> case st of (found, byDirectory) \<Rightarrow>
        (case walkErr of
           Some e \<Rightarrow> Inl (cannotRead env p e)
         | None \<Rightarrow>
             if k = IsDir then Inr (found, byDirectory)
             else if k \<noteq> IsRegular
             then Inr (found @ [\<lparr> position = Position p 0 0, reason = unreadableReason \<rparr>], byDirectory)
             else if filepath_Ext p \<noteq> ''.go'' then Inr (found, byDirectory)
             else (case parseGoFile env fs root_path p of
                     Inl e \<Rightarrow> Inl e
                   | Inr syn \<Rightarrow>
                       Inr (found, append_to (filepath_Dir p) \<lparr> parsed_path = p, parsed_file = syn \<rparr> byDirectory))))"

fun walk_all :: "tree_env \<Rightarrow> tree_fs \<Rightarrow> string \<Rightarrow> event list \<Rightarrow> walk_state \<Rightarrow> string + walk_state" where
  "walk_all env fs root_path [] st = Inr st"
| "walk_all env fs root_path (ev # evs) st =
     (case walk_fn env fs root_path ev st of Inl e \<Rightarrow> Inl e | Inr st' \<Rightarrow> walk_all env fs root_path evs st')"

definition directory_findings :: "tree_env \<Rightarrow> tree_fs \<Rightarrow> string \<Rightarrow> parsedFile list \<Rightarrow> finding list" where
  "directory_findings env fs root_path parsed =
     (let outs = generatorOutputs env parsed in
      concat (map (\<lambda>candidate.
        strayComments env (FilePosition fs root_path) (parsed_path candidate) (parsed_file candidate)
          (filepath_Base (parsed_path candidate) \<in> set outs)) parsed))"

definition compareFindings :: "finding \<Rightarrow> finding \<Rightarrow> int" where
  "compareFindings first second =
     (let a = Filename (position first); b = Filename (position second) in
      if a \<noteq> b then (if a < b then -1 else 1)
      else if Line (position first) \<noteq> Line (position second) then Line (position first) - Line (position second)
      else Column (position first) - Column (position second))"

fun insert_by :: "('a \<Rightarrow> 'a \<Rightarrow> int) \<Rightarrow> 'a \<Rightarrow> 'a list \<Rightarrow> 'a list" where
  "insert_by cmp x [] = [x]"
| "insert_by cmp x (y # ys) = (if cmp x y \<le> 0 then x # y # ys else y # insert_by cmp x ys)"

definition SortFunc :: "('a list \<Rightarrow> 'a list) \<Rightarrow> ('a \<Rightarrow> 'a \<Rightarrow> int) \<Rightarrow> 'a list \<Rightarrow> 'a list" where
  "SortFunc ties cmp xs = foldr (insert_by cmp) (ties xs) []"

definition finding_line :: "tree_env \<Rightarrow> finding \<Rightarrow> string" where
  "finding_line env item = location env (position item) @ '': '' @ reason item"

definition straysUnder :: "tree_env \<Rightarrow> tree_fs \<Rightarrow> chances \<Rightarrow> string \<Rightarrow> string + string list" where
  "straysUnder env fs luck root_path =
     (case walk_all env fs root_path (WalkDir fs root_path) ([], []) of
        Inl e \<Rightarrow> Inl e
      | Inr (found, byDirectory) \<Rightarrow>
          Inr (map (finding_line env)
            (SortFunc (tie_order luck) compareFindings
              (found @ concat (map (\<lambda>(dir, parsed). directory_findings env fs root_path parsed) (range_order luck byDirectory))))))"

section \<open>The command\<close>

type_synonym exit = "8 word"

definition exitClean :: exit where "exitClean = 0"
definition exitStray :: exit where "exitStray = 1"
definition exitUsage :: exit where "exitUsage = 2"
definition exitNoInput :: exit where "exitNoInput = 66"
definition exitIOError :: exit where "exitIOError = 74"

record 'w writers =
  write_stdout :: "'w \<Rightarrow> string \<Rightarrow> 'w \<times> string option"
  write_stderr :: "'w \<Rightarrow> string \<Rightarrow> 'w \<times> string option"

definition report :: "'w writers \<Rightarrow> 'w \<Rightarrow> string \<Rightarrow> exit \<Rightarrow> 'w \<times> exit" where
  "report out w e status =
     (case write_stderr out w (''commentcheck: '' @ e @ [LF]) of
        (w', None) \<Rightarrow> (w', status)
      | (w', Some _) \<Rightarrow> (w', exitIOError))"

fun collect :: "tree_env \<Rightarrow> tree_fs \<Rightarrow> chances \<Rightarrow> string list \<Rightarrow> string list \<Rightarrow> string + string list" where
  "collect env fs luck [] strays = Inr strays"
| "collect env fs luck (dir # dirs) strays =
     (case straysUnder env fs luck dir of
        Inl e \<Rightarrow> Inl e
      | Inr found \<Rightarrow> collect env fs luck dirs (strays @ found))"

definition check :: "tree_env \<Rightarrow> tree_fs \<Rightarrow> chances \<Rightarrow> 'w writers \<Rightarrow> string list \<Rightarrow> 'w \<Rightarrow> 'w \<times> exit" where
  "check env fs luck out dirs w =
     (if dirs = [] then report out w errNoDirectory exitUsage
      else (case collect env fs luck dirs [] of
              Inl e \<Rightarrow> report out w e exitNoInput
            | Inr strays \<Rightarrow>
                if strays = [] then (w, exitClean)
                else (case write_stdout out w (join_with [LF] strays @ [LF]) of
                        (w', None) \<Rightarrow> (w', exitStray)
                      | (w', Some e) \<Rightarrow> report out w' e exitIOError)))"

section \<open>The walk\<close>

text \<open>
  The Go files of a tree, in the order of the walk, what a file parses to, and the entries that
  are neither files nor directories.
\<close>

fun is_go :: "event \<Rightarrow> bool" where
  "is_go (p, k, e) = (k = IsRegular \<and> filepath_Ext p = ''.go'')"

definition go_files :: "event list \<Rightarrow> string list" where
  "go_files evs = map fst (filter is_go evs)"

definition specials :: "event list \<Rightarrow> finding list" where
  "specials evs =
     map (\<lambda>ev. \<lparr> position = Position (fst ev) 0 0, reason = unreadableReason \<rparr>) (filter (\<lambda>(p, k, e). k = IsOther) evs)"

definition parsed_of :: "tree_fs \<Rightarrow> string \<Rightarrow> string \<Rightarrow> parsedFile" where
  "parsed_of fs root_path p = \<lparr> parsed_path = p, parsed_file = projr (ParseFile fs root_path p) \<rparr>"

fun readable :: "tree_fs \<Rightarrow> string \<Rightarrow> event \<Rightarrow> bool" where
  "readable fs root_path (p, k, e) \<longleftrightarrow> e = None \<and> (is_go (p, k, e) \<longrightarrow> \<not> isl (ParseFile fs root_path p))"

definition grouped :: "tree_fs \<Rightarrow> string \<Rightarrow> string list \<Rightarrow> (string \<times> parsedFile list) list \<Rightarrow> (string \<times> parsedFile list) list" where
  "grouped fs root_path ps m = fold (\<lambda>p. append_to (filepath_Dir p) (parsed_of fs root_path p)) ps m"

lemma walk_fn_readable:
  "readable fs root_path ev \<Longrightarrow>
     walk_fn env fs root_path ev (found, m) = Inr (found @ specials [ev], grouped fs root_path (go_files [ev]) m)"
  "\<not> readable fs root_path ev \<Longrightarrow> isl (walk_fn env fs root_path ev (found, m))"
  by (cases ev; cases "fst (snd ev)"; cases "ParseFile fs root_path (fst ev)";
      auto simp: walk_fn_def parseGoFile_def specials_def go_files_def grouped_def parsed_of_def
        split: parse_error.splits option.splits)+

lemma specials_Cons: "specials (ev # evs) = specials [ev] @ specials evs"
  by (simp add: specials_def)

lemma grouped_Cons:
  "grouped fs root_path (go_files (ev # evs)) m = grouped fs root_path (go_files evs) (grouped fs root_path (go_files [ev]) m)"
  by (simp add: grouped_def go_files_def)

lemma walk_all_readable:
  "list_all (readable fs root_path) evs \<Longrightarrow>
     walk_all env fs root_path evs (found, m) = Inr (found @ specials evs, grouped fs root_path (go_files evs) m)"
proof (induction evs arbitrary: found m)
  case (Cons ev evs)
  then show ?case
    by (simp add: walk_fn_readable(1) specials_Cons [of ev evs] grouped_Cons [of fs root_path ev evs])
qed (simp add: specials_def go_files_def grouped_def)

lemma walk_all_unreadable:
  "\<not> list_all (readable fs root_path) evs \<Longrightarrow> isl (walk_all env fs root_path evs (found, m))"
proof (induction evs arbitrary: found m)
  case (Cons ev evs)
  then show ?case
    using walk_fn_readable(2) [of fs root_path ev env found m]
    by (cases "readable fs root_path ev") (auto simp: walk_fn_readable(1) split: sum.split)
qed simp

lemma append_to_keys: "fst ` set (append_to k v m) = insert k (fst ` set m)"
  by (induction k v m rule: append_to.induct) auto

lemma append_to_distinct: "distinct (map fst m) \<Longrightarrow> distinct (map fst (append_to k v m))"
proof (induction k v m rule: append_to.induct)
  case (2 k v k' vs m)
  then show ?case using append_to_keys [of k v m] by auto
qed simp

lemma append_to_lookup:
  "map_of (append_to k v m) = (map_of m)(k \<mapsto> (case map_of m k of None \<Rightarrow> [v] | Some vs \<Rightarrow> vs @ [v]))"
  by (induction k v m rule: append_to.induct) auto

lemma grouped_lookup:
  "map_of (grouped fs root_path ps m) d =
     (let new = map (parsed_of fs root_path) (filter (\<lambda>p. filepath_Dir p = d) ps) in
      case map_of m d of None \<Rightarrow> if new = [] then None else Some new | Some vs \<Rightarrow> Some (vs @ new))"
proof (induction ps arbitrary: m)
  case Nil
  then show ?case by (simp add: grouped_def split: option.split)
next
  case (Cons p ps)
  have "grouped fs root_path (p # ps) m = grouped fs root_path ps (append_to (filepath_Dir p) (parsed_of fs root_path p) m)"
    by (simp add: grouped_def)
  then show ?case by (simp add: Cons.IH append_to_lookup Let_def split: option.split)
qed

lemma grouped_distinct: "distinct (map fst m) \<Longrightarrow> distinct (map fst (grouped fs root_path ps m))"
  unfolding grouped_def by (induction ps arbitrary: m) (simp_all add: append_to_distinct)

text \<open>The files that stand in one directory of the walked tree.\<close>

definition siblings :: "tree_fs \<Rightarrow> string \<Rightarrow> string list \<Rightarrow> string \<Rightarrow> parsedFile list" where
  "siblings fs root_path ps d = map (parsed_of fs root_path) (filter (\<lambda>p. filepath_Dir p = d) ps)"

lemma grouped_set:
  "set (grouped fs root_path ps []) = (\<lambda>d. (d, siblings fs root_path ps d)) ` filepath_Dir ` set ps"
proof -
  have "(d, parsed) \<in> set (grouped fs root_path ps []) \<longleftrightarrow>
      d \<in> filepath_Dir ` set ps \<and> parsed = siblings fs root_path ps d" for d parsed
    using map_of_eq_Some_iff [OF grouped_distinct [of "[]" fs root_path ps], of d parsed] grouped_lookup [of fs root_path ps "[]" d]
    by (auto simp: siblings_def Let_def filter_empty_conv split: if_splits)
  then show ?thesis by auto
qed

section \<open>The report\<close>

text \<open>
  What the sort asks of its comparison, and what it then gives: it orders by the key that the
  comparison compares, whatever it does with ties; and when no two elements share a key the result
  does not depend on that.
\<close>

locale comparison =
  fixes cmp :: "'a \<Rightarrow> 'a \<Rightarrow> int" and key :: "'a \<Rightarrow> 'k :: linorder"
  assumes compares: "cmp x y \<le> 0 \<longleftrightarrow> key x \<le> key y"
begin

lemma insert_by_key: "insert_by cmp x ys = insort_key key x ys"
  by (induction ys) (simp_all add: compares)

lemma SortFunc_key: "SortFunc ties cmp xs = sort_key key (ties xs)"
proof -
  have "insert_by cmp = insort_key key" by (intro ext) (rule insert_by_key)
  then show ?thesis by (simp add: SortFunc_def sort_key_def)
qed

lemma sorted_unique:
  assumes "mset xs = mset ys" and "sorted (map key xs)" and "sorted (map key ys)" and "inj_on key (set ys)"
  shows "xs = ys"
proof -
  have "map key xs = map key ys"
    using assms(1,2,3) by (metis mset_map properties_for_sort sorted_sort_id)
  moreover have "set xs = set ys" using assms(1) by (rule mset_eq_setD)
  ultimately show ?thesis using assms(4) by (intro map_inj_on [of key]) simp_all
qed

end

lemma compareFindings_le: "compareFindings x y \<le> 0 \<longleftrightarrow> position x \<le> position y"
  by (auto simp: compareFindings_def less_eq_token_position_def Let_def)

interpretation by_position: comparison compareFindings position
  by unfold_locales (rule compareFindings_le)

text \<open>What the runtime may choose is an order.\<close>

definition fair :: "chances \<Rightarrow> bool" where
  "fair luck \<longleftrightarrow> (\<forall>m. mset (range_order luck m) = mset m) \<and> (\<forall>xs. mset (tie_order luck xs) = mset xs)"

text \<open>All findings of a tree, unsorted, or None when something in it cannot be read or parsed.\<close>

definition tree_findings :: "tree_env \<Rightarrow> tree_fs \<Rightarrow> string \<Rightarrow> finding list option" where
  "tree_findings env fs root_path =
     (let evs = WalkDir fs root_path in
      if list_all (readable fs root_path) evs
      then Some (specials evs @ concat (map (\<lambda>(dir, parsed). directory_findings env fs root_path parsed)
                                   (grouped fs root_path (go_files evs) [])))
      else None)"

lemma mset_concat_order:
  assumes "mset xs = mset ys"
  shows "mset (concat (map f xs)) = mset (concat (map f ys))"
proof -
  have "mset (concat (map f zs)) = sum_mset (image_mset (\<lambda>z. mset (f z)) (mset zs))" for zs
    by (induction zs) simp_all
  with assms show ?thesis by simp
qed

lemma straysUnder_findings:
  assumes "fair luck"
  shows "case tree_findings env fs root_path of
      None \<Rightarrow> isl (straysUnder env fs luck root_path)
    | Some all_found \<Rightarrow> \<exists>xs. straysUnder env fs luck root_path = Inr (map (finding_line env) xs) \<and>
        mset xs = mset all_found \<and> sorted (map position xs)"
proof (cases "list_all (readable fs root_path) (WalkDir fs root_path)")
  case False
  then show ?thesis using walk_all_unreadable [OF False, of env "[]" "[]"]
    by (auto simp: tree_findings_def straysUnder_def Let_def split: sum.splits)
next
  case True
  let ?m = "grouped fs root_path (go_files (WalkDir fs root_path)) []"
  let ?f = "\<lambda>(dir, parsed). directory_findings env fs root_path parsed"
  have "mset (concat (map ?f (range_order luck ?m))) = mset (concat (map ?f ?m))"
    using assms by (intro mset_concat_order) (simp add: fair_def)
  moreover define xs where "xs = sort_key position (tie_order luck
      (specials (WalkDir fs root_path) @ concat (map ?f (range_order luck ?m))))"
  ultimately have "mset xs = mset (specials (WalkDir fs root_path) @ concat (map ?f ?m))" and "sorted (map position xs)"
    using assms by (simp_all add: fair_def)
  moreover have "straysUnder env fs luck root_path = Inr (map (finding_line env) xs)"
    by (simp add: straysUnder_def walk_all_readable [OF True] by_position.SortFunc_key xs_def)
  ultimately show ?thesis using True by (auto simp: tree_findings_def Let_def)
qed


section \<open>Exit codes\<close>

text \<open>
  A clean tree: everything in it is a directory or a file that can be read, every Go file parses,
  and none has a finding, a file being exempt when a generator of its directory names it.
\<close>

definition clean_file :: "tree_env \<Rightarrow> tree_fs \<Rightarrow> string \<Rightarrow> string list \<Rightarrow> string \<Rightarrow> bool" where
  "clean_file env fs root_path ps p \<longleftrightarrow>
     (case ParseFile fs root_path p of
        Inl e \<Rightarrow> False
      | Inr syn \<Rightarrow>
          strayComments env (FilePosition fs root_path) p syn
            (filepath_Base p \<in> set (generatorOutputs env (siblings fs root_path ps (filepath_Dir p)))) = [])"

definition clean_tree :: "tree_env \<Rightarrow> tree_fs \<Rightarrow> string \<Rightarrow> bool" where
  "clean_tree env fs root_path \<longleftrightarrow>
     list_all (\<lambda>(p, k, e). e = None \<and> k \<noteq> IsOther) (WalkDir fs root_path) \<and>
     list_all (clean_file env fs root_path (go_files (WalkDir fs root_path))) (go_files (WalkDir fs root_path))"

lemma directory_findings_Nil:
  "directory_findings env fs root_path (siblings fs root_path ps d) = [] \<longleftrightarrow>
     (\<forall>p \<in> set ps. filepath_Dir p = d \<longrightarrow>
        strayComments env (FilePosition fs root_path) p (projr (ParseFile fs root_path p))
          (filepath_Base p \<in> set (generatorOutputs env (siblings fs root_path ps d))) = [])"
  by (auto simp: directory_findings_def siblings_def parsed_of_def Let_def)

lemma readable_files:
  "list_all (readable fs root_path) evs \<longleftrightarrow>
     list_all (\<lambda>(p, k, e). e = None) evs \<and> (\<forall>p \<in> set (go_files evs). \<not> isl (ParseFile fs root_path p))"
  by (induction evs) (auto simp: go_files_def)

lemma specials_Nil: "specials evs = [] \<longleftrightarrow> list_all (\<lambda>(p, k, e). k \<noteq> IsOther) evs"
  by (induction evs) (auto simp: specials_def)

lemma clean_tree_findings: "tree_findings env fs root_path = Some [] \<longleftrightarrow> clean_tree env fs root_path"
proof -
  let ?evs = "WalkDir fs root_path"
  have "list_all (\<lambda>(p, k, e). e = None \<and> k \<noteq> IsOther) ?evs \<longleftrightarrow>
      list_all (\<lambda>(p, k, e). e = None) ?evs \<and> specials ?evs = []"
    by (auto simp: specials_Nil list_all_iff)
  moreover have "clean_file env fs root_path ps p \<longleftrightarrow> \<not> isl (ParseFile fs root_path p) \<and>
      strayComments env (FilePosition fs root_path) p (projr (ParseFile fs root_path p))
        (filepath_Base p \<in> set (generatorOutputs env (siblings fs root_path ps (filepath_Dir p)))) = []" for ps p
    by (simp add: clean_file_def split: sum.split)
  moreover have "(\<forall>x \<in> set (grouped fs root_path ps []). directory_findings env fs root_path (snd x) = []) \<longleftrightarrow>
      (\<forall>p \<in> set ps. strayComments env (FilePosition fs root_path) p (projr (ParseFile fs root_path p))
        (filepath_Base p \<in> set (generatorOutputs env (siblings fs root_path ps (filepath_Dir p)))) = [])" for ps
    by (auto simp: grouped_set directory_findings_Nil)
  ultimately show ?thesis
    unfolding clean_tree_def tree_findings_def readable_files
    by (auto simp: Let_def list_all_iff case_prod_beta)
qed

lemma collect_clean:
  assumes "fair luck"
  shows "collect env fs luck dirs strays = Inr [] \<longleftrightarrow>
    strays = [] \<and> (\<forall>dir \<in> set dirs. clean_tree env fs dir)"
proof (induction dirs arbitrary: strays)
  case (Cons dir dirs)
  have "straysUnder env fs luck dir = Inr [] \<longleftrightarrow> tree_findings env fs dir = Some []"
    using straysUnder_findings [OF assms, of env fs dir] by (auto split: option.splits)
  then show ?case
    using Cons.IH by (auto simp: clean_tree_findings split: sum.splits)
qed simp

lemma report_fails: "status \<noteq> 0 \<Longrightarrow> snd (report out w e status) \<noteq> exitClean"
  by (auto simp: report_def exitClean_def exitIOError_def split: prod.splits option.splits)

text \<open>
  C37: The command exits with 0 exactly when it was given at least one directory and every tree is
  clean. So a symbolic link, an unreadable or unparsable file or one comment that is not permitted
  is enough for another exit code, whatever can or cannot be written.
\<close>

theorem exits_clean_iff:
  assumes "fair luck"
  shows "snd (check env fs luck out dirs w) = exitClean \<longleftrightarrow> dirs \<noteq> [] \<and> (\<forall>dir \<in> set dirs. clean_tree env fs dir)"
proof -
  have "snd (check env fs luck out dirs w) = exitClean \<longleftrightarrow> dirs \<noteq> [] \<and> collect env fs luck dirs [] = Inr []"
    using report_fails [of exitUsage out] report_fails [of exitNoInput out] report_fails [of exitIOError out]
    by (auto simp: check_def exitUsage_def exitNoInput_def exitIOError_def exitStray_def exitClean_def
        split: sum.splits prod.splits option.splits)
  then show ?thesis using collect_clean [OF assms, of env fs dirs "[]"] by simp
qed

section \<open>Links\<close>

lemma walk_fn_agrees:
  assumes "is_go ev \<and> snd (snd ev) = None \<longrightarrow> ParseFile fs' root_path (fst ev) = ParseFile fs root_path (fst ev)"
  shows "walk_fn env fs' root_path ev st = walk_fn env fs root_path ev st"
proof -
  obtain p k e where ev: "ev = (p, k, e)" by (cases ev)
  show ?thesis using assms by (cases st; cases k; cases e) (auto simp: ev walk_fn_def parseGoFile_def)
qed

lemma walk_all_agrees:
  assumes "\<forall>ev \<in> set evs. is_go ev \<and> snd (snd ev) = None \<longrightarrow> ParseFile fs' root_path (fst ev) = ParseFile fs root_path (fst ev)"
  shows "walk_all env fs' root_path evs st = walk_all env fs root_path evs st"
  using assms
proof (induction evs arbitrary: st)
  case (Cons ev evs)
  have "walk_fn env fs' root_path ev st = walk_fn env fs root_path ev st"
    using Cons.prems by (intro walk_fn_agrees) simp
  with Cons show ?case by (simp split: sum.split)
qed simp

text \<open>
  Only regular Go files are read: what the parser would make of any other path, the target of a
  link included, has no influence on the outcome. And each entry that is neither a directory nor a
  regular file is listed, under its quoted path with its own reason.
\<close>

theorem links_are_listed_not_read:
  assumes "fair luck" and "Lstat fs' = Lstat fs" and "FilePosition fs' = FilePosition fs"
    and "\<And>p. (p, IsRegular, None) \<in> set (WalkDir fs root_path) \<Longrightarrow> filepath_Ext p = ''.go'' \<Longrightarrow>
          ParseFile fs' root_path p = ParseFile fs root_path p"
  shows "straysUnder env fs' luck root_path = straysUnder env fs luck root_path \<and>
    (case straysUnder env fs luck root_path of
       Inl e \<Rightarrow> True
     | Inr lines \<Rightarrow> \<forall>p e. (p, IsOther, e) \<in> set (WalkDir fs root_path) \<longrightarrow>
         quoted (IsPrint env) p @ '': '' @ unreadableReason \<in> set lines)"
proof
  have "WalkDir fs' root_path = WalkDir fs root_path" by (simp add: WalkDir_def assms(2))
  moreover have "walk_all env fs' root_path (WalkDir fs root_path) st = walk_all env fs root_path (WalkDir fs root_path) st" for st
    using assms(4) by (intro walk_all_agrees) auto
  moreover have "directory_findings env fs' root_path = directory_findings env fs root_path"
    by (simp add: directory_findings_def assms(3) fun_eq_iff)
  ultimately show "straysUnder env fs' luck root_path = straysUnder env fs luck root_path"
    by (simp add: straysUnder_def split: sum.split)
  have "quoted (IsPrint env) p @ '': '' @ unreadableReason \<in> set lines"
    if ev: "(p, IsOther, e) \<in> set (WalkDir fs root_path)" and lines: "straysUnder env fs luck root_path = Inr lines" for p e lines
  proof -
    let ?f = "\<lparr> position = Position p 0 0, reason = unreadableReason \<rparr>"
    obtain all_found where found: "tree_findings env fs root_path = Some all_found"
      using straysUnder_findings [OF assms(1), of env fs root_path] lines by (auto split: option.splits)
    have "?f \<in> set (specials (WalkDir fs root_path))" using ev by (force simp: specials_def)
    with found have "?f \<in> set all_found" by (auto simp: tree_findings_def Let_def split: if_splits)
    moreover obtain xs where "lines = map (finding_line env) xs" "mset xs = mset all_found"
      using straysUnder_findings [OF assms(1), of env fs root_path] lines found by auto
    ultimately have "finding_line env ?f \<in> set lines" using mset_eq_setD by fastforce
    then show ?thesis by (simp add: finding_line_def location_def)
  qed
  then show "case straysUnder env fs luck root_path of Inl e \<Rightarrow> True
    | Inr lines \<Rightarrow> \<forall>p e. (p, IsOther, e) \<in> set (WalkDir fs root_path) \<longrightarrow>
        quoted (IsPrint env) p @ '': '' @ unreadableReason \<in> set lines"
    by (auto split: sum.split)
qed

section \<open>Samples\<close>

text \<open>Two trees with one clean Go file, the second with a link beside it, walked in reverse orders.\<close>

definition sample_fs :: tree_fs where
  "sample_fs =
     \<lparr> Lstat = (\<lambda>p. if p = ''t'' then Inr (Directory None [(''sample.go'', Regular)])
                   else if p = ''u'' then Inr (Directory None [(''link.go'', Special), (''sample.go'', Regular)])
                   else Inl (PathError ''no such file'')),
       ParseFile = (\<lambda>root_path p. Inr (sample_file [])), FilePosition = (\<lambda>root_path. sample_positions) \<rparr>"

definition backwards :: chances where
  "backwards = \<lparr> range_order = rev, tie_order = rev \<rparr>"

lemma backwards_fair: "fair backwards"
  by (simp add: fair_def backwards_def)

lemma sample_walks:
  "WalkDir sample_fs ''t'' = [(''t'', IsDir, None), (''t/sample.go'', IsRegular, None)]"
  "WalkDir sample_fs ''u'' = [(''u'', IsDir, None), (''u/link.go'', IsOther, None), (''u/sample.go'', IsRegular, None)]"
  by (simp_all add: WalkDir_def sample_fs_def filepath_Join_def filepath_Clean_def rooted_def)

lemma sample_files: "go_files (WalkDir sample_fs ''t'') = [''t/sample.go'']" "go_files (WalkDir sample_fs ''u'') = [''u/sample.go'']"
  by (simp_all add: go_files_def sample_walks filepath_Ext_def)

lemma sample_parse_file [simp]: "ParseFile sample_fs r p = Inr (sample_file [])"
  by (simp add: sample_fs_def)

lemma sample_trees: "clean_tree sample_env sample_fs ''t''" "\<not> clean_tree sample_env sample_fs ''u''"
  using sample_clean [of "''t/sample.go''"]
  by (simp_all add: clean_tree_def sample_files clean_file_def) (simp_all add: sample_walks suffix_def)

theorem exits_clean_iff_witness:
  "snd (check sample_env sample_fs backwards \<lparr> write_stdout = \<lambda>w s. (w, None), write_stderr = \<lambda>w s. (w, None) \<rparr> [''t''] ()) = exitClean \<and>
   snd (check sample_env sample_fs backwards \<lparr> write_stdout = \<lambda>w s. (w, None), write_stderr = \<lambda>w s. (w, None) \<rparr> [''t'', ''u''] ()) \<noteq> exitClean"
  using sample_trees by (simp add: exits_clean_iff [OF backwards_fair])

lemma sample_found:
  "tree_findings sample_env sample_fs ''u'' = Some [\<lparr> position = Position ''u/link.go'' 0 0, reason = unreadableReason \<rparr>]"
proof -
  have "list_all (readable sample_fs ''u'') (WalkDir sample_fs ''u'')" by (simp add: sample_walks)
  moreover have "directory_findings sample_env sample_fs ''u'' [parsed_of sample_fs ''u'' ''u/sample.go''] = []"
    using sample_clean [of "''u/sample.go''"] by (simp add: directory_findings_def parsed_of_def suffix_def)
  ultimately show ?thesis
    by (simp add: tree_findings_def sample_files grouped_def) (simp add: sample_walks specials_def)
qed


theorem links_are_listed_not_read_witness:
  "straysUnder sample_env (sample_fs\<lparr>ParseFile := \<lambda>r p. if p = ''u/link.go'' then Inl (ReadError (PlainError ''secret'')) else ParseFile sample_fs r p\<rparr>)
     backwards ''u'' = straysUnder sample_env sample_fs backwards ''u''"
  using links_are_listed_not_read [OF backwards_fair, where fs = sample_fs and root_path = "''u''" and env = sample_env and
    fs' = "sample_fs\<lparr>ParseFile := \<lambda>r p. if p = ''u/link.go'' then Inl (ReadError (PlainError ''secret'')) else ParseFile sample_fs r p\<rparr>"]
  by (simp add: sample_walks)

end
