(* ===== verification/Spec2Isabelle.thy ===== *)
theory Spec2Isabelle
  imports Wire_Types Router_Threads Registry_Threads Turn_Threads Descriptor Tls Protogen Commentcheck
begin

text \<open>
  A verification of herrscher-transport, the Go library that lets the plugins of a host live in
  other processes. A plugin process announces itself over NATS; a host that watches the
  announcements keeps a registry of the plugins it trusts and dials them over gRPC; from then on
  a proxy in the host stands for the plugin, and a skeleton in the plugin process turns the calls
  back into calls of the real object.

  \<^bold>\<open>The parts and their theories.\<close> Each theory names its sources at its top.

  \<^item> \<^verbatim>\<open>Prelude\<close>, \<^verbatim>\<open>Utf8\<close>, \<^verbatim>\<open>Base64\<close>, \<^verbatim>\<open>Json\<close>,
    \<^verbatim>\<open>Json_Roundtrip\<close>, \<^verbatim>\<open>Json_Values\<close>, \<^verbatim>\<open>Sha256\<close>,
    \<^verbatim>\<open>Net\<close>: what the sources use of Go's standard library, concretely: decimal integers
    at 64 bits, UTF-8, base64, the printer, scanner and reflection of \<^verbatim>\<open>encoding/json\<close>
    at the level of bytes, SHA-256 and HMAC, and the address parsers of \<^verbatim>\<open>net\<close> and
    \<^verbatim>\<open>net/netip\<close>.
  \<^item> \<^verbatim>\<open>Errors\<close> (\<^verbatim>\<open>errors.go\<close>): every error value with its text, the
    error tree with \<^verbatim>\<open>errors.Is\<close> and \<^verbatim>\<open>errors.As\<close>, the notices.
  \<^item> \<^verbatim>\<open>Codec\<close> (\<^verbatim>\<open>codec.go\<close>): argument tuples. \<^verbatim>\<open>Wire_Error\<close>
    (\<^verbatim>\<open>wire_error.go\<close>): errors on the wire. \<^verbatim>\<open>Proto\<close>
    (\<^verbatim>\<open>proto/\<close>): envelopes, the generated client stub and handler, and the half of a
    call that both proxies share.
  \<^item> \<^verbatim>\<open>Memory\<close>, \<^verbatim>\<open>Orchestrator\<close>, \<^verbatim>\<open>Backend\<close>: the skeletons
    and proxies (\<^verbatim>\<open>memory_*.go\<close>, \<^verbatim>\<open>orchestrator_*.go\<close>,
    \<^verbatim>\<open>backend_stream.go\<close>). A method of a skeleton takes the state of the object behind it
    and returns it changed; a proxy takes what its client needs.
  \<^item> \<^verbatim>\<open>Router\<close> (\<^verbatim>\<open>plugin_router.go\<close>): the claims on servers and the
    dispatch by port. \<^verbatim>\<open>Announce\<close> (\<^verbatim>\<open>announce.go\<close>,
    \<^verbatim>\<open>subjects.go\<close>), \<^verbatim>\<open>Registry\<close>
    (\<^verbatim>\<open>remote_registry.go\<close>) and \<^verbatim>\<open>Tls\<close> (\<^verbatim>\<open>tls.go\<close>).
  \<^item> \<^verbatim>\<open>Locks\<close>, \<^verbatim>\<open>Turn_Threads\<close>, \<^verbatim>\<open>Router_Threads\<close>,
    \<^verbatim>\<open>Registry_Threads\<close>: the sections under the mutexes of \<^verbatim>\<open>backend_stream.go\<close>,
    \<^verbatim>\<open>plugin_router.go\<close> and \<^verbatim>\<open>remote_registry.go\<close>, statement by statement, with
    any number of goroutines interleaved. In the theories of the components such a section is one
    step; these show that it may be. The registry is also run with its watch, message by message,
    while others query, and a turn up to the host's receive loop.
  \<^item> \<^verbatim>\<open>Wire_Types\<close>: the typing of what the router answers. \<^verbatim>\<open>Descriptor\<close>: the raw
    descriptor of the protocol and the tables around it.
  \<^item> \<^verbatim>\<open>Tools\<close>, \<^verbatim>\<open>Paths\<close>: errors and \<^verbatim>\<open>path/filepath\<close> for the two
    development tools, and which directory a joined path is in.
    \<^verbatim>\<open>Protogen\<close> (\<^verbatim>\<open>tools/protogen/main.go\<close>): the generator of the
    protocol code, from its command line to its exit code.
  \<^item> \<^verbatim>\<open>Go_Text\<close>, \<^verbatim>\<open>Go_Ast\<close>: runes, fields and quoted strings, and the part
    of \<^verbatim>\<open>go/ast\<close> that the comment checker looks at. \<^verbatim>\<open>Directives\<close>,
    \<^verbatim>\<open>Docs\<close>, \<^verbatim>\<open>Comments\<close>, \<^verbatim>\<open>Commentcheck\<close>
    (\<^verbatim>\<open>directives.go\<close>, \<^verbatim>\<open>docs.go\<close>, \<^verbatim>\<open>comments.go\<close>,
    \<^verbatim>\<open>main.go\<close> of \<^verbatim>\<open>tools/commentcheck\<close>): the checker that refuses every
    comment that is not a doc of an exported identifier.
  \<^item> This theory: the whole stack, from a dialled proxy to the object behind the router, and from
    an announcement to the first answer of the plugin it announces.

  \<^bold>\<open>What is a parameter.\<close> The \<^verbatim>\<open>contracts\<close> module (the interfaces, the types
  they exchange with their JSON codecs, the budget error, the categories), NATS and gRPC. What is
  asked of them is named: \<^const>\<open>wire_codec\<close> and \<^const>\<open>wire_struct\<close> (a fit value
  marshals and unmarshals to itself and is not nested beyond the decoder's limit),
  \<^verbatim>\<open>linked\<close> (a unary call runs the handler registered under its name, texts being
  well-formed UTF-8 as proto3 asks), \<^const>\<open>carries\<close> and
  \<^const>\<open>delivers\<close> (a stream delivers in order what the handler sent, then its end). Sample
  instances of all of them show that they can be met. For the tools: the protobuf compiler, the plugin
  processes, \<^verbatim>\<open>go/parser\<close>, \<^verbatim>\<open>go/build/constraint\<close>, the tables of
  \<^verbatim>\<open>unicode\<close>, and the file system, as a tree that is walked or as functions over a state
  of the outside. The iteration order of a Go map and the ties of its sort are any permutation.

  \<^bold>\<open>Interfaces.\<close> \<^verbatim>\<open>codec_law\<close> is the contract of a type on the wire, with
  interpretations for strings, integers, booleans, bytes and the announcement envelope;
  \<^verbatim>\<open>struct_law\<close> extends it for the events of the backend stream;
  \<^verbatim>\<open>skeleton\<close> is what the router asks of a port's server, interpreted for the memory and
  the orchestrator; \<^verbatim>\<open>directory\<close> is the registry as a map by instance id;
  \<^verbatim>\<open>comparison\<close> is what a sort asks of its comparison, interpreted for the findings of
  the comment checker; \<^verbatim>\<open>monitor\<close> is what makes the sections under one lock atomic,
  interpreted for the send lock of a turn, the claims, the ports of a router and the registry.

  \<^bold>\<open>What is shown.\<close> Sealing and opening announcements are inverse within the
  window and the size bound, acceptance is exactly authenticity, freshness and form, the checks
  come in a fixed order, and a replay is bounded by twenty seconds. A watch accounts for every
  message and records only what is authentic, usable and allowed; without an allowlist it records
  nothing; queries show the latest entry of each instance. Without credentials only loopback
  addresses are dialled. TLS settings fail closed. At most one router is registered on a server in
  every interleaving of callers, collector and cleanups. Calls through the proxies refine the
  direct calls, state changes, results and errors included, and errors keep their budget data. A
  streamed turn replays its events in order, stops at the first failed send, ignores late events,
  and the receive loop returns on every stream that ends. Whatever the goroutines around a turn
  do, it comes to a run in which each event is one step, no two sends overlap, and a handler whose
  backend has returned can always return; through the proxy a concurrent turn arrives whole, in
  the order of the send lock, which keeps that of each goroutine; a query of a registry that
  watches sees whole announcements and misses none that was delivered before it, and the first
  registration of a port wins every race. A router's answers are well typed as proto3 messages,
  and the tables of the generated code agree with the raw descriptor. The generator hands its
  plugins every descriptor after those it imports, writes nothing unless they return the files
  asked for, nor outside of its output directory unless a name climbs, and exits as documented.
  The comment checker exits with 0 exactly on clean trees, where clean is stated without its maps
  and loops; it lists links without reading them, refuses nolint lines everywhere, and its report
  does not depend on the runtime's choices.

  \<^bold>\<open>Bounds.\<close> JSON nesting is limited to 10000, as in the standard library. The receive
  loop is a partial function in the option type: None would be a loop that never returns, and the
  theorems say when it is Some. Every other function is total; there is no fuel. The sections under
  a lock are finite trees of statements, so each of them ends; the number of goroutines and of calls
  has no bound.

  \<^bold>\<open>What is not modelled.\<close> The limits gRPC sets on the size of messages; the wording of the messages of \<^verbatim>\<open>encoding/json\<close> and
  of gRPC statuses; contexts beyond an error that is already there when a dial starts; the
  order in which a Go mutex serves those who wait (any of them may be next); the methods of the
  generated code that only call the reflection of the protobuf runtime, and its type builder; the
  cancellation of the tools by signals; of Go's syntax tree, everything but declarations, types,
  comments and the places of function bodies.
\<close>

section \<open>Calls across the whole stack\<close>

text \<open>
  What the dialled proxies rely on in gRPC: a unary call on the connection runs the handler that the
  far server has under the name called, among its services the Plugin service with the router, and
  returns its answer, as long as the texts in the request and in the answer are well-formed UTF-8.
\<close>

definition linked ::
  "'b runtime \<Rightarrow> ('conn, 'creds, 's, 'b) grpc \<Rightarrow> 'conn \<Rightarrow> ('s, 'b) PluginRouter \<Rightarrow> bool" where
  "linked rt g conn r \<longleftrightarrow>
     (\<exists>services. let served = RegisterPluginServer services (router_Call rt r) in
        \<forall>s nm env. carriable_request env \<and> carriable (snd (serve_unary served nm (Inr env) s)) \<longrightarrow>
          conn_Invoke g conn s nm env = serve_unary served nm (Inr env) s)"

lemma dialled_client:
  assumes "linked rt g conn r" and "carriable_request env" and "carriable (snd (router_Call rt r s env))"
  shows "NewPluginClient (conn_Invoke g conn) s env = router_Call rt r s env"
proof -
  have handled: "Plugin_Call_Handler (router_Call rt r) (Inr env) None s = router_Call rt r s env"
    by (simp add: Plugin_Call_Handler_def)
  obtain services where "conn_Invoke g conn s Plugin_Call_FullMethodName env =
      serve_unary (RegisterPluginServer services (router_Call rt r)) Plugin_Call_FullMethodName (Inr env) s"
    using assms by (auto simp: linked_def Let_def serve_plugin_call handled)
  then show ?thesis
    by (simp add: NewPluginClient_def pluginClient_Call_def serve_plugin_call handled split: prod.split sum.split)
qed

lemma dialled_memory:
  assumes "dialConn rt g ctxErr e creds = Inr conn" and "linked rt g conn r"
    and "serves_memory rt mt m (router_Call rt r)"
  obtains p where "DialMemory rt g ctxErr e creds = Inr p" and "serves_memory rt mt m (mp_client p)"
proof -
  have "serves_memory rt mt m (NewPluginClient (conn_Invoke g conn))"
    using assms(3) dialled_client [OF assms(2)]
    by (simp add: serves_memory_def carriable_request_def PortMemory_def valid_utf8_ascii)
  with assms(1) show ?thesis
    by (intro that [of "\<lparr> mp_client = NewPluginClient (conn_Invoke g conn), mp_dialed = Some (conn_Close g conn) \<rparr>"])
      (simp_all add: DialMemory_def NewMemoryProxy_def)
qed

lemma dialled_orchestrator:
  assumes "dialConn rt g ctxErr e creds = Inr conn" and "linked rt g conn r"
    and "serves_orchestrator rt pc o_impl (router_Call rt r)"
  obtains p where "DialOrchestrator rt g ctxErr e creds = Inr p" and "serves_orchestrator rt pc o_impl (op_client p)"
proof -
  have "serves_orchestrator rt pc o_impl (NewPluginClient (conn_Invoke g conn))"
    using assms(3) dialled_client [OF assms(2)]
    by (simp add: serves_orchestrator_def carriable_request_def PortOrchestrator_def valid_utf8_ascii)
  with assms(1) show ?thesis
    by (intro that [of "\<lparr> op_client = NewPluginClient (conn_Invoke g conn), op_dialed = Some (conn_Close g conn) \<rparr>"])
      (simp_all add: DialOrchestrator_def NewOrchestratorProxy_def)
qed

text \<open>A connection to a router that serves the sample memory and the sample orchestrator.\<close>

definition sample_orchestrator :: "(string list, string, string) orchestrator" where
  "sample_orchestrator = \<lparr> orc_Context = (\<lambda>s. (s, ''facts'')),
     orc_Observe = (\<lambda>s p reply. (p # s, None)),
     orc_Consolidate = (\<lambda>s. (s, Some (BudgetError ''tokens''))) \<rparr>"

definition memory_router :: "(string list, string) PluginRouter" where
  "memory_router = fst (RegisterMemorySkeleton sample_runtime sample_codecs new_router sample_memory)"

definition both_router :: "(string list, string) PluginRouter" where
  "both_router = fst (RegisterOrchestratorSkeleton sample_runtime string_codec memory_router sample_orchestrator)"

definition sample_link :: "(string, bool, string list, string) grpc" where
  "sample_link = \<lparr> NewClient = (\<lambda>addr creds. Inr addr), insecure_NewCredentials = False,
     conn_Invoke = (\<lambda>conn s m env. serve_unary (RegisterPluginServer [] (router_Call sample_runtime both_router)) m (Inr env) s),
     conn_streams = (\<lambda>conn. \<lparr> NewStream = (\<lambda>w m. (w, Some (OpaqueError ''down''))), SendMsg = (\<lambda>w m. (w, None)),
       CloseSend = (\<lambda>w. (w, None)), RecvMsg = (\<lambda>w. (w, Inl (Sentinel IoEOF))) \<rparr>),
     conn_Close = (\<lambda>conn s. (s, None)) \<rparr>"

lemma memory_router_registered:
  "RegisterMemorySkeleton sample_runtime sample_codecs new_router sample_memory = (memory_router, None)"
  by (simp add: memory_router_def RegisterMemorySkeleton_def add_def new_router_def)

lemma both_router_registered:
  "RegisterOrchestratorSkeleton sample_runtime string_codec memory_router sample_orchestrator = (both_router, None)"
  by (simp add: both_router_def memory_router_def RegisterMemorySkeleton_def RegisterOrchestratorSkeleton_def
      add_def new_router_def)

lemma sample_linked: "linked sample_runtime sample_link conn both_router"
  unfolding linked_def Let_def by (intro exI [of _ "[]"]) (simp add: sample_link_def)

lemma sample_link_dial:
  "dialConn sample_runtime sample_link None (entry sample_announcement) (Some True) = Inr ''127.0.0.1:7000''"
  by (simp add: dialConn_def sample_link_def entry_def sample_announcement_def)

lemma sample_served:
  "serves_memory sample_runtime sample_codecs sample_memory (router_Call sample_runtime both_router)"
  "serves_orchestrator sample_runtime string_codec sample_orchestrator (router_Call sample_runtime both_router)"
  by (rule memory_kept [OF memory_registered [OF memory_router_registered] both_router_registered],
      rule orchestrator_registered [OF both_router_registered])

lemma sample_budget: "wire_codec (budget_codec sample_runtime) valid_utf8"
  by (simp add: wire_codec_string)

section \<open>Properties that span components\<close>

text \<open>
  C3: recalling and searching through a dialled proxy is recalling and searching: whatever ports
  the router of the far side serves, a memory registered on it answers a remote caller with the
  result and the state change of the direct call, an error arriving as its wire form, for every
  key and query that is fit for the wire and every result that is.
\<close>

theorem remote_memory_reads:
  fixes rt :: "'b runtime" and m :: "('s, 'b, 'n, 'q, 'g) memory"
  assumes "wire_codec (budget_codec rt) fitb" and "wire_codec (node_codec mt) fitn"
    and "wire_codec (query_codec mt) fitq" and "wire_codec (subgraph_codec mt) fitg"
    and "serves_memory rt mt m (router_Call rt r)"
    and "dialConn rt g ctxErr e creds = Inr conn" and "linked rt g conn r"
  shows "\<exists>p. DialMemory rt g ctxErr e creds = Inr p
    \<and> (\<forall>s key depth. valid_utf8 key \<longrightarrow> result_fit rt fitb fitg (snd (mem_Recall m s key depth)) \<longrightarrow>
         MemoryProxy_Recall rt mt p s key depth = remote_result rt (mem_Recall m s key depth))
    \<and> (\<forall>s query. fitq query \<longrightarrow> result_fit rt fitb (slice_fit fitn) (snd (mem_Search m s query)) \<longrightarrow>
         MemoryProxy_Search rt mt p s query = remote_result rt (mem_Search m s query))"
proof -
  obtain p where p: "DialMemory rt g ctxErr e creds = Inr p" "serves_memory rt mt m (mp_client p)"
    by (rule dialled_memory [OF assms(6,7,5)])
  then show ?thesis
    using recall_remote [OF assms(1,4) p(2)] search_remote [OF assms(1,3,2) p(2)] by blast
qed

theorem remote_memory_reads_witness:
  "\<exists>p. DialMemory sample_runtime sample_link None (entry sample_announcement) (Some True) = Inr p
    \<and> MemoryProxy_Recall sample_runtime sample_codecs p [''a''] ''b'' 1 = ([''a''], Inl (RemoteError ''no such node''))
    \<and> MemoryProxy_Search sample_runtime sample_codecs p [''a''] ''a'' = ([''a''], Inr (Some [''a'']))"
proof -
  have ascii: "valid_utf8 ''a''" "valid_utf8 ''b''" by (simp_all add: valid_utf8_ascii)
  have fits: "result_fit sample_runtime valid_utf8 valid_utf8 (snd (mem_Recall sample_memory [''a''] ''b'' 1))"
    "result_fit sample_runtime valid_utf8 (slice_fit valid_utf8) (snd (mem_Search sample_memory [''a''] ''a''))"
    using ascii by (simp_all add: sample_memory_def result_fit_def wire_err_def slice_fit_def valid_utf8_ascii)
  have codecs: "wire_codec (node_codec sample_codecs) valid_utf8" "wire_codec (query_codec sample_codecs) valid_utf8"
    "wire_codec (subgraph_codec sample_codecs) valid_utf8"
    by (simp_all add: wire_codec_string)
  from remote_memory_reads [OF sample_budget codecs sample_served(1) sample_link_dial sample_linked]
  obtain p where "DialMemory sample_runtime sample_link None (entry sample_announcement) (Some True) = Inr p"
    "MemoryProxy_Recall sample_runtime sample_codecs p [''a''] ''b'' 1 =
       remote_result sample_runtime (mem_Recall sample_memory [''a''] ''b'' 1)"
    "MemoryProxy_Search sample_runtime sample_codecs p [''a''] ''a'' =
       remote_result sample_runtime (mem_Search sample_memory [''a''] ''a'')"
    using ascii fits by blast
  then show ?thesis by (simp add: sample_memory_def remote_result_def over_wire_def)
qed

text \<open>
  C4: recording, linking and unlinking through a dialled proxy do to the memory what the direct
  calls do, and report their error in its wire form, a budget error typed.
\<close>

theorem remote_memory_writes:
  fixes rt :: "'b runtime" and m :: "('s, 'b, 'n, 'q, 'g) memory"
  assumes "wire_codec (budget_codec rt) fitb" and "wire_codec (node_codec mt) fitn"
    and "serves_memory rt mt m (router_Call rt r)"
    and "dialConn rt g ctxErr e creds = Inr conn" and "linked rt g conn r"
  shows "\<exists>p. DialMemory rt g ctxErr e creds = Inr p
    \<and> (\<forall>s n. fitn n \<longrightarrow> error_fit rt fitb (snd (mem_Record m s n)) \<longrightarrow>
         MemoryProxy_Record rt mt p s n = remote_error rt (mem_Record m s n))
    \<and> (\<forall>s a b rel. valid_utf8 a \<longrightarrow> valid_utf8 b \<longrightarrow> valid_utf8 rel \<longrightarrow> error_fit rt fitb (snd (mem_Links m s a b rel)) \<longrightarrow>
         MemoryProxy_Links rt p s a b rel = remote_error rt (mem_Links m s a b rel))
    \<and> (\<forall>s a b. valid_utf8 a \<longrightarrow> valid_utf8 b \<longrightarrow> error_fit rt fitb (snd (mem_Unlink m s a b)) \<longrightarrow>
         MemoryProxy_Unlink rt p s a b = remote_error rt (mem_Unlink m s a b))"
proof -
  obtain p where p: "DialMemory rt g ctxErr e creds = Inr p" "serves_memory rt mt m (mp_client p)"
    by (rule dialled_memory [OF assms(4,5,3)])
  then show ?thesis
    using record_remote [OF assms(1,2) p(2)] links_remote [OF assms(1) p(2)] unlink_remote [OF assms(1) p(2)] by blast
qed

theorem remote_memory_writes_witness:
  "\<exists>p. DialMemory sample_runtime sample_link None (entry sample_announcement) (Some True) = Inr p
    \<and> MemoryProxy_Record sample_runtime sample_codecs p [''a''] ''b'' = ([''b'', ''a''], None)
    \<and> MemoryProxy_Record sample_runtime sample_codecs p [''b'', ''a''] ''c'' = ([''b'', ''a''], Some (BudgetError ''nodes''))"
proof -
  have ascii: "valid_utf8 ''b''" "valid_utf8 ''c''" by (simp_all add: valid_utf8_ascii)
  have fits: "error_fit sample_runtime valid_utf8 (snd (mem_Record sample_memory [''a''] ''b''))"
    "error_fit sample_runtime valid_utf8 (snd (mem_Record sample_memory [''b'', ''a''] ''c''))"
    by (auto simp: sample_memory_def error_fit_def wire_err_def valid_utf8_ascii) (simp_all add: wrap_def sample_runtime_def valid_utf8_ascii)
  have codecs: "wire_codec (node_codec sample_codecs) valid_utf8" by (simp add: wire_codec_string)
  from remote_memory_writes [OF sample_budget codecs sample_served(1) sample_link_dial sample_linked]
  obtain p where p: "DialMemory sample_runtime sample_link None (entry sample_announcement) (Some True) = Inr p"
    and writes: "\<And>s n. valid_utf8 n \<Longrightarrow> error_fit sample_runtime valid_utf8 (snd (mem_Record sample_memory s n)) \<Longrightarrow>
      MemoryProxy_Record sample_runtime sample_codecs p s n = remote_error sample_runtime (mem_Record sample_memory s n)"
    by metis
  from p writes [OF ascii(1) fits(1)] writes [OF ascii(2) fits(2)]
  show ?thesis by (simp add: sample_memory_def remote_error_def over_wire_def)
qed

text \<open>
  C16: the orchestrator port behaves alike: observing and consolidating through a dialled proxy do
  what the direct calls do and report their error in its wire form, and the context is the
  orchestrator's own text, with ill-formed UTF-8 replaced as JSON replaces it; a context call
  that fails in any way degrades to the empty text.
\<close>

theorem remote_orchestrator:
  fixes rt :: "'b runtime" and o_impl :: "('s, 'b, 'p) orchestrator"
  assumes "wire_codec (budget_codec rt) fitb" and "wire_codec pc fitp"
    and "serves_orchestrator rt pc o_impl (router_Call rt r)"
    and "dialConn rt g ctxErr e creds = Inr conn" and "linked rt g conn r"
  shows "\<exists>p. DialOrchestrator rt g ctxErr e creds = Inr p
    \<and> (\<forall>s. OrchestratorProxy_Context rt p s =
         (fst (orc_Context o_impl s), to_valid_utf8 (snd (orc_Context o_impl s))))
    \<and> (\<forall>s prompt reply. fitp prompt \<longrightarrow> valid_utf8 reply \<longrightarrow> error_fit rt fitb (snd (orc_Observe o_impl s prompt reply)) \<longrightarrow>
         OrchestratorProxy_Observe rt pc p s prompt reply = remote_error rt (orc_Observe o_impl s prompt reply))
    \<and> (\<forall>s. error_fit rt fitb (snd (orc_Consolidate o_impl s)) \<longrightarrow>
         OrchestratorProxy_Consolidate rt p s = remote_error rt (orc_Consolidate o_impl s))
    \<and> (\<forall>(q :: ('s, 'b) OrchestratorProxy) s s' cause. OrchestratorProxy_call rt q s methodContext [] = (s', Inl cause) \<longrightarrow>
         OrchestratorProxy_Context rt q s = (s', []))"
proof -
  obtain p where p: "DialOrchestrator rt g ctxErr e creds = Inr p" "serves_orchestrator rt pc o_impl (op_client p)"
    by (rule dialled_orchestrator [OF assms(4,5,3)])
  have "OrchestratorProxy_Context rt q s = (s', [])" if "OrchestratorProxy_call rt q s methodContext [] = (s', Inl cause)"
    for q :: "('s, 'b) OrchestratorProxy" and s s' cause
    using context_degrades [of rt q s cause] that by simp
  with p show ?thesis
    using context_remote [OF p(2)] observe_remote [OF assms(1,2) p(2)] consolidate_remote [OF assms(1) p(2)] by blast
qed

theorem remote_orchestrator_witness:
  "\<exists>p. DialOrchestrator sample_runtime sample_link None (entry sample_announcement) (Some True) = Inr p
    \<and> OrchestratorProxy_Context sample_runtime p [] = ([], ''facts'')
    \<and> OrchestratorProxy_Consolidate sample_runtime p [] = ([], Some (BudgetError ''tokens''))"
proof -
  have fits: "error_fit sample_runtime valid_utf8 (snd (orc_Consolidate sample_orchestrator []))"
    by (simp add: sample_orchestrator_def error_fit_def wire_err_def valid_utf8_ascii)
  from remote_orchestrator [OF sample_budget wire_codec_string sample_served(2) sample_link_dial sample_linked]
  obtain p where p: "DialOrchestrator sample_runtime sample_link None (entry sample_announcement) (Some True) = Inr p"
    and ctx: "OrchestratorProxy_Context sample_runtime p [] =
      (fst (orc_Context sample_orchestrator []), to_valid_utf8 (snd (orc_Context sample_orchestrator [])))"
    and consolidate: "error_fit sample_runtime valid_utf8 (snd (orc_Consolidate sample_orchestrator [])) \<Longrightarrow>
      OrchestratorProxy_Consolidate sample_runtime p [] = remote_error sample_runtime (orc_Consolidate sample_orchestrator [])"
    by metis
  have "to_valid_utf8 ''facts'' = ''facts''" by (simp add: to_valid_utf8_id valid_utf8_ascii)
  with p ctx consolidate [OF fits] show ?thesis
    by (simp add: sample_orchestrator_def remote_error_def over_wire_def)
qed

text \<open>
  C6: a turn through a dialled backend proxy is the turn of the real backend behind the skeleton:
  the host's hook gets every event, in order and exactly once, the reply is the backend's reply,
  and the error arrives as its text; a host without a hook gets the same reply and error. An error
  whose text is empty arrives as no error. The events a backend emits after its turn do not show,
  and closing the proxy closes its own connection.
\<close>

theorem remote_backend_turn:
  assumes "wire_struct ec fit" and "wire_codec pc fitp" and "fitp prompt" and "turn_fit rt fit (real s prompt)"
    and "dialConn rt g ctxErr e creds = Inr conn" and "carries rt pc ec real s (conn_streams g conn) w"
  shows "\<exists>p. DialBackend rt g ctxErr e creds = Inr p
    \<and> (\<exists>w'. BackendProxy_Respond rt pc ec p prompt onEvent w h =
        Some (w', foldl (hook onEvent) h (turn_events (real s prompt)), turn_reply (real s prompt),
          if errString rt (turn_err (real s prompt)) = [] then None
          else Some (RemoteError (errString rt (turn_err (real s prompt))))))
    \<and> BackendProxy_Close p = conn_Close g conn"
proof -
  let ?p = "(NewBackendProxy (conn_streams g conn))\<lparr>bp_dialed := Some (conn_Close g conn)\<rparr>"
  have "carries rt pc ec real s (bp_cc ?p) w" using assms(6) by (simp add: NewBackendProxy_def)
  from backend_turn [OF assms(1-4) this, of onEvent h] assms(5) show ?thesis
    by (intro exI [of _ ?p]) (simp add: DialBackend_def BackendProxy_Close_def fun_eq_iff)
qed

definition sample_stream_grpc :: "(string, bool, result_envelope list \<times> string go_error, string) grpc" where
  "sample_stream_grpc = \<lparr> NewClient = (\<lambda>addr creds. Inr addr), insecure_NewCredentials = False,
     conn_Invoke = (\<lambda>conn s m env. (s, Inl (OpaqueError ''down''))),
     conn_streams = (\<lambda>conn. mem_conn sample_runtime string_codec string_codec sample_backend 7),
     conn_Close = (\<lambda>conn s. (s, None)) \<rparr>"

theorem remote_backend_turn_witness:
  "\<exists>p w'. DialBackend sample_runtime sample_stream_grpc None (entry sample_announcement) (Some True) = Inr p
    \<and> BackendProxy_Respond sample_runtime string_codec string_codec p ''hi'' (Some (\<lambda>seen e. seen @ [e]))
        ([], Sentinel IoEOF) [] =
      Some (w', [''thinking'', ''hi''], ''ok'', Some (RemoteError ''budget exceeded: tokens''))"
proof -
  have dial: "dialConn sample_runtime sample_stream_grpc None (entry sample_announcement) (Some True) = Inr ''127.0.0.1:7000''"
    by (simp add: dialConn_def sample_stream_grpc_def entry_def sample_announcement_def)
  have "carries sample_runtime string_codec string_codec sample_backend 7
      (conn_streams sample_stream_grpc ''127.0.0.1:7000'') ([], Sentinel IoEOF)"
    by (simp add: sample_stream_grpc_def mem_conn_carries)
  from remote_backend_turn [where prompt = "''hi''" and onEvent = "Some (\<lambda>seen e. seen @ [e])" and h = "[]",
      OF wire_struct_string wire_codec_string _ sample_turn_fit dial this]
  show ?thesis by (fastforce simp: valid_utf8_ascii sample_backend_def hook_def errString_def)
qed

text \<open>
  Announcing publishes exactly one message, on the announcement subject, and a registry that watches
  with the same key, holds the address allowed and receives the message within the window lists
  exactly that plugin among its memories, with nothing reported as rejected.
\<close>

lemma announced_memory_is_listed:
  fixes rt :: "'b runtime" and ann :: "'m announcement"
  assumes "wire_codec mc fit" and "usable key" and "announcement_fit fit ann" and "int64_ok sent"
    and "Marshal (announcement_codec mc) ann = (Inr body :: ('b, string) result)" and "length body \<le> 24495"
    and "\<bar>now - sent\<bar> \<le> AnnounceWindow"
    and "usable_announcement ct ann" and "manifest_Category ct (Manifest ann) = CategoryMemory ct"
    and "allowed f (GrpcAddr ann)"
  shows "\<exists>payload. Announce rt mc (\<lambda>log subject msg. (log @ [(subject, msg)], None)) [] ann key sent =
      ([(SubjectAnnounce, payload)], None)
    \<and> (case Watch rt mc ct (\<lambda>subject callback. Inr callback) key (Some (\<lambda>log e. log @ [e])) of
         Inl e \<Rightarrow> False
       | Inr callback \<Rightarrow>
           (case foldl callback (NewRemoteRegistry [WithAddrAllow f], []) [(payload, now)] of
              (r, log) \<Rightarrow> Memories ct r = [entry ann] \<and> log = []))"
proof -
  obtain payload where seal: "sealAnnouncement rt mc key ann sent = Inr payload"
    by (rule seal_obtain [OF assms(1-3), of rt sent]) blast
  have "(length body + 2) div 3 \<le> 8165" using assms(6) by linarith
  then have "length payload \<le> maxAnnounceBytes"
    using seal_size [OF seal assms(5)] by (simp add: maxAnnounceBytes_def)
  then have "openAnnouncement rt mc key payload now = Inr ann"
    using open_sealed [OF assms(1-4) seal, of now] assms(7) by simp
  then have verdict: "verdict rt mc ct key (allow (NewRemoteRegistry [WithAddrAllow f])) (payload, now) = Inr (entry ann)"
    using assms(8,10) by (simp add: verdict_def NewRemoteRegistry_def WithAddrAllow_def)
  have "Announce rt mc (\<lambda>log subject msg. (log @ [(subject, msg)], None)) [] ann key sent =
      ([(SubjectAnnounce, payload)], None)"
    by (simp add: Announce_def seal)
  moreover have "watch_step rt mc ct key (\<lambda>log e. log @ [e]) (NewRemoteRegistry [WithAddrAllow f], []) (payload, now) =
      (put_entry (InstanceID ann) (entry ann) (NewRemoteRegistry [WithAddrAllow f]), [])"
    by (simp add: watch_step_verdict(2) [OF verdict])
  ultimately show ?thesis
    using assms(2,9)
    by (intro exI [of _ payload])
      (simp add: Watch_installs Memories_def byCategory_def put_entry_def NewRemoteRegistry_def WithAddrAllow_def entry_def)
qed

text \<open>
  C14: a plugin that announces itself can be used: announcing publishes exactly one message, on the
  announcement subject, and a registry that watches with the same key, holds the address allowed
  and receives the message within the window lists exactly one memory, with nothing reported as
  rejected; dialling what is listed gives a proxy, and a Recall through it gives what the memory
  behind the announced address gives, its state change and its error included.
\<close>

theorem announced_memory_answers:
  fixes rt :: "'b runtime" and ann :: "'m announcement"
  assumes "wire_codec mc fit" and "usable key" and "announcement_fit fit ann" and "int64_ok sent"
    and "Marshal (announcement_codec mc) ann = (Inr body :: ('b, string) result)" and "length body \<le> 24495"
    and "\<bar>now - sent\<bar> \<le> AnnounceWindow"
    and "usable_announcement ct ann" and "manifest_Category ct (Manifest ann) = CategoryMemory ct"
    and "allowed f (GrpcAddr ann)"
    and "dialConn rt g ctxErr (entry ann) creds = Inr conn" and "linked rt g conn r"
    and "serves_memory rt mt m (router_Call rt r)"
    and "wire_codec (budget_codec rt) fitb" and "wire_codec (subgraph_codec mt) fitg"
  shows "\<exists>payload. Announce rt mc (\<lambda>log subject msg. (log @ [(subject, msg)], None)) [] ann key sent =
      ([(SubjectAnnounce, payload)], None)
    \<and> (case Watch rt mc ct (\<lambda>subject callback. Inr callback) key (Some (\<lambda>log e. log @ [e])) of
         Inl e \<Rightarrow> False
       | Inr callback \<Rightarrow>
           (case foldl callback (NewRemoteRegistry [WithAddrAllow f], []) [(payload, now)] of
              (reg, log) \<Rightarrow> log = []
                \<and> (\<exists>e p. Memories ct reg = [e] \<and> DialMemory rt g ctxErr e creds = Inr p
                     \<and> (\<forall>s k depth. valid_utf8 k \<longrightarrow> result_fit rt fitb fitg (snd (mem_Recall m s k depth)) \<longrightarrow>
                          MemoryProxy_Recall rt mt p s k depth = remote_result rt (mem_Recall m s k depth)))))"
proof -
  obtain p where p: "DialMemory rt g ctxErr (entry ann) creds = Inr p" "serves_memory rt mt m (mp_client p)"
    by (rule dialled_memory [OF assms(11-13)])
  from announced_memory_is_listed [OF assms(1-10), of rt] p(1) recall_remote [OF assms(14,15) p(2)]
  show ?thesis by (fastforce split: sum.splits prod.splits)
qed

theorem announced_memory_answers_witness:
  "\<exists>payload. Announce sample_runtime string_codec (\<lambda>log subject msg. (log @ [(subject, msg)], None)) []
      sample_announcement sample_key 5 = ([(SubjectAnnounce, payload)], None)
    \<and> (case Watch sample_runtime string_codec sample_types (\<lambda>subject callback. Inr callback) sample_key (Some (\<lambda>log e. log @ [e])) of
         Inl e \<Rightarrow> False
       | Inr callback \<Rightarrow>
           (case foldl callback (NewRemoteRegistry [WithAddrAllow (Some (\<lambda>_. True))], []) [(payload, 9)] of
              (reg, log) \<Rightarrow> \<exists>e p. Memories sample_types reg = [e] \<and> DialMemory sample_runtime sample_link None e (Some True) = Inr p
                \<and> MemoryProxy_Recall sample_runtime sample_codecs p [''a''] ''b'' 1 = ([''a''], Inl (RemoteError ''no such node''))))"
proof -
  obtain body where body: "Marshal (announcement_codec string_codec) sample_announcement = (Inr body :: (string, string) result)"
    "length body \<le> 24495"
    using sample_marshal by blast
  have memory: "manifest_Category sample_types (Manifest sample_announcement) = CategoryMemory sample_types"
    by (simp add: sample_announcement_def sample_types_def)
  have "int64_ok 5" "\<bar>9 - 5 :: int\<bar> \<le> AnnounceWindow" "allowed (Some (\<lambda>_. True)) (GrpcAddr sample_announcement)"
    by (simp_all add: int64_ok_def AnnounceWindow_def allowed_def)
  have codec: "wire_codec (subgraph_codec sample_codecs) valid_utf8" by (simp add: wire_codec_string)
  have fits: "valid_utf8 ''b''" "result_fit sample_runtime valid_utf8 valid_utf8 (snd (mem_Recall sample_memory [''a''] ''b'' 1))"
    by (simp_all add: sample_memory_def result_fit_def wire_err_def valid_utf8_ascii)
  have recalled: "remote_result sample_runtime (mem_Recall sample_memory [''a''] ''b'' 1) = ([''a''], Inl (RemoteError ''no such node''))"
    by (simp add: sample_memory_def remote_result_def over_wire_def)
  from announced_memory_answers [OF wire_codec_string sample_usable sample_fit \<open>int64_ok 5\<close> body
      \<open>\<bar>9 - 5\<bar> \<le> AnnounceWindow\<close> sample_is_usable memory \<open>allowed (Some (\<lambda>_. True)) (GrpcAddr sample_announcement)\<close>
      sample_link_dial sample_linked sample_served(1) sample_budget codec]
  show ?thesis using fits recalled by (fastforce split: sum.splits prod.splits)
qed

text \<open>
  C29: an error whose text is empty is lost on the way: a remote caller of Record gets no error,
  although the memory refused the node and its state is what the refusal left.
\<close>

theorem empty_error_reads_as_success:
  fixes rt :: "'b runtime"
  assumes "wire_codec (node_codec mt) fitn" and "serves_memory rt mt m (router_Call rt r)"
    and "dialConn rt g ctxErr e creds = Inr conn" and "linked rt g conn r" and "fitn n"
    and "mem_Record m s n = (s', Some cause)" and "error_text rt cause = []"
  shows "\<exists>p. DialMemory rt g ctxErr e creds = Inr p \<and> MemoryProxy_Record rt mt p s n = (s', None)"
proof -
  obtain p where p: "DialMemory rt g ctxErr e creds = Inr p" "serves_memory rt mt m (mp_client p)"
    by (rule dialled_memory [OF assms(3,4,2)])
  then show ?thesis using record_empty_error [OF assms(1) p(2) assms(5-7)] by blast
qed

theorem empty_error_reads_as_success_witness:
  "mem_Record sample_memory [''a''] [] = ([''a''], Some (OpaqueError []))
   \<and> (\<exists>p. DialMemory sample_runtime sample_link None (entry sample_announcement) (Some True) = Inr p
        \<and> MemoryProxy_Record sample_runtime sample_codecs p [''a''] [] = ([''a''], None))"
proof -
  have codecs: "wire_codec (node_codec sample_codecs) valid_utf8" by (simp add: wire_codec_string)
  have refused: "mem_Record sample_memory [''a''] [] = ([''a''], Some (OpaqueError []))"
    by (simp add: sample_memory_def)
  from empty_error_reads_as_success [OF codecs sample_served(1) sample_link_dial sample_linked _ refused]
  show ?thesis by (simp add: refused)
qed

end
